theory Spec2Isabelle
  imports Main
begin

section \<open>Form assembly (firedrake/assemble.py)\<close>

text \<open>
  The assembly engine talks to collaborators that are not part of the file: the form
  compiler, the mesh layer, the PyOP2 substrate (\<open>op2.par_loop\<close>, \<open>op2.Sparsity\<close>,
  tensors) and the matrix and function classes.  The embedding keeps the control flow
  of \<open>assemble\<close>, \<open>_assemble\<close> and the closure \<open>thunk\<close> and records every call made
  to a collaborator, in order, in a trace.  Exceptions are values of type \<open>error\<close>;
  a function that can raise returns the error together with the state reached when it
  was raised, because calls already issued are not undone.
\<close>

subsection \<open>Exceptions\<close>

datatype error =
    ValueError string
  | TypeError string
  | NotImplementedError string
  | RuntimeError string
  | IndexError string
  | KeyError string
  | AttributeError string
  | AssertionError

text \<open>\<open>"'%s'" % x\<close> and \<open>'"%s"' % x\<close>.\<close>

definition sq :: "string \<Rightarrow> string" where
  "sq x = [CHR 0x27] @ x @ [CHR 0x27]"

definition dq :: "string \<Rightarrow> string" where
  "dq x = [CHR 0x22] @ x @ [CHR 0x22]"

subsection \<open>Data model\<close>

datatype dataset = DataSet | GlobalDataSet

text \<open>
  A function space as the file reads it: \<open>name\<close>, \<open>len(fs)\<close>, \<open>index\<close>, \<open>component\<close>,
  \<open>parent\<close> and \<open>dof_dset\<close> (one data set per block; \<open>GlobalDataSet\<close> for an R-type
  block).
\<close>

datatype fspace = FunctionSpace
  (fs_name: string)
  (fs_len: nat)
  (fs_index: "nat option")
  (fs_component: "nat option")
  (fs_parent: "fspace option")
  (fs_dof_dset: "dataset list")

record dirichlet_bc =
  bc_function_space :: fspace
  bc_nodes :: "nat list"

text \<open>
  A mesh: its name (its identity as a dictionary key), its topology, and for every
  integral type the entities it iterates over, each with its subdomain tag.
\<close>

record mesh =
  mesh_name :: string
  mesh_topology :: nat
  mesh_entities :: "(string \<times> (nat \<times> int) list) list"

datatype subdomain_id = Otherwise | Everywhere | Tag int

text \<open>
  A compiled kernel: the pair \<open>(indices, kinfo)\<close> of the source, with the fields of
  \<open>kinfo\<close> in the order in which \<open>thunk\<close> unpacks them.
\<close>

record kernel =
  k_indices :: "nat list"
  k_kernel :: nat
  k_integral_type :: string
  k_needs_orientations :: bool
  k_subdomain_id :: subdomain_id
  k_domain_number :: nat
  k_coeff_map :: "nat list"
  k_needs_cell_facets :: bool
  k_pass_layer_arg :: bool

record argument =
  arg_function_space :: fspace
  arg_ufl_domain :: "mesh option"

text \<open>\<open>coeff_split\<close> is the number of functions \<open>c.split()\<close> returns.\<close>

record coefficient =
  coeff_function_space :: "fspace option"
  coeff_ufl_domain :: "mesh option"
  coeff_split :: nat

text \<open>
  Subdomain data attached to a measure: the subset to iterate over and its Python truth
  value (the source writes \<open>sdata or itspace\<close>).
\<close>

datatype sdata = Sdata (sd_truthy: bool) (sd_entities: "nat list")

text \<open>
  A form (or Slate tensor): \<open>f_kernels\<close> is what the form compiler returns for it,
  \<open>f_integrals\<close> the integral types of \<open>f.integrals()\<close>, \<open>f_subdomain_data\<close> the
  dictionary \<open>f.subdomain_data()\<close>, keyed by mesh and then by integral type.
\<close>

record form =
  f_is_slate :: bool
  f_ufl_domains :: "mesh list"
  f_arguments :: "argument list"
  f_coefficients :: "coefficient list"
  f_integrals :: "string list"
  f_kernels :: "kernel list"
  f_subdomain_data :: "(string \<times> (string \<times> sdata) list) list"

subsection \<open>Calls to the collaborators\<close>

datatype region = OP2_ALL | ON_BOTTOM | ON_TOP | ON_INTERIOR_FACETS

datatype map_kind = CellNodeMap | ExteriorFacetNodeMap | InteriorFacetNodeMap

text \<open>What a node map is asked of: \<open>space[i]\<close>, the coordinates, the cell
  orientations, or one function of a split coefficient.\<close>

datatype map_target =
    SubSpace fspace nat
  | Coordinates string
  | CellOrientations string
  | CoefficientPart nat nat

text \<open>\<open>get_map(x, bcs, decoration)\<close>: the map accessor, the boundary conditions given
  to it and the decoration of a \<open>DecoratedMap\<close>.\<close>

datatype node_map =
  NodeMap map_target map_kind "dirichlet_bc list option" "region option"

datatype tensor_arg =
    MatArg nat nat node_map node_map
  | VecArg nat node_map
  | GlobalArg

datatype arg =
    CoordinatesArg node_map
  | OrientationsArg node_map
  | CoefficientArg nat nat node_map
  | ExteriorLocalFacetDat
  | InteriorLocalFacetDat
  | CellToFacets

text \<open>The arguments of one \<open>op2.par_loop(*args, **kwargs)\<close>.\<close>

record par_loop =
  pl_kernel :: nat
  pl_itspace :: "nat list"
  pl_tensor_arg :: tensor_arg
  pl_args :: "arg list"
  pl_iterate :: "region option"
  pl_pass_layer_arg :: bool

text \<open>
  A call to a collaborator.  \<open>ParLoop\<close> and \<open>SetLocalDiagonalEntries\<close> are made inside
  \<open>with collecting_loops(collect_loops)\<close>; their first argument is that flag, so
  \<open>ParLoop False\<close> is an accumulation that is issued and \<open>ParLoop True\<close> one that is
  only collected.  \<open>MatrixSetBcs\<close> is the assignment \<open>result_matrix.bcs = bcs\<close> to a
  matrix that the caller supplied: it changes the caller's object, also when the call
  later raises or returns the collected loops.
\<close>

datatype call =
    MeshInit string
  | Compile bool bool
  | NewSparsity "(map_kind \<times> region list) list" bool bool
  | NewMatrix
  | NewImplicitMatrix
  | ImplicitAssemble
  | NewFunction
  | NewGlobal
  | TensorZero
  | ParLoop bool par_loop
  | SetLocalDiagonalEntries bool nat nat "nat list" "nat option"
  | BCApply dirichlet_bc
  | TensorAssemble
  | MatrixSetBcs "dirichlet_bc list option"
  | AssembleExpression

text \<open>An element of the list \<open>loops\<close>: the callable \<open>zero_tensor\<close> (\<open>tensor.zero\<close> or
  \<open>lambda: None\<close>), or what a call returned.\<close>

datatype loop = ZeroCallable | NoopCallable | Returned call

record state =
  trace :: "call list"
  loops :: "loop list"

definition issue :: "call \<Rightarrow> state \<Rightarrow> state" where
  "issue c s = s\<lparr>trace := trace s @ [c]\<rparr>"

text \<open>\<open>loops.append(c)\<close> for a call \<open>c\<close> evaluated as the argument.\<close>

definition issue_append :: "call \<Rightarrow> state \<Rightarrow> state" where
  "issue_append c s = s\<lparr>trace := trace s @ [c], loops := loops s @ [Returned c]\<rparr>"

text \<open>A \<open>for\<close> loop whose body may raise: the first error ends it.\<close>

fun for_each :: "('a \<Rightarrow> state \<Rightarrow> error option \<times> state) \<Rightarrow> 'a list \<Rightarrow> state
    \<Rightarrow> error option \<times> state" where
  "for_each body [] s = (None, s)"
| "for_each body (x # xs) s =
     (case body x s of
        (Some e, s') \<Rightarrow> (Some e, s')
      | (None, s') \<Rightarrow> for_each body xs s')"

subsection \<open>The closure of \<open>thunk\<close>\<close>

text \<open>
  The variables of \<open>_assemble\<close> that \<open>thunk\<close> reads.  \<open>cl_zero_tensor\<close> tells whether
  \<open>zero_tensor\<close> is \<open>tensor.zero\<close> (True) or still \<open>lambda: None\<close> (False);
  \<open>cl_block_shape\<close> is \<open>result_matrix.block_shape\<close>; \<open>cl_ids\<close> is
  \<open>all_integer_subdomain_ids\<close>.
\<close>

record closure =
  cl_f :: form
  cl_kernels :: "kernel list"
  cl_is_mat :: bool
  cl_is_vec :: bool
  cl_collect_loops :: bool
  cl_zero_tensor :: bool
  cl_block_shape :: "nat \<times> nat"
  cl_ids :: "(string \<times> subdomain_id list) list"

text \<open>
  What the file takes from its surroundings: the two defaults of
  \<open>parameters.parameters\<close>, \<open>solving._extract_bcs\<close>, and the verdict of the substrate
  on a parallel loop (\<open>MapValueError\<close>).
\<close>

record env =
  default_matrix_type :: string
  default_sub_matrix_type :: string
  extract_bcs :: "dirichlet_bc list option \<Rightarrow> dirichlet_bc list option"
  map_value_error :: "par_loop \<Rightarrow> bool"

subsection \<open>The mesh layer\<close>

text \<open>
  Modelled from the spec: \<open>measure_set\<close> belongs to the mesh layer, which is not in
  the file.  The spec (4.4) says of the iteration set: "subdomain filtering accepts
  either an explicit integer tag, or all entities whose tag is not among any tag
  explicitly declared elsewhere in the same form when the kernel's tag is otherwise".
  The tags declared come in as the dictionary \<open>all_integer_subdomain_ids\<close>, read at
  the integral type.  For "everywhere" the whole entity set is returned.
\<close>

definition declared_ids :: "(string \<times> subdomain_id list) list \<Rightarrow> string \<Rightarrow> subdomain_id list" where
  "declared_ids all_ids integral_type =
     (case map_of all_ids integral_type of None \<Rightarrow> [] | Some v \<Rightarrow> v)"

definition kind_entities :: "mesh \<Rightarrow> string \<Rightarrow> (nat \<times> int) list" where
  "kind_entities m integral_type =
     (case map_of (mesh_entities m) integral_type of None \<Rightarrow> [] | Some es \<Rightarrow> es)"

definition measure_set :: "mesh \<Rightarrow> string \<Rightarrow> subdomain_id
    \<Rightarrow> (string \<times> subdomain_id list) list \<Rightarrow> nat list" where
  "measure_set m integral_type subdomain_id all_ids =
     (case subdomain_id of
        Tag n \<Rightarrow> map fst (filter (\<lambda>e. snd e = n) (kind_entities m integral_type))
      | Otherwise \<Rightarrow>
          map fst (filter (\<lambda>e. Tag (snd e) \<notin> set (declared_ids all_ids integral_type))
                     (kind_entities m integral_type))
      | Everywhere \<Rightarrow> map fst (kind_entities m integral_type))"

subsection \<open>\<open>thunk\<close>: zeroing\<close>

text \<open>
  \<open>if collect_loops: loops.append(zero_tensor) else: zero_tensor()\<close>.  Calling
  \<open>lambda: None\<close> calls no collaborator.
\<close>

definition zero_step :: "closure \<Rightarrow> state \<Rightarrow> state" where
  "zero_step cl s =
     (if cl_collect_loops cl
      then s\<lparr>loops := loops s @ [if cl_zero_tensor cl then ZeroCallable else NoopCallable]\<rparr>
      else if cl_zero_tensor cl then issue TensorZero s else s)"

subsection \<open>\<open>thunk\<close>: one kernel\<close>

text \<open>\<open>i, j = indices\<close>, \<open>i, = indices\<close> or \<open>assert len(indices) == 0\<close>; an index
  that the rank does not bind is given as 0 and never read.\<close>

definition unpack_indices :: "closure \<Rightarrow> nat list \<Rightarrow> error + nat \<times> nat" where
  "unpack_indices cl indices =
     (if cl_is_mat cl then
        (case indices of
           [i, j] \<Rightarrow> Inr (i, j)
         | _ \<Rightarrow> Inl (ValueError ''wrong number of values to unpack''))
      else if cl_is_vec cl then
        (case indices of
           [i] \<Rightarrow> Inr (i, 0)
         | _ \<Rightarrow> Inl (ValueError ''wrong number of values to unpack''))
      else if length indices = 0 then Inr (0, 0) else Inl AssertionError)"

text \<open>Python compares tuples lexicographically: \<open>block_shape > (1, 1)\<close>.\<close>

definition tuple_gt :: "nat \<times> nat \<Rightarrow> nat \<times> nat \<Rightarrow> bool" where
  "tuple_gt a b = (fst b < fst a \<or> (fst a = fst b \<and> snd b < snd a))"

text \<open>
  "Unwind ComponentFunctionSpace": \<open>fs = fs.parent\<close> when \<open>fs.component\<close> is set, then
  \<open>fs.index\<close>.  A component space without parent has no \<open>index\<close> to read.
\<close>

definition owning_index :: "fspace \<Rightarrow> error + nat option" where
  "owning_index fs =
     (if fs_component fs \<noteq> None then
        (case fs_parent fs of
           None \<Rightarrow> Inl (AttributeError ''index'')
         | Some p \<Rightarrow> Inr (fs_index p))
      else Inr (fs_index fs))"

fun matching_bcs :: "nat \<Rightarrow> nat \<Rightarrow> dirichlet_bc list
    \<Rightarrow> error + dirichlet_bc list \<times> dirichlet_bc list" where
  "matching_bcs i j [] = Inr ([], [])"
| "matching_bcs i j (bc # bcs) =
     (case owning_index (bc_function_space bc) of
        Inl e \<Rightarrow> Inl e
      | Inr idx \<Rightarrow>
          (case matching_bcs i j bcs of
             Inl e \<Rightarrow> Inl e
           | Inr (tsbc, trbc) \<Rightarrow>
               Inr ((if idx = Some i then [bc] else []) @ tsbc,
                    (if idx = Some j then [bc] else []) @ trbc)))"

text \<open>\<open>tsbc\<close> and \<open>trbc\<close>; for a vector or a scalar neither is bound nor read.\<close>

definition block_bcs :: "closure \<Rightarrow> dirichlet_bc list option \<Rightarrow> nat \<Rightarrow> nat
    \<Rightarrow> error + dirichlet_bc list option \<times> dirichlet_bc list option" where
  "block_bcs cl bcs i j =
     (if cl_is_mat cl \<and> tuple_gt (cl_block_shape cl) (1, 1) then
        (case bcs of
           None \<Rightarrow> Inl (TypeError ''NoneType object is not iterable'')
         | Some bs \<Rightarrow>
             (case matching_bcs i j bs of
                Inl e \<Rightarrow> Inl e
              | Inr (tsbc, trbc) \<Rightarrow> Inr (Some tsbc, Some trbc)))
      else if cl_is_mat cl then Inr (bcs, bcs)
      else Inr (None, None))"

text \<open>
  What the chain of \<open>if integral_type == ...\<close> fixes for a kind: the map accessor of
  \<open>get_map\<close>, whether \<open>get_map\<close> decorates the map, the extra arguments, and the
  decoration (also \<open>kwargs["iterate"]\<close>).  \<open>None\<close> is the final \<open>else\<close>.
\<close>

datatype kind_info = KindInfo
  (ki_map_kind: map_kind)
  (ki_decorates: bool)
  (ki_extra_args: "arg list")
  (ki_decoration: "region option")

definition classify :: "string \<Rightarrow> kind_info option" where
  "classify integral_type =
     (if integral_type = ''cell'' then Some (KindInfo CellNodeMap False [] None)
      else if integral_type \<in> set [''exterior_facet'', ''exterior_facet_vert''] then
        Some (KindInfo ExteriorFacetNodeMap False [ExteriorLocalFacetDat] None)
      else if integral_type \<in> set [''exterior_facet_top'', ''exterior_facet_bottom''] then
        Some (KindInfo CellNodeMap True []
               (Some (if integral_type = ''exterior_facet_top'' then ON_TOP else ON_BOTTOM)))
      else if integral_type \<in> set [''interior_facet'', ''interior_facet_vert''] then
        Some (KindInfo InteriorFacetNodeMap False [InteriorLocalFacetDat] None)
      else if integral_type = ''interior_facet_horiz'' then
        Some (KindInfo CellNodeMap True [] (Some ON_INTERIOR_FACETS))
      else None)"

definition get_map :: "kind_info \<Rightarrow> map_target \<Rightarrow> dirichlet_bc list option
    \<Rightarrow> region option \<Rightarrow> node_map" where
  "get_map ki x bcs decoration =
     NodeMap x (ki_map_kind ki) bcs (if ki_decorates ki then decoration else None)"

fun coefficient_args :: "kind_info \<Rightarrow> coefficient list \<Rightarrow> nat list \<Rightarrow> error + arg list" where
  "coefficient_args ki cs [] = Inr []"
| "coefficient_args ki cs (n # ns) =
     (if \<not> n < length cs then Inl (IndexError ''tuple index out of range'')
      else case coefficient_args ki cs ns of
             Inl e \<Rightarrow> Inl e
           | Inr rest \<Rightarrow>
               Inr (map (\<lambda>p. CoefficientArg n p (get_map ki (CoefficientPart n p) None None))
                      [0..<coeff_split (cs ! n)] @ rest))"

definition tensor_argument :: "closure \<Rightarrow> kind_info \<Rightarrow> dirichlet_bc list option
    \<Rightarrow> dirichlet_bc list option \<Rightarrow> nat \<Rightarrow> nat \<Rightarrow> error + tensor_arg" where
  "tensor_argument cl ki tsbc trbc i j =
     (if cl_is_mat cl then
        (case f_arguments (cl_f cl) of
           [test, trial] \<Rightarrow>
             Inr (MatArg i j
               (get_map ki (SubSpace (arg_function_space test) i) tsbc (ki_decoration ki))
               (get_map ki (SubSpace (arg_function_space trial) j) trbc (ki_decoration ki)))
         | _ \<Rightarrow> Inl (ValueError ''wrong number of values to unpack''))
      else if cl_is_vec cl then
        (case f_arguments (cl_f cl) of
           test # _ \<Rightarrow>
             Inr (VecArg i (get_map ki (SubSpace (arg_function_space test) i) None None))
         | [] \<Rightarrow> Inl (IndexError ''tuple index out of range''))
      else Inr GlobalArg)"

text \<open>
  The first part of the body of \<open>for indices, (kernel, integral_type, ...) in kernels\<close>
  (lines 397 to 427): the domain \<open>m\<close>, the indices \<open>i\<close> and \<open>j\<close>, \<open>sdata\<close>, and
  \<open>tsbc\<close> and \<open>trbc\<close>.
\<close>

definition kernel_prelude :: "closure \<Rightarrow> dirichlet_bc list option \<Rightarrow> kernel
    \<Rightarrow> error + mesh \<times> sdata option \<times> nat \<times> nat
          \<times> dirichlet_bc list option \<times> dirichlet_bc list option" where
  "kernel_prelude cl bcs k =
     (let f = cl_f cl;
          domains = f_ufl_domains f;
          integral_type = k_integral_type k
      in
      if \<not> k_domain_number k < length domains
      then Inl (IndexError ''tuple index out of range'')
      else
      let m = domains ! k_domain_number k in
      case map_of (f_subdomain_data f) (mesh_name m) of
        None \<Rightarrow> Inl (KeyError (mesh_name m))
      | Some subdomain_data \<Rightarrow>
      (case unpack_indices cl (k_indices k) of
        Inl e \<Rightarrow> Inl e
      | Inr (i, j) \<Rightarrow>
      let sdata = map_of subdomain_data integral_type in
      if integral_type \<noteq> ''cell'' \<and> sdata \<noteq> None
      then Inl (NotImplementedError ''subdomain_data only supported with cell integrals.'')
      else
      (case block_bcs cl bcs i j of
        Inl e \<Rightarrow> Inl e
      | Inr (tsbc, trbc) \<Rightarrow> Inr (m, sdata, i, j, tsbc, trbc))))"

text \<open>\<open>itspace\<close>: the measure set, or for a cell integral \<open>sdata or itspace\<close>.\<close>

definition iteration_space :: "closure \<Rightarrow> kernel \<Rightarrow> mesh \<Rightarrow> sdata option \<Rightarrow> nat list" where
  "iteration_space cl k m sdata =
     (let measure = measure_set m (k_integral_type k) (k_subdomain_id k) (cl_ids cl) in
      if k_integral_type k = ''cell'' then
        (case sdata of
           Some d \<Rightarrow> if sd_truthy d then sd_entities d else measure
         | None \<Rightarrow> measure)
      else measure)"

text \<open>
  \<open>args\<close> and \<open>kwargs\<close> of the parallel loop: the kernel, the iteration set, the
  tensor, the coordinates, the orientations if needed, the coefficients, then the extra
  arguments; \<open>iterate\<close> and \<open>pass_layer_arg\<close>.
\<close>

definition par_loop_call :: "kernel \<Rightarrow> mesh \<Rightarrow> kind_info \<Rightarrow> nat list \<Rightarrow> tensor_arg
    \<Rightarrow> arg list \<Rightarrow> par_loop" where
  "par_loop_call k m ki itspace tensor_arg coefficient_part =
     \<lparr> pl_kernel = k_kernel k,
       pl_itspace = itspace,
       pl_tensor_arg = tensor_arg,
       pl_args =
         [CoordinatesArg (get_map ki (Coordinates (mesh_name m)) None None)]
         @ (if k_needs_orientations k
            then [OrientationsArg (get_map ki (CellOrientations (mesh_name m)) None None)]
            else [])
         @ coefficient_part
         @ ki_extra_args ki
         @ (if k_needs_cell_facets k then [CellToFacets] else []),
       pl_iterate = ki_decoration ki,
       pl_pass_layer_arg = k_pass_layer_arg k \<rparr>"

text \<open>The whole body of the loop over the kernels.\<close>

definition kernel_step :: "env \<Rightarrow> closure \<Rightarrow> dirichlet_bc list option \<Rightarrow> kernel
    \<Rightarrow> state \<Rightarrow> error option \<times> state" where
  "kernel_step env cl bcs k s =
     (case kernel_prelude cl bcs k of
        Inl e \<Rightarrow> (Some e, s)
      | Inr (m, sdata, i, j, tsbc, trbc) \<Rightarrow>
      if k_integral_type k = ''cell'' \<and> k_subdomain_id k \<notin> set [Otherwise, Everywhere]
         \<and> sdata \<noteq> None
      then (Some (ValueError ''Cannot use subdomain data and subdomain_id''), s)
      else
      (case classify (k_integral_type k) of
        None \<Rightarrow> (Some (ValueError (''Unknown integral type '' @ sq (k_integral_type k))), s)
      | Some ki \<Rightarrow>
      (case tensor_argument cl ki tsbc trbc i j of
        Inl e \<Rightarrow> (Some e, s)
      | Inr tensor_arg \<Rightarrow>
      (case coefficient_args ki (f_coefficients (cl_f cl)) (k_coeff_map k) of
        Inl e \<Rightarrow> (Some e, s)
      | Inr coefficient_part \<Rightarrow>
      if k_needs_cell_facets k \<and> k_integral_type k \<noteq> ''cell'' then (Some AssertionError, s)
      else if map_value_error env
                (par_loop_call k m ki (iteration_space cl k m sdata) tensor_arg coefficient_part)
      then (Some (RuntimeError
              ''Integral measure does not match measure of all coefficients/arguments''), s)
      else (None, issue_append
              (ParLoop (cl_collect_loops cl)
                 (par_loop_call k m ki (iteration_space cl k m sdata) tensor_arg
                    coefficient_part)) s)))))"

subsection \<open>\<open>thunk\<close>: boundary conditions and finalisation\<close>

text \<open>The body of the two loops over \<open>range(shape[0])\<close> and \<open>range(shape[1])\<close>.\<close>

definition bc_block :: "bool \<Rightarrow> fspace \<Rightarrow> nat list \<Rightarrow> nat \<times> nat \<Rightarrow> state
    \<Rightarrow> error option \<times> state" where
  "bc_block collect fs nodes ij s =
     (let i = fst ij; j = snd ij in
      if i \<noteq> j then (None, s)
      else if fs_component fs = None \<and> fs_index fs \<noteq> None then
        (if fs_index fs = Some i
         then (None, issue_append (SetLocalDiagonalEntries collect i j nodes None) s)
         else (None, s))
      else if fs_component fs \<noteq> None then
        (case fs_parent fs of
           None \<Rightarrow> (Some (AttributeError ''index''), s)
         | Some p \<Rightarrow>
             if fs_index p \<noteq> None \<and> fs_index p \<noteq> Some i then (None, s)
             else (None, issue_append
                     (SetLocalDiagonalEntries collect i j nodes (fs_component fs)) s))
      else if fs_index fs = None then
        (None, issue_append (SetLocalDiagonalEntries collect i j nodes None) s)
      else (Some (RuntimeError ''Unhandled BC case''), s))"

definition block_pairs :: "nat \<times> nat \<Rightarrow> (nat \<times> nat) list" where
  "block_pairs shape =
     concat (map (\<lambda>i. map (\<lambda>j. (i, j)) [0..<snd shape]) [0..<fst shape])"

definition full_mixed_space_message :: string where
  "full_mixed_space_message =
     ''Cannot apply boundary conditions to full mixed space. Did you forget to index it?''"

text \<open>The body of \<open>for bc in bcs\<close> for a matrix; \<open>bc.nodes\<close> is read as a field of the
  boundary condition.\<close>

definition mat_bc :: "closure \<Rightarrow> dirichlet_bc \<Rightarrow> state \<Rightarrow> error option \<times> state" where
  "mat_bc cl bc s =
     (let fs = bc_function_space bc; nodes = bc_nodes bc in
      if 1 < fs_len fs then (Some (RuntimeError full_mixed_space_message), s)
      else for_each (bc_block (cl_collect_loops cl) fs nodes)
             (block_pairs (cl_block_shape cl)) s)"

definition apply_bcs_mat :: "closure \<Rightarrow> dirichlet_bc list option \<Rightarrow> state
    \<Rightarrow> error option \<times> state" where
  "apply_bcs_mat cl bcs s =
     (case bcs of
        None \<Rightarrow> (None, s)
      | Some bs \<Rightarrow> if cl_is_mat cl then for_each (mat_bc cl) bs s else (None, s))"

definition apply_bcs_vec :: "closure \<Rightarrow> dirichlet_bc list option \<Rightarrow> state
    \<Rightarrow> error option \<times> state" where
  "apply_bcs_vec cl bcs s =
     (case bcs of
        None \<Rightarrow> (None, s)
      | Some bs \<Rightarrow>
          if cl_is_vec cl then
            (if 0 < length bs \<and> cl_collect_loops cl
             then (Some (NotImplementedError ''Loop collection not handled in this case''), s)
             else for_each (\<lambda>bc s. (None, issue (BCApply bc) s)) bs s)
          else (None, s))"

text \<open>
  \<open>thunk(bcs)\<close>.  Its value \<open>result()\<close> is the target bound in \<open>_assemble\<close>; the model
  returns the error, if any, and the state.
\<close>

definition thunk :: "env \<Rightarrow> closure \<Rightarrow> dirichlet_bc list option \<Rightarrow> state
    \<Rightarrow> error option \<times> state" where
  "thunk env cl bcs s =
     (case for_each (kernel_step env cl bcs) (cl_kernels cl) (zero_step cl s) of
        (Some e, s1) \<Rightarrow> (Some e, s1)
      | (None, s1) \<Rightarrow>
          (case apply_bcs_mat cl bcs s1 of
             (Some e, s2) \<Rightarrow> (Some e, s2)
           | (None, s2) \<Rightarrow>
               (case apply_bcs_vec cl bcs s2 of
                  (Some e, s3) \<Rightarrow> (Some e, s3)
                | (None, s3) \<Rightarrow>
                    (None, if cl_is_mat cl then issue_append TensorAssemble s3 else s3))))"

subsection \<open>Tensors and results\<close>

text \<open>
  A \<open>Matrix\<close> object as the file uses it: \<open>block_shape\<close>, \<open>bcs\<close> and
  \<open>_assembly_callback\<close> (\<open>None\<close>: never assigned; \<open>Some None\<close>: assigned \<open>None\<close>;
  \<open>Some (Some cl)\<close>: assigned \<open>thunk\<close> with the closure \<open>cl\<close>).
\<close>

record matrix =
  mat_block_shape :: "nat \<times> nat"
  mat_bcs :: "dirichlet_bc list option"
  mat_assembly_callback :: "closure option option"

datatype tensor =
    Matrix matrix
  | ImplicitMatrix "dirichlet_bc list option"
  | Function fspace

datatype retval = Tensor tensor | Scalar | Loops "loop list" | ExpressionValue

text \<open>The object that \<open>result()\<close> returns.\<close>

datatype target = TargetMatrix matrix | TargetFunction fspace | TargetGlobal

definition result :: "target \<Rightarrow> retval" where
  "result t =
     (case t of
        TargetMatrix M \<Rightarrow> Tensor (Matrix M)
      | TargetFunction fs \<Rightarrow> Tensor (Function fs)
      | TargetGlobal \<Rightarrow> Scalar)"

text \<open>How the part of \<open>_assemble\<close> that depends on the rank ends: with a \<open>return\<close>, or
  with a target and the choice of \<open>zero_tensor\<close>.\<close>

datatype setup_result = Return retval | Continue target bool

record assemble_args =
  a_f :: form
  a_tensor :: "tensor option"
  a_bcs :: "dirichlet_bc list option"
  a_inverse :: bool
  a_mat_type :: "string option"
  a_sub_mat_type :: "string option"
  a_collect_loops :: bool
  a_allocate_only :: bool

subsection \<open>\<open>_assemble\<close>: intake\<close>

definition mat_type_of :: "env \<Rightarrow> assemble_args \<Rightarrow> string" where
  "mat_type_of env a =
     (case a_mat_type a of None \<Rightarrow> default_matrix_type env | Some t \<Rightarrow> t)"

definition sub_mat_type_of :: "env \<Rightarrow> assemble_args \<Rightarrow> string" where
  "sub_mat_type_of env a =
     (case a_sub_mat_type a of None \<Rightarrow> default_sub_matrix_type env | Some t \<Rightarrow> t)"

text \<open>Line 189 passes \<open>sub_mat_type\<close> as a second argument of \<open>ValueError\<close>, so the
  message keeps its \<open>%s\<close>.\<close>

definition resolve_types :: "env \<Rightarrow> assemble_args \<Rightarrow> error + string \<times> string" where
  "resolve_types env a =
     (if mat_type_of env a \<notin> set [''matfree'', ''aij'', ''baij'', ''nest'']
      then Inl (ValueError (''Unrecognised matrix type, '' @ sq (mat_type_of env a)))
      else if sub_mat_type_of env a \<notin> set [''aij'', ''baij'']
      then Inl (ValueError (''Invalid submatrix type, '' @ sq ''%s'' @ '' (not '' @ sq ''aij''
                  @ '' or '' @ sq ''baij'' @ '')''))
      else Inr (mat_type_of env a, sub_mat_type_of env a))"

text \<open>
  Lines 197 to 208: the topology of the first domain, \<open>m.init()\<close> and the comparison
  for every domain, then the comparison for every argument and coefficient that has a
  domain.
\<close>

definition init_domain :: "nat \<Rightarrow> mesh \<Rightarrow> state \<Rightarrow> error option \<times> state" where
  "init_domain topology m s =
     (if mesh_topology m \<noteq> topology
      then (Some (NotImplementedError ''All integration domains must share a mesh topology.''),
            issue (MeshInit (mesh_name m)) s)
      else (None, issue (MeshInit (mesh_name m)) s))"

definition object_domains :: "form \<Rightarrow> mesh option list" where
  "object_domains f = map arg_ufl_domain (f_arguments f) @ map coeff_ufl_domain (f_coefficients f)"

definition check_meshes :: "form \<Rightarrow> state \<Rightarrow> error option \<times> state" where
  "check_meshes f s =
     (case f_ufl_domains f of
        [] \<Rightarrow> (Some (IndexError ''tuple index out of range''), s)
      | m0 # _ \<Rightarrow>
          (case for_each (init_domain (mesh_topology m0)) (f_ufl_domains f) s of
             (Some e, s') \<Rightarrow> (Some e, s')
           | (None, s') \<Rightarrow>
               if list_ex (\<lambda>d. case d of None \<Rightarrow> False
                                | Some m \<Rightarrow> mesh_topology m \<noteq> mesh_topology m0)
                    (object_domains f)
               then (Some (NotImplementedError ''Assembly with multiple meshes not supported.''), s')
               else (None, s')))"

text \<open>
  \<open>coeff.function_space() and coeff.function_space().component is not None\<close>; a
  function space has a length, so it is true in Python when its length is not 0.
\<close>

definition subscripted :: "coefficient \<Rightarrow> bool" where
  "subscripted coeff =
     (case coeff_function_space coeff of
        None \<Rightarrow> False
      | Some fs \<Rightarrow> fs_len fs \<noteq> 0 \<and> fs_component fs \<noteq> None)"

subsection \<open>\<open>_assemble\<close>: a matrix\<close>

text \<open>The loop over \<open>integral_types\<close> that fills \<open>cell_domains\<close>,
  \<open>exterior_facet_domains\<close> and \<open>interior_facet_domains\<close>.\<close>

fun sparsity_domains :: "string list \<Rightarrow> region list \<times> region list \<times> region list
    \<Rightarrow> error + region list \<times> region list \<times> region list" where
  "sparsity_domains [] domains = Inr domains"
| "sparsity_domains (t # ts) (cells, ext_facets, int_facets) =
     (if t = ''cell'' then sparsity_domains ts (cells @ [OP2_ALL], ext_facets, int_facets)
      else if t = ''exterior_facet'' then sparsity_domains ts (cells, ext_facets @ [OP2_ALL], int_facets)
      else if t = ''interior_facet'' then sparsity_domains ts (cells, ext_facets, int_facets @ [OP2_ALL])
      else if t = ''exterior_facet_bottom'' then sparsity_domains ts (cells @ [ON_BOTTOM], ext_facets, int_facets)
      else if t = ''exterior_facet_top'' then sparsity_domains ts (cells @ [ON_TOP], ext_facets, int_facets)
      else if t = ''exterior_facet_vert'' then sparsity_domains ts (cells, ext_facets @ [OP2_ALL], int_facets)
      else if t = ''interior_facet_horiz'' then
        sparsity_domains ts (cells @ [ON_INTERIOR_FACETS], ext_facets, int_facets)
      else if t = ''interior_facet_vert'' then sparsity_domains ts (cells, ext_facets, int_facets @ [OP2_ALL])
      else Inl (ValueError (''Unknown integral type '' @ dq t)))"

definition map_pairs :: "region list \<times> region list \<times> region list
    \<Rightarrow> (map_kind \<times> region list) list" where
  "map_pairs d =
     (case d of (cells, ext_facets, int_facets) \<Rightarrow>
        (if cells \<noteq> [] then [(CellNodeMap, cells)] else [])
        @ (if ext_facets \<noteq> [] then [(ExteriorFacetNodeMap, ext_facets)] else [])
        @ (if int_facets \<noteq> [] then [(InteriorFacetNodeMap, int_facets)] else []))"

text \<open>
  Modelled from the spec: \<open>op2.Sparsity\<close> is not in the file.  The spec (4.2) says
  when it refuses: "block-sparse ... is invalid when any block corresponds to a space
  whose nodes are not uniformly blockable (e.g., spaces built from scalar R-type global
  degrees of freedom)".  The arguments are the two \<open>dof_dset\<close>s and \<open>block_sparse\<close>.
\<close>

definition sparsity_format_error :: "dataset list \<Rightarrow> dataset list \<Rightarrow> bool \<Rightarrow> bool" where
  "sparsity_format_error test_dset trial_dset block_sparse =
     (block_sparse \<and> GlobalDataSet \<in> set (test_dset @ trial_dset))"

text \<open>
  Modelled from the spec: \<open>matrix.Matrix\<close> is not in the file.  The spec (4.3) says
  of a new tensor: "the block shape matches the number of top-level mixed indices in
  each argument space".
\<close>

definition new_matrix :: "fspace \<Rightarrow> fspace \<Rightarrow> dirichlet_bc list option \<Rightarrow> matrix" where
  "new_matrix test_space trial_space bcs =
     \<lparr> mat_block_shape = (fs_len test_space, fs_len trial_space),
       mat_bcs = bcs,
       mat_assembly_callback = None \<rparr>"

definition r_space_message :: string where
  "r_space_message =
     ''Monolithic matrix assembly is not supported for systems with R-space blocks.''"

text \<open>
  \<open>if tensor is None: ... else: ...\<close> for a matrix: the matrix to assemble into and
  whether \<open>zero_tensor\<close> became \<open>tensor.zero\<close>.  For a supplied matrix
  \<open>result_matrix.bcs = bcs\<close> is recorded as a call and shows in the matrix returned.  A
  supplied object that is not a matrix has no attribute \<open>_M\<close>; the assignment that
  precedes the error sets a plain attribute of that object and is not recorded.
\<close>

definition mat_target :: "assemble_args \<Rightarrow> bool \<Rightarrow> bool \<Rightarrow> string list \<Rightarrow> fspace \<Rightarrow> fspace
    \<Rightarrow> state \<Rightarrow> (error + matrix \<times> bool) \<times> state" where
  "mat_target a nest baij integral_types test_space trial_space s =
     (case a_tensor a of
        None \<Rightarrow>
          (case sparsity_domains integral_types ([], [], []) of
             Inl e \<Rightarrow> (Inl e, s)
           | Inr domains \<Rightarrow>
               if sparsity_format_error (fs_dof_dset test_space) (fs_dof_dset trial_space) baij
               then (Inl (ValueError r_space_message), s)
               else (Inr (new_matrix test_space trial_space (a_bcs a), False),
                     issue NewMatrix (issue (NewSparsity (map_pairs domains) nest baij) s)))
      | Some (ImplicitMatrix b) \<Rightarrow> (Inl (ValueError ''Expecting matfree with implicit matrix''), s)
      | Some (Matrix M) \<Rightarrow>
          (Inr (M\<lparr>mat_bcs := a_bcs a\<rparr>, True), issue (MatrixSetBcs (a_bcs a)) s)
      | Some (Function fs) \<Rightarrow> (Inl (AttributeError ''_M''), s))"

definition setup_mat :: "assemble_args \<Rightarrow> string \<Rightarrow> string \<Rightarrow> string list \<Rightarrow> state
    \<Rightarrow> (error + setup_result) \<times> state" where
  "setup_mat a mat_type sub_mat_type integral_types s =
     (let matfree = (mat_type = ''matfree'');
          nest = (mat_type = ''nest'');
          baij = (if nest then sub_mat_type = ''baij'' else mat_type = ''baij'')
      in
      if matfree then
        (if a_inverse a then (Inl (NotImplementedError ''Inverse not implemented with matfree''), s)
         else if a_collect_loops a
         then (Inl (NotImplementedError (''Can'' @ [CHR 0x27] @ ''t collect loops with matfree'')), s)
         else
           (case a_tensor a of
              None \<Rightarrow> (Inr (Return (Tensor (ImplicitMatrix (a_bcs a)))), issue NewImplicitMatrix s)
            | Some (ImplicitMatrix b) \<Rightarrow>
                (Inr (Return (Tensor (ImplicitMatrix b))), issue ImplicitAssemble s)
            | Some _ \<Rightarrow> (Inl (ValueError ''Expecting implicit matrix with matfree''), s)))
      else
        (case f_arguments (a_f a) of
           [test, trial] \<Rightarrow>
             (case mat_target a nest baij integral_types
                     (arg_function_space test) (arg_function_space trial) s of
                (Inl e, s') \<Rightarrow> (Inl e, s')
              | (Inr (result_matrix, zero), s') \<Rightarrow>
                  if mat_block_shape result_matrix \<noteq> (1, 1) \<and> mat_type = ''baij''
                  then (Inl (ValueError (''BAIJ matrix type makes no sense for mixed spaces, use ''
                               @ sq ''aij'')), s')
                  else if a_allocate_only a
                  then (Inr (Return (Tensor (Matrix
                          (result_matrix\<lparr>mat_assembly_callback := Some None\<rparr>)))), s')
                  else (Inr (Continue (TargetMatrix result_matrix) zero), s'))
         | _ \<Rightarrow> (Inl (ValueError ''wrong number of values to unpack''), s)))"

subsection \<open>\<open>_assemble\<close>: a vector, a scalar\<close>

definition setup_vec :: "assemble_args \<Rightarrow> state \<Rightarrow> (error + setup_result) \<times> state" where
  "setup_vec a s =
     (case f_arguments (a_f a) of
        [] \<Rightarrow> (Inl (IndexError ''tuple index out of range''), s)
      | test # _ \<Rightarrow>
          (case a_tensor a of
             None \<Rightarrow>
               (Inr (Continue (TargetFunction (arg_function_space test)) False),
                issue NewFunction s)
           | Some (Function fs) \<Rightarrow> (Inr (Continue (TargetFunction fs) True), s)
           | Some _ \<Rightarrow> (Inl (AttributeError ''dat''), s)))"

definition setup_scalar :: "assemble_args \<Rightarrow> state \<Rightarrow> (error + setup_result) \<times> state" where
  "setup_scalar a s =
     (case a_tensor a of
        None \<Rightarrow> (Inr (Continue TargetGlobal False), issue NewGlobal s)
      | Some _ \<Rightarrow>
          (Inl (ValueError (''Can'' @ [CHR 0x27] @ ''t assemble 0-form into existing tensor'')), s))"

subsection \<open>\<open>_assemble\<close>: the subdomain ids\<close>

fun tag_value :: "subdomain_id \<Rightarrow> int option" where
  "tag_value (Tag n) = Some n"
| "tag_value _ = None"

text \<open>
  \<open>tuple(sorted(v))\<close> in Python 3: integers are sorted, equal strings keep their order,
  and comparing a string with an integer raises \<open>TypeError\<close>.
\<close>

definition py_sorted :: "subdomain_id list \<Rightarrow> error + subdomain_id list" where
  "py_sorted v =
     (let tags = List.map_filter tag_value v in
      if tags = [] then Inr v
      else if length tags = length v then Inr (map Tag (sort tags))
      else Inl (TypeError ''< not supported between instances of str and int''))"

fun sort_values :: "(string \<times> subdomain_id list) list
    \<Rightarrow> error + (string \<times> subdomain_id list) list" where
  "sort_values [] = Inr []"
| "sort_values ((t, v) # kvs) =
     (case py_sorted v of
        Inl e \<Rightarrow> Inl e
      | Inr v' \<Rightarrow>
          (case sort_values kvs of
             Inl e \<Rightarrow> Inl e
           | Inr rest \<Rightarrow> Inr ((t, v') # rest)))"

text \<open>
  The dictionary \<open>all_integer_subdomain_ids\<close>: for every integral type that has a
  kernel whose subdomain id is not "otherwise" (keys in the order of first
  appearance), the ids of those kernels in kernel order, then sorted.
\<close>

definition all_integer_subdomain_ids :: "kernel list
    \<Rightarrow> error + (string \<times> subdomain_id list) list" where
  "all_integer_subdomain_ids kernels =
     (let declared = filter (\<lambda>k. k_subdomain_id k \<noteq> Otherwise) kernels;
          keys = rev (remdups (rev (map k_integral_type declared)))
      in sort_values
           (map (\<lambda>t. (t, map k_subdomain_id (filter (\<lambda>k. k_integral_type k = t) declared)))
              keys))"

subsection \<open>\<open>_assemble\<close>\<close>

text \<open>The last lines: \<open>if collect_loops: ... if is_mat: ... else: ...\<close>.\<close>

definition finish :: "env \<Rightarrow> closure \<Rightarrow> target \<Rightarrow> dirichlet_bc list option \<Rightarrow> state
    \<Rightarrow> (error + retval) \<times> state" where
  "finish env cl tgt bcs s =
     (if cl_collect_loops cl then
        (case thunk env cl bcs s of
           (Some e, s') \<Rightarrow> (Inl e, s')
         | (None, s') \<Rightarrow> (Inr (Loops (loops s')), s'))
      else if cl_is_mat cl then
        (case tgt of
           TargetMatrix M \<Rightarrow>
             (Inr (Tensor (Matrix (M\<lparr>mat_assembly_callback := Some (Some cl)\<rparr>))), s)
         | _ \<Rightarrow> (Inr (result tgt), s))
      else
        (case thunk env cl bcs s of
           (Some e, s') \<Rightarrow> (Inl e, s')
         | (None, s') \<Rightarrow> (Inr (result tgt), s')))"

text \<open>
  The closure that \<open>_assemble\<close> builds.  \<open>result_matrix\<close> is bound only for a matrix;
  \<open>thunk\<close> reads its block shape only then.
\<close>

definition make_closure :: "assemble_args \<Rightarrow> target \<Rightarrow> bool
    \<Rightarrow> (string \<times> subdomain_id list) list \<Rightarrow> closure" where
  "make_closure a tgt zero ids =
     \<lparr> cl_f = a_f a,
       cl_kernels = f_kernels (a_f a),
       cl_is_mat = (length (f_arguments (a_f a)) = 2),
       cl_is_vec = (length (f_arguments (a_f a)) = 1),
       cl_collect_loops = a_collect_loops a,
       cl_zero_tensor = zero,
       cl_block_shape = (case tgt of TargetMatrix M \<Rightarrow> mat_block_shape M | _ \<Rightarrow> (0, 0)),
       cl_ids = ids \<rparr>"

text \<open>\<open>integral_types\<close>: from the kernels for a Slate tensor, from \<open>f.integrals()\<close>
  for a form.\<close>

definition integral_types :: "form \<Rightarrow> string list" where
  "integral_types f =
     (if f_is_slate f then map k_integral_type (f_kernels f) else f_integrals f)"

text \<open>
  The intake of \<open>_assemble\<close> (lines 182 to 227): the matrix types, the mesh
  topologies, the form compiler, and the two checks on the form.
\<close>

definition intake :: "env \<Rightarrow> assemble_args \<Rightarrow> state \<Rightarrow> (error + string \<times> string) \<times> state" where
  "intake env a s0 =
     (case resolve_types env a of
        Inl e \<Rightarrow> (Inl e, s0)
      | Inr types \<Rightarrow>
          (case check_meshes (a_f a) s0 of
             (Some e, s1) \<Rightarrow> (Inl e, s1)
           | (None, s1) \<Rightarrow>
               let s2 = issue (Compile (f_is_slate (a_f a)) (a_inverse a)) s1 in
               if list_ex subscripted (f_coefficients (a_f a))
               then (Inl (NotImplementedError
                       ''Integration of subscripted VFS not yet implemented''), s2)
               else if a_inverse a \<and> length (f_arguments (a_f a)) \<noteq> 2
               then (Inl (ValueError ''Can only assemble the inverse of a 2-form''), s2)
               else (Inr types, s2)))"

text \<open>\<open>if is_mat: ... elif is_vec: ... else: ...\<close> (lines 231 to 360).\<close>

definition rank_setup :: "assemble_args \<Rightarrow> string \<Rightarrow> string \<Rightarrow> state
    \<Rightarrow> (error + setup_result) \<times> state" where
  "rank_setup a mat_type sub_mat_type s =
     (if length (f_arguments (a_f a)) = 2
      then setup_mat a mat_type sub_mat_type (integral_types (a_f a)) s
      else if length (f_arguments (a_f a)) = 1 then setup_vec a s
      else setup_scalar a s)"

text \<open>
  The part of \<open>_assemble\<close> after the intake: the setup for the rank, the subdomain
  ids, and the last lines.
\<close>

definition assemble_rank :: "env \<Rightarrow> assemble_args \<Rightarrow> string \<Rightarrow> string \<Rightarrow> state
    \<Rightarrow> (error + retval) \<times> state" where
  "assemble_rank env a mat_type sub_mat_type s =
     (case rank_setup a mat_type sub_mat_type s of
        (Inl e, s') \<Rightarrow> (Inl e, s')
      | (Inr (Return v), s') \<Rightarrow> (Inr v, s')
      | (Inr (Continue tgt zero), s') \<Rightarrow>
          (case all_integer_subdomain_ids (f_kernels (a_f a)) of
             Inl e \<Rightarrow> (Inl e, s')
           | Inr ids \<Rightarrow> finish env (make_closure a tgt zero ids) tgt (a_bcs a) s'))"

text \<open>
  \<open>_assemble\<close>, started with the calls made so far; \<open>loops\<close> is a new list.  The form
  compiler parameters, \<open>appctx\<close> and \<open>options_prefix\<close> are only handed on to
  collaborators and are left out, but for \<open>assemble_inverse\<close>, which \<open>Compile\<close> records.
\<close>

definition assemble_impl :: "env \<Rightarrow> assemble_args \<Rightarrow> call list \<Rightarrow> (error + retval) \<times> state" where
  "assemble_impl env a tr =
     (case intake env a \<lparr> trace = tr, loops = [] \<rparr> of
        (Inl e, s) \<Rightarrow> (Inl e, s)
      | (Inr (mat_type, sub_mat_type), s) \<Rightarrow> assemble_rank env a mat_type sub_mat_type s)"

subsection \<open>\<open>assemble\<close>\<close>

text \<open>The keyword arguments: \<open>nest\<close> (absent, or given as \<open>None\<close>, \<open>True\<close> or
  \<open>False\<close>), \<open>collect_loops\<close>, \<open>allocate_only\<close>, and the names of any others.\<close>

record kwargs =
  kw_nest :: "bool option option"
  kw_collect_loops :: "bool option"
  kw_allocate_only :: "bool option"
  kw_others :: "string list"

text \<open>What \<open>f\<close> is: a form or Slate tensor, another UFL expression, or anything else.\<close>

datatype expression = Form form | Expr | Other string

fun join :: "string \<Rightarrow> string list \<Rightarrow> string" where
  "join sep [] = []"
| "join sep [x] = x"
| "join sep (x # y # ys) = x @ sep @ join sep (y # ys)"

definition assemble :: "env \<Rightarrow> expression \<Rightarrow> tensor option \<Rightarrow> dirichlet_bc list option
    \<Rightarrow> bool \<Rightarrow> string option \<Rightarrow> string option \<Rightarrow> kwargs \<Rightarrow> call list
    \<Rightarrow> (error + retval) \<times> state" where
  "assemble env f tensor bcs inverse' mat_type sub_mat_type kw tr =
     (let mat_type' = (case kw_nest kw of
                         Some (Some nest) \<Rightarrow> Some (if nest then ''nest'' else ''aij'')
                       | _ \<Rightarrow> mat_type);
          collect_loops = (case kw_collect_loops kw of None \<Rightarrow> False | Some b \<Rightarrow> b);
          allocate_only = (case kw_allocate_only kw of None \<Rightarrow> False | Some b \<Rightarrow> b)
      in
      if 0 < length (kw_others kw)
      then (Inl (TypeError (''Unknown keyword arguments '' @ sq (join '', '' (kw_others kw)))),
            \<lparr> trace = tr, loops = [] \<rparr>)
      else
        (case f of
           Form frm \<Rightarrow>
             assemble_impl env
               \<lparr> a_f = frm, a_tensor = tensor, a_bcs = extract_bcs env bcs,
                 a_inverse = inverse', a_mat_type = mat_type', a_sub_mat_type = sub_mat_type,
                 a_collect_loops = collect_loops, a_allocate_only = allocate_only \<rparr> tr
         | Expr \<Rightarrow> (Inr ExpressionValue, \<lparr> trace = tr @ [AssembleExpression], loops = [] \<rparr>)
         | Other r \<Rightarrow> (Inl (TypeError (''Unable to assemble: '' @ r)), \<lparr> trace = tr, loops = [] \<rparr>)))"

subsection \<open>Reading a trace\<close>

text \<open>The calls of the intake: initialising a mesh and running the form compiler.\<close>

fun intake_call :: "call \<Rightarrow> bool" where
  "intake_call (MeshInit n) = True"
| "intake_call (Compile slate inverted) = True"
| "intake_call c = False"

text \<open>The calls of the setup for the rank: building a sparsity, creating a tensor, the
  \<open>assemble\<close> of an implicit matrix, and replacing the boundary conditions of a supplied
  matrix.\<close>

fun setup_call :: "call \<Rightarrow> bool" where
  "setup_call (NewSparsity maps nest block_sparse) = True"
| "setup_call NewMatrix = True"
| "setup_call NewImplicitMatrix = True"
| "setup_call ImplicitAssemble = True"
| "setup_call NewFunction = True"
| "setup_call NewGlobal = True"
| "setup_call (MatrixSetBcs bcs) = True"
| "setup_call c = False"

text \<open>The calls that follow the accumulations in \<open>thunk\<close>: setting diagonal entries,
  applying a boundary condition to a function, and \<open>tensor.assemble()\<close>.\<close>

fun closing_call :: "call \<Rightarrow> bool" where
  "closing_call (SetLocalDiagonalEntries collecting i j nodes idx) = True"
| "closing_call (BCApply bc) = True"
| "closing_call TensorAssemble = True"
| "closing_call c = False"

text \<open>The kernel of an accumulation that was issued (not only collected).\<close>

fun issued_kernel :: "call \<Rightarrow> nat list" where
  "issued_kernel (ParLoop collecting pl) = (if collecting then [] else [pl_kernel pl])"
| "issued_kernel c = []"

definition accumulations :: "call list \<Rightarrow> nat list" where
  "accumulations tr = concat (map issued_kernel tr)"

text \<open>The iteration sets of the parallel loops of a trace.\<close>

fun issued_itspace :: "call \<Rightarrow> nat list list" where
  "issued_itspace (ParLoop collecting pl) = [pl_itspace pl]"
| "issued_itspace c = []"

definition iteration_sets :: "call list \<Rightarrow> nat list list" where
  "iteration_sets tr = concat (map issued_itspace tr)"

text \<open>
  Whether a call is aimed at block \<open>b\<close> of a matrix: \<open>tensor[i, j]\<close> is the target of an
  accumulation and of \<open>set_local_diagonal_entries\<close>; \<open>zero\<close> and \<open>assemble\<close> are
  calls on the whole tensor.
\<close>

fun writes_block :: "nat \<times> nat \<Rightarrow> call \<Rightarrow> bool" where
  "writes_block b (SetLocalDiagonalEntries collecting i j nodes idx) = (b = (i, j))"
| "writes_block b (ParLoop collecting pl) =
     (case pl_tensor_arg pl of MatArg i j m n \<Rightarrow> b = (i, j) | _ \<Rightarrow> False)"
| "writes_block b TensorZero = True"
| "writes_block b TensorAssemble = True"
| "writes_block b c = False"

definition block_calls :: "nat \<times> nat \<Rightarrow> call list \<Rightarrow> call list" where
  "block_calls b tr = filter (writes_block b) tr"

text \<open>The meshes of a form: its integration domains and the domains of its arguments
  and coefficients.\<close>

definition form_meshes :: "form \<Rightarrow> mesh list" where
  "form_meshes f =
     f_ufl_domains f
     @ concat (map (\<lambda>d. case d of None \<Rightarrow> [] | Some m \<Rightarrow> [m]) (object_domains f))"

subsection \<open>Small inputs\<close>

definition ex_mesh :: mesh where
  "ex_mesh = \<lparr> mesh_name = ''m'', mesh_topology = 0,
               mesh_entities = [(''cell'', [(0, 1), (1, 2), (2, 3)])] \<rparr>"

definition ex_other_mesh :: mesh where
  "ex_other_mesh = \<lparr> mesh_name = ''n'', mesh_topology = 1, mesh_entities = [] \<rparr>"

definition ex_space :: fspace where
  "ex_space = FunctionSpace ''V'' 1 None None None [DataSet]"

definition ex_kernel :: "nat list \<Rightarrow> nat \<Rightarrow> string \<Rightarrow> subdomain_id \<Rightarrow> kernel" where
  "ex_kernel indices handle integral_type subdomain_id =
     \<lparr> k_indices = indices, k_kernel = handle, k_integral_type = integral_type,
       k_needs_orientations = False, k_subdomain_id = subdomain_id, k_domain_number = 0,
       k_coeff_map = [], k_needs_cell_facets = False, k_pass_layer_arg = False \<rparr>"

text \<open>A form of rank \<open>r\<close> on \<open>ex_space\<close> with the given kernels and subdomain data.\<close>

definition ex_form :: "nat \<Rightarrow> kernel list \<Rightarrow> (string \<times> sdata) list \<Rightarrow> form" where
  "ex_form r ks sd =
     \<lparr> f_is_slate = False, f_ufl_domains = [ex_mesh],
       f_arguments = replicate r \<lparr> arg_function_space = ex_space, arg_ufl_domain = Some ex_mesh \<rparr>,
       f_coefficients = [], f_integrals = map k_integral_type ks, f_kernels = ks,
       f_subdomain_data = [(''m'', sd)] \<rparr>"

definition ex_env :: env where
  "ex_env = \<lparr> default_matrix_type = ''aij'', default_sub_matrix_type = ''baij'',
              extract_bcs = (\<lambda>b. case b of None \<Rightarrow> Some [] | Some bs \<Rightarrow> Some bs),
              map_value_error = (\<lambda>pl. False) \<rparr>"

definition ex_args :: "form \<Rightarrow> tensor option \<Rightarrow> assemble_args" where
  "ex_args f t =
     \<lparr> a_f = f, a_tensor = t, a_bcs = Some [], a_inverse = False, a_mat_type = None,
       a_sub_mat_type = None, a_collect_loops = False, a_allocate_only = False \<rparr>"

text \<open>A form of rank 2 with one cell kernel, the closure \<open>_assemble\<close> builds for it
  with a new matrix, a mixed space with two components, and a closure over a matrix of
  two by two blocks.\<close>

definition ex_matrix_form :: form where
  "ex_matrix_form = ex_form 2 [ex_kernel [0, 0] 7 ''cell'' Otherwise] []"

definition ex_closure :: closure where
  "ex_closure =
     make_closure (ex_args ex_matrix_form None)
       (TargetMatrix (new_matrix ex_space ex_space (Some []))) False []"

definition ex_mixed_space :: fspace where
  "ex_mixed_space = FunctionSpace ''W'' 2 None None None [DataSet, DataSet]"

definition ex_sub_space :: "nat \<Rightarrow> fspace" where
  "ex_sub_space k = FunctionSpace ''W_sub'' 1 (Some k) None (Some ex_mixed_space) [DataSet]"

definition ex_mixed_closure :: closure where
  "ex_mixed_closure =
     \<lparr> cl_f = ex_form 2 [] [], cl_kernels = [], cl_is_mat = True, cl_is_vec = False,
       cl_collect_loops = False, cl_zero_tensor = True, cl_block_shape = (2, 2),
       cl_ids = [] \<rparr>"

definition ex_bc :: "fspace \<Rightarrow> dirichlet_bc" where
  "ex_bc fs = \<lparr> bc_function_space = fs, bc_nodes = [4, 5] \<rparr>"

text \<open>A form of rank 1 whose second kernel has an unknown integral type, and the
  closure built for it.\<close>

definition ex_bogus_form :: form where
  "ex_bogus_form =
     ex_form 1 [ex_kernel [0] 7 ''cell'' Otherwise, ex_kernel [0] 8 ''bogus'' Otherwise] []"

definition ex_bogus_closure :: closure where
  "ex_bogus_closure =
     make_closure (ex_args ex_bogus_form None) (TargetFunction ex_space) False []"

text \<open>An R-type space, a form of rank 2 on it, a supplied matrix of a given block shape,
  and a request for \<open>nest\<close> with sub-type \<open>baij\<close>.\<close>

definition ex_r_space :: fspace where
  "ex_r_space = FunctionSpace ''R'' 1 None None None [GlobalDataSet]"

definition ex_r_form :: form where
  "ex_r_form =
     ex_matrix_form \<lparr> f_arguments :=
       replicate 2 \<lparr> arg_function_space = ex_r_space, arg_ufl_domain = Some ex_mesh \<rparr> \<rparr>"

definition ex_supplied :: "nat \<times> nat \<Rightarrow> matrix" where
  "ex_supplied shape =
     \<lparr> mat_block_shape = shape, mat_bcs = None, mat_assembly_callback = None \<rparr>"

definition ex_nest_baij :: "assemble_args \<Rightarrow> assemble_args" where
  "ex_nest_baij a = a \<lparr> a_mat_type := Some ''nest'', a_sub_mat_type := Some ''baij'' \<rparr>"

text \<open>A call of \<open>assemble\<close> without keyword arguments.\<close>

definition ex_kwargs :: kwargs where
  "ex_kwargs = \<lparr> kw_nest = None, kw_collect_loops = None, kw_allocate_only = None,
                 kw_others = [] \<rparr>"

text \<open>A form whose cell measure carries subdomain data, and a form with an "otherwise"
  kernel next to a kernel for tag 2, with the closure built for it.\<close>

definition ex_sdata_form :: form where
  "ex_sdata_form =
     ex_form 1 [ex_kernel [0] 7 ''cell'' Otherwise] [(''cell'', Sdata True [42])]"

definition ex_tagged_form :: form where
  "ex_tagged_form =
     ex_form 1 [ex_kernel [0] 7 ''cell'' Otherwise, ex_kernel [0] 8 ''cell'' (Tag 2)] []"

definition ex_tagged_closure :: closure where
  "ex_tagged_closure =
     make_closure (ex_args ex_tagged_form None) (TargetFunction ex_space) False
       [(''cell'', [Tag 2])]"

definition ex_vector_form :: form where
  "ex_vector_form = ex_form 1 [ex_kernel [0] 7 ''cell'' Otherwise] []"

text \<open>A form of rank 2 whose second kernel has an unknown integral type.\<close>

definition ex_bogus_matrix_form :: form where
  "ex_bogus_matrix_form =
     ex_form 2 [ex_kernel [0, 0] 7 ''cell'' Otherwise, ex_kernel [0, 0] 8 ''bogus'' Otherwise] []"

text \<open>An assembly into a matrix that exists, with one boundary condition, and the same
  as \<open>create_assembly_callable\<close> asks for it: loops are collected.\<close>

definition ex_reassemble :: assemble_args where
  "ex_reassemble =
     (ex_args ex_matrix_form (Some (Matrix (ex_supplied (1, 1)))))
       \<lparr> a_bcs := Some [ex_bc ex_space] \<rparr>"

definition ex_collect :: "assemble_args \<Rightarrow> assemble_args" where
  "ex_collect a = a \<lparr> a_collect_loops := True \<rparr>"

section \<open>Properties\<close>

subsection \<open>Loops\<close>

lemma for_each_append:
  "for_each body (xs @ ys) s =
     (case for_each body xs s of
        (Some e, s') \<Rightarrow> (Some e, s')
      | (None, s') \<Rightarrow> for_each body ys s')"
  by (induction xs arbitrary: s) (auto split: prod.splits option.splits)

lemma for_each_invariant:
  assumes step: "\<And>x s r s'. x \<in> set xs \<Longrightarrow> P s \<Longrightarrow> body x s = (r, s') \<Longrightarrow> P s'"
    and init: "P s"
  shows "P (snd (for_each body xs s))"
  using assms
proof (induction xs arbitrary: s)
  case Nil
  then show ?case by simp
next
  case (Cons x xs)
  obtain r s1 where b: "body x s = (r, s1)" by (cases "body x s")
  have p1: "P s1" using Cons.prems(1)[of x s r s1] Cons.prems(2) b by simp
  show ?case
  proof (cases r)
    case None
    have "P (snd (for_each body xs s1))"
      by (rule Cons.IH) (use Cons.prems(1) p1 in auto)
    then show ?thesis using b None by simp
  next
    case (Some e)
    then show ?thesis using b p1 by simp
  qed
qed

lemma for_each_ok_all:
  assumes "for_each body xs s = (None, s')"
    and "\<And>x s s1. x \<in> set xs \<Longrightarrow> body x s = (None, s1) \<Longrightarrow> Q x"
  shows "\<forall>x \<in> set xs. Q x"
  using assms
  by (induction xs arbitrary: s) (auto split: prod.splits option.splits)

subsection \<open>Mesh topologies\<close>

lemma init_domains_trace:
  "\<exists>inits. trace (snd (for_each (init_domain t) ms s)) = trace s @ map MeshInit inits"
proof (induction ms arbitrary: s)
  case Nil
  show ?case by (rule exI[of _ "[]"]) simp
next
  case (Cons m ms)
  show ?case
  proof (cases "mesh_topology m \<noteq> t")
    case True
    then have "snd (for_each (init_domain t) (m # ms) s) = issue (MeshInit (mesh_name m)) s"
      by (simp add: init_domain_def)
    then show ?thesis
      by (intro exI[of _ "[mesh_name m]"]) (simp add: issue_def)
  next
    case False
    then have step: "for_each (init_domain t) (m # ms) s
        = for_each (init_domain t) ms (issue (MeshInit (mesh_name m)) s)"
      by (simp add: init_domain_def)
    obtain inits where
      "trace (snd (for_each (init_domain t) ms (issue (MeshInit (mesh_name m)) s)))
         = trace (issue (MeshInit (mesh_name m)) s) @ map MeshInit inits"
      using Cons.IH by blast
    then show ?thesis unfolding step
      by (intro exI[of _ "mesh_name m # inits"]) (simp add: issue_def)
  qed
qed

lemma init_domains_ok:
  "for_each (init_domain t) ms s = (None, s') \<Longrightarrow> \<forall>m \<in> set ms. mesh_topology m = t"
  by (erule for_each_ok_all) (auto simp: init_domain_def split: if_splits)

lemma check_meshes_trace:
  "\<exists>inits. trace (snd (check_meshes f s)) = trace s @ map MeshInit inits"
proof (cases "f_ufl_domains f")
  case Nil
  then show ?thesis by (intro exI[of _ "[]"]) (simp add: check_meshes_def)
next
  case (Cons m0 ms)
  obtain inits where i:
    "trace (snd (for_each (init_domain (mesh_topology m0)) (f_ufl_domains f) s))
       = trace s @ map MeshInit inits"
    using init_domains_trace by blast
  show ?thesis
    using i Cons by (intro exI[of _ inits])
      (auto simp: check_meshes_def split: prod.splits option.splits)
qed

lemma check_meshes_ok:
  assumes "fst (check_meshes f s) = None"
  shows "\<forall>m1 \<in> set (form_meshes f). \<forall>m2 \<in> set (form_meshes f).
           mesh_topology m1 = mesh_topology m2"
proof (cases "f_ufl_domains f")
  case Nil
  then show ?thesis using assms by (simp add: check_meshes_def)
next
  case (Cons m0 ms)
  obtain r s' where fe: "for_each (init_domain (mesh_topology m0)) (f_ufl_domains f) s = (r, s')"
    by (cases "for_each (init_domain (mesh_topology m0)) (f_ufl_domains f) s")
  have r: "r = None" using assms Cons fe
    by (auto simp: check_meshes_def split: option.splits)
  have doms: "\<forall>m \<in> set (f_ufl_domains f). mesh_topology m = mesh_topology m0"
    using init_domains_ok fe r by blast
  have objs: "\<not> list_ex (\<lambda>d. case d of None \<Rightarrow> False
                   | Some m \<Rightarrow> mesh_topology m \<noteq> mesh_topology m0) (object_domains f)"
    using assms Cons fe r by (auto simp: check_meshes_def split: if_splits)
  have "\<forall>m \<in> set (concat (map (\<lambda>d. case d of None \<Rightarrow> [] | Some m \<Rightarrow> [m]) (object_domains f))).
          mesh_topology m = mesh_topology m0"
    using objs by (auto simp: list_ex_iff split: option.splits)
  then have "\<forall>m \<in> set (form_meshes f). mesh_topology m = mesh_topology m0"
    using doms by (auto simp: form_meshes_def)
  then show ?thesis by simp
qed

lemma intake_meshes_fail:
  assumes "\<exists>m1 \<in> set (form_meshes (a_f a)). \<exists>m2 \<in> set (form_meshes (a_f a)).
             mesh_topology m1 \<noteq> mesh_topology m2"
  shows "\<exists>e inits. intake env a s = (Inl e, snd (intake env a s))
           \<and> trace (snd (intake env a s)) = trace s @ map MeshInit inits"
proof (cases "resolve_types env a")
  case (Inl e)
  then show ?thesis
    by (intro exI[of _ e] exI[of _ "[]"]) (simp add: intake_def)
next
  case (Inr types)
  obtain r s1 where cm: "check_meshes (a_f a) s = (r, s1)"
    by (cases "check_meshes (a_f a) s")
  have "r \<noteq> None" using check_meshes_ok[of "a_f a" s] cm assms by auto
  then obtain e where e: "r = Some e" by auto
  obtain inits where "trace s1 = trace s @ map MeshInit inits"
    using check_meshes_trace[of "a_f a" s] cm by auto
  then show ?thesis using Inr cm e
    by (intro exI[of _ e] exI[of _ inits]) (simp add: intake_def)
qed

text \<open>
  C10.  If the integration domains, the arguments and the coefficients of the form do
  not all share one mesh topology, \<open>_assemble\<close> fails, and the only calls it has made
  by then initialise meshes: the form compiler has not run, no tensor is allocated and
  no kernel is accumulated.
\<close>

theorem mixed_topology_fails:
  assumes "\<exists>m1 \<in> set (form_meshes (a_f a)). \<exists>m2 \<in> set (form_meshes (a_f a)).
             mesh_topology m1 \<noteq> mesh_topology m2"
  shows "\<exists>e inits. fst (assemble_impl env a tr) = Inl e
           \<and> trace (snd (assemble_impl env a tr)) = tr @ map MeshInit inits"
proof -
  let ?s0 = "\<lparr> trace = tr, loops = [] \<rparr>"
  obtain e inits where i: "intake env a ?s0 = (Inl e, snd (intake env a ?s0))"
    and t: "trace (snd (intake env a ?s0)) = trace ?s0 @ map MeshInit inits"
    using intake_meshes_fail[OF assms, of env ?s0] by blast
  have "assemble_impl env a tr = (Inl e, snd (intake env a ?s0))"
    unfolding assemble_impl_def by (subst i) simp
  then show ?thesis using t by (intro exI[of _ e] exI[of _ inits]) simp
qed

theorem mixed_topology_fails_witness:
  "(\<exists>m1 \<in> set (form_meshes ((ex_form 1 [] []) \<lparr> f_ufl_domains := [ex_mesh, ex_other_mesh] \<rparr>)).
      \<exists>m2 \<in> set (form_meshes ((ex_form 1 [] []) \<lparr> f_ufl_domains := [ex_mesh, ex_other_mesh] \<rparr>)).
        mesh_topology m1 \<noteq> mesh_topology m2)
   \<and> (\<exists>e inits.
        fst (assemble_impl ex_env
               (ex_args ((ex_form 1 [] []) \<lparr> f_ufl_domains := [ex_mesh, ex_other_mesh] \<rparr>) None) [])
          = Inl e
        \<and> trace (snd (assemble_impl ex_env
               (ex_args ((ex_form 1 [] []) \<lparr> f_ufl_domains := [ex_mesh, ex_other_mesh] \<rparr>) None) []))
          = [] @ map MeshInit inits)"
proof -
  let ?f = "(ex_form 1 [] []) \<lparr> f_ufl_domains := [ex_mesh, ex_other_mesh] \<rparr>"
  have h: "\<exists>m1 \<in> set (form_meshes (a_f (ex_args ?f None))).
             \<exists>m2 \<in> set (form_meshes (a_f (ex_args ?f None))).
               mesh_topology m1 \<noteq> mesh_topology m2"
    by (auto simp: ex_args_def form_meshes_def ex_form_def ex_mesh_def ex_other_mesh_def
        object_domains_def)
  from mixed_topology_fails[OF h, of ex_env "[]"] h show ?thesis
    by (simp add: ex_args_def)
qed

subsection \<open>The trace of \<open>thunk\<close>\<close>

lemma kernel_step_unfold:
  assumes "kernel_prelude cl bcs k = Inr (m, sdata, i, j, tsbc, trbc)"
    and "classify (k_integral_type k) = Some ki"
    and "tensor_argument cl ki tsbc trbc i j = Inr tensor_arg"
    and "coefficient_args ki (f_coefficients (cl_f cl)) (k_coeff_map k) = Inr cpart"
  shows "(\<exists>e. kernel_step env cl bcs k s = (Some e, s))
            \<or> kernel_step env cl bcs k s
                = (None, issue_append (ParLoop (cl_collect_loops cl)
                     (par_loop_call k m ki (iteration_space cl k m sdata) tensor_arg cpart)) s)"
  unfolding kernel_step_def using assms by simp

lemma kernel_step_cases:
  "(\<exists>e. kernel_step env cl bcs k s = (Some e, s))
   \<or> (\<exists>pl m sdata i j tsbc trbc.
         kernel_step env cl bcs k s = (None, issue_append (ParLoop (cl_collect_loops cl) pl) s)
         \<and> kernel_prelude cl bcs k = Inr (m, sdata, i, j, tsbc, trbc)
         \<and> classify (k_integral_type k) \<noteq> None
         \<and> pl_kernel pl = k_kernel k
         \<and> pl_itspace pl = iteration_space cl k m sdata)"
proof (cases "kernel_prelude cl bcs k")
  case (Inl e)
  then show ?thesis by (simp add: kernel_step_def)
next
  case (Inr x)
  obtain m sdata i j tsbc trbc where x: "x = (m, sdata, i, j, tsbc, trbc)"
    using prod_cases6 by blast
  note pre = Inr[unfolded x]
  show ?thesis
  proof (cases "classify (k_integral_type k)")
    case None
    then show ?thesis using pre by (simp add: kernel_step_def)
  next
    case (Some ki)
    show ?thesis
    proof (cases "tensor_argument cl ki tsbc trbc i j")
      case (Inl e)
      then show ?thesis using pre Some by (simp add: kernel_step_def)
    next
      case ta: (Inr tensor_arg)
      show ?thesis
      proof (cases "coefficient_args ki (f_coefficients (cl_f cl)) (k_coeff_map k)")
        case (Inl e)
        then show ?thesis using pre Some ta by (simp add: kernel_step_def)
      next
        case ca: (Inr cpart)
        let ?pl = "par_loop_call k m ki (iteration_space cl k m sdata) tensor_arg cpart"
        have pl: "pl_kernel ?pl = k_kernel k" "pl_itspace ?pl = iteration_space cl k m sdata"
          by (simp_all add: par_loop_call_def)
        from kernel_step_unfold[OF pre Some ta ca, of env s]
        show ?thesis
        proof
          assume "\<exists>e. kernel_step env cl bcs k s = (Some e, s)"
          then show ?thesis by (rule disjI1)
        next
          assume st: "kernel_step env cl bcs k s
                = (None, issue_append (ParLoop (cl_collect_loops cl) ?pl) s)"
          have c: "classify (k_integral_type k) \<noteq> None" using Some by simp
          show ?thesis
            by (rule disjI2, intro exI[of _ ?pl] exI[of _ m] exI[of _ sdata] exI[of _ i]
                exI[of _ j] exI[of _ tsbc] exI[of _ trbc] conjI st pre c pl)
        qed
      qed
    qed
  qed
qed

lemma for_each_extends:
  assumes "\<And>x s r s'. x \<in> set xs \<Longrightarrow> body x s = (r, s') \<Longrightarrow>
             \<exists>new. trace s' = trace s @ new \<and> (\<forall>c \<in> set new. Q c)"
  shows "\<exists>new. trace (snd (for_each body xs s)) = trace s @ new \<and> (\<forall>c \<in> set new. Q c)"
proof -
  have "(\<lambda>s'. \<exists>new. trace s' = trace s @ new \<and> (\<forall>c \<in> set new. Q c)) (snd (for_each body xs s))"
  proof (rule for_each_invariant)
    fix x s1 r s2
    assume x: "x \<in> set xs" and p: "\<exists>new. trace s1 = trace s @ new \<and> (\<forall>c \<in> set new. Q c)"
      and b: "body x s1 = (r, s2)"
    from p obtain n1 where n1: "trace s1 = trace s @ n1" "\<forall>c \<in> set n1. Q c" by blast
    from assms[OF x b] obtain n2 where n2: "trace s2 = trace s1 @ n2" "\<forall>c \<in> set n2. Q c" by blast
    show "\<exists>new. trace s2 = trace s @ new \<and> (\<forall>c \<in> set new. Q c)"
      using n1 n2 by (intro exI[of _ "n1 @ n2"]) auto
  next
    show "\<exists>new. trace s = trace s @ new \<and> (\<forall>c \<in> set new. Q c)"
      by (intro exI[of _ "[]"]) simp
  qed
  then show ?thesis .
qed

lemma accumulations_append [simp]:
  "accumulations (xs @ ys) = accumulations xs @ accumulations ys"
  by (simp add: accumulations_def)

lemma accumulations_par_loops:
  "accumulations (map (ParLoop c) pls) = (if c then [] else map pl_kernel pls)"
  by (induction pls) (auto simp: accumulations_def)

lemma kernels_loop_trace:
  "\<exists>pls. trace (snd (for_each (kernel_step env cl bcs) ks s))
           = trace s @ map (ParLoop (cl_collect_loops cl)) pls
         \<and> map pl_kernel pls = map k_kernel (take (length pls) ks)
         \<and> (fst (for_each (kernel_step env cl bcs) ks s) = None \<longrightarrow> length pls = length ks)"
proof (induction ks arbitrary: s)
  case Nil
  show ?case by (intro exI[of _ "[]"]) simp
next
  case (Cons k ks)
  from kernel_step_cases[of env cl bcs k s] show ?case
  proof
    assume "\<exists>e. kernel_step env cl bcs k s = (Some e, s)"
    then obtain e where "kernel_step env cl bcs k s = (Some e, s)" ..
    then have "for_each (kernel_step env cl bcs) (k # ks) s = (Some e, s)" by simp
    then show ?thesis by (intro exI[of _ "[]"]) simp
  next
    assume "\<exists>pl m sdata i j tsbc trbc.
         kernel_step env cl bcs k s = (None, issue_append (ParLoop (cl_collect_loops cl) pl) s)
         \<and> kernel_prelude cl bcs k = Inr (m, sdata, i, j, tsbc, trbc)
         \<and> classify (k_integral_type k) \<noteq> None
         \<and> pl_kernel pl = k_kernel k
         \<and> pl_itspace pl = iteration_space cl k m sdata"
    then obtain pl where st:
      "kernel_step env cl bcs k s = (None, issue_append (ParLoop (cl_collect_loops cl) pl) s)"
      and pk: "pl_kernel pl = k_kernel k" by auto
    define s1 where "s1 = issue_append (ParLoop (cl_collect_loops cl) pl) s"
    have ts1: "trace s1 = trace s @ [ParLoop (cl_collect_loops cl) pl]"
      by (simp add: s1_def issue_append_def)
    have step: "for_each (kernel_step env cl bcs) (k # ks) s
                  = for_each (kernel_step env cl bcs) ks s1"
      using st by (simp add: s1_def)
    from Cons.IH[of s1] obtain pls where
      t: "trace (snd (for_each (kernel_step env cl bcs) ks s1))
            = trace s1 @ map (ParLoop (cl_collect_loops cl)) pls"
      and m: "map pl_kernel pls = map k_kernel (take (length pls) ks)"
      and l: "fst (for_each (kernel_step env cl bcs) ks s1) = None \<longrightarrow> length pls = length ks"
      by auto
    show ?thesis unfolding step
      using pk t m l ts1 by (intro exI[of _ "pl # pls"]) simp
  qed
qed

lemma kernels_loop_accumulations:
  assumes "for_each (kernel_step env cl bcs) ks s = (None, s')"
  shows "accumulations (trace s')
           = accumulations (trace s) @ (if cl_collect_loops cl then [] else map k_kernel ks)"
proof -
  from kernels_loop_trace[of env cl bcs ks s] obtain pls where
    t: "trace s' = trace s @ map (ParLoop (cl_collect_loops cl)) pls"
    and m: "map pl_kernel pls = map k_kernel (take (length pls) ks)"
    and l: "length pls = length ks"
    using assms by auto
  show ?thesis using t m l by (simp add: accumulations_par_loops)
qed

lemma bc_block_cases:
  "snd (bc_block collect fs nodes ij s) = s
   \<or> (fst ij = snd ij
       \<and> (\<exists>idx. snd (bc_block collect fs nodes ij s)
             = issue_append (SetLocalDiagonalEntries collect (fst ij) (fst ij) nodes idx) s))"
  unfolding bc_block_def Let_def
  by (cases "fs_parent fs") auto

lemma mat_bc_trace:
  "\<exists>new. trace (snd (mat_bc cl bc s)) = trace s @ new \<and> (\<forall>c \<in> set new. closing_call c)"
proof (cases "1 < fs_len (bc_function_space bc)")
  case True
  then show ?thesis by (intro exI[of _ "[]"]) (simp add: mat_bc_def)
next
  case False
  have "\<exists>new. trace (snd (for_each (bc_block (cl_collect_loops cl) (bc_function_space bc) (bc_nodes bc))
                  (block_pairs (cl_block_shape cl)) s)) = trace s @ new
          \<and> (\<forall>c \<in> set new. closing_call c)"
  proof (rule for_each_extends)
    fix x s0 r s'
    assume b: "bc_block (cl_collect_loops cl) (bc_function_space bc) (bc_nodes bc) x s0 = (r, s')"
    from bc_block_cases[of "cl_collect_loops cl" "bc_function_space bc" "bc_nodes bc" x s0] b
    show "\<exists>new. trace s' = trace s0 @ new \<and> (\<forall>c \<in> set new. closing_call c)"
    proof (elim disjE conjE exE)
      assume "snd (bc_block (cl_collect_loops cl) (bc_function_space bc) (bc_nodes bc) x s0) = s0"
      then show ?thesis using b by (intro exI[of _ "[]"]) simp
    next
      fix idx
      assume "snd (bc_block (cl_collect_loops cl) (bc_function_space bc) (bc_nodes bc) x s0)
          = issue_append (SetLocalDiagonalEntries (cl_collect_loops cl) (fst x) (fst x) (bc_nodes bc) idx) s0"
      then show ?thesis using b
        by (intro exI[of _ "[SetLocalDiagonalEntries (cl_collect_loops cl) (fst x) (fst x) (bc_nodes bc) idx]"])
          (simp add: issue_append_def)
    qed
  qed
  then show ?thesis using False by (simp add: mat_bc_def)
qed

lemma apply_bcs_mat_trace:
  "\<exists>new. trace (snd (apply_bcs_mat cl bcs s)) = trace s @ new \<and> (\<forall>c \<in> set new. closing_call c)"
proof (cases bcs)
  case None
  then show ?thesis by (intro exI[of _ "[]"]) (simp add: apply_bcs_mat_def)
next
  case (Some bs)
  show ?thesis
  proof (cases "cl_is_mat cl")
    case False
    then show ?thesis using Some by (intro exI[of _ "[]"]) (simp add: apply_bcs_mat_def)
  next
    case True
    have "\<exists>new. trace (snd (for_each (mat_bc cl) bs s)) = trace s @ new
            \<and> (\<forall>c \<in> set new. closing_call c)"
    proof (rule for_each_extends)
      fix x s0 r s'
      assume "mat_bc cl x s0 = (r, s')"
      then show "\<exists>new. trace s' = trace s0 @ new \<and> (\<forall>c \<in> set new. closing_call c)"
        using mat_bc_trace[of cl x s0] by simp
    qed
    then show ?thesis using Some True by (simp add: apply_bcs_mat_def)
  qed
qed

lemma apply_bcs_vec_trace:
  "\<exists>new. trace (snd (apply_bcs_vec cl bcs s)) = trace s @ new \<and> (\<forall>c \<in> set new. closing_call c)"
proof (cases bcs)
  case None
  then show ?thesis by (intro exI[of _ "[]"]) (simp add: apply_bcs_vec_def)
next
  case (Some bs)
  have fe: "\<exists>new. trace (snd (for_each (\<lambda>bc s. (None, issue (BCApply bc) s)) bs s)) = trace s @ new
            \<and> (\<forall>c \<in> set new. closing_call c)"
  proof (rule for_each_extends)
    fix x :: dirichlet_bc and s0 r s'
    assume "(None, issue (BCApply x) s0) = (r, s')"
    then show "\<exists>new. trace s' = trace s0 @ new \<and> (\<forall>c \<in> set new. closing_call c)"
      by (intro exI[of _ "[BCApply x]"]) (auto simp: issue_def)
  qed
  show ?thesis
  proof (cases "cl_is_vec cl \<and> \<not> (0 < length bs \<and> cl_collect_loops cl)")
    case True
    then show ?thesis using Some fe by (simp add: apply_bcs_vec_def)
  next
    case False
    then have "snd (apply_bcs_vec cl bcs s) = s" using Some by (auto simp: apply_bcs_vec_def)
    then show ?thesis by (intro exI[of _ "[]"]) simp
  qed
qed

lemma thunk_trace:
  "\<exists>pls closing.
     trace (snd (thunk env cl bcs s))
       = trace (zero_step cl s) @ map (ParLoop (cl_collect_loops cl)) pls @ closing
     \<and> map pl_kernel pls = map k_kernel (take (length pls) (cl_kernels cl))
     \<and> (fst (thunk env cl bcs s) = None \<longrightarrow> length pls = length (cl_kernels cl))
     \<and> (\<forall>c \<in> set closing. closing_call c)"
proof -
  let ?z = "zero_step cl s"
  obtain r1 s1 where k: "for_each (kernel_step env cl bcs) (cl_kernels cl) ?z = (r1, s1)"
    by (cases "for_each (kernel_step env cl bcs) (cl_kernels cl) ?z")
  from kernels_loop_trace[of env cl bcs "cl_kernels cl" ?z] k obtain pls where
    t1: "trace s1 = trace ?z @ map (ParLoop (cl_collect_loops cl)) pls"
    and m: "map pl_kernel pls = map k_kernel (take (length pls) (cl_kernels cl))"
    and l: "r1 = None \<longrightarrow> length pls = length (cl_kernels cl)"
    by auto
  show ?thesis
  proof (cases r1)
    case (Some e)
    then have "thunk env cl bcs s = (Some e, s1)" using k by (simp add: thunk_def)
    then show ?thesis using t1 m by (intro exI[of _ pls] exI[of _ "[]"]) simp
  next
    case None
    obtain r2 s2 where b2: "apply_bcs_mat cl bcs s1 = (r2, s2)" by (cases "apply_bcs_mat cl bcs s1")
    from apply_bcs_mat_trace[of cl bcs s1] b2 obtain n2 where
      t2: "trace s2 = trace s1 @ n2" and q2: "\<forall>c \<in> set n2. closing_call c" by auto
    show ?thesis
    proof (cases r2)
      case (Some e)
      then have "thunk env cl bcs s = (Some e, s2)" using k None b2 by (simp add: thunk_def)
      then show ?thesis using t1 t2 q2 m
        by (intro exI[of _ pls] exI[of _ n2]) simp
    next
      case n2: None
      obtain r3 s3 where b3: "apply_bcs_vec cl bcs s2 = (r3, s3)"
        by (cases "apply_bcs_vec cl bcs s2")
      from apply_bcs_vec_trace[of cl bcs s2] b3 obtain n3 where
        t3: "trace s3 = trace s2 @ n3" and q3: "\<forall>c \<in> set n3. closing_call c" by auto
      show ?thesis
      proof (cases r3)
        case (Some e)
        then have "thunk env cl bcs s = (Some e, s3)" using k None b2 n2 b3
          by (simp add: thunk_def)
        then show ?thesis using t1 t2 t3 q2 q3 m
          by (intro exI[of _ pls] exI[of _ "n2 @ n3"]) auto
      next
        case n3: None
        have th: "thunk env cl bcs s
                    = (None, if cl_is_mat cl then issue_append TensorAssemble s3 else s3)"
          using k None b2 n2 b3 n3 by (simp add: thunk_def)
        show ?thesis using th t1 t2 t3 q2 q3 m l None
          by (intro exI[of _ pls]
                exI[of _ "n2 @ n3 @ (if cl_is_mat cl then [TensorAssemble] else [])"])
            (auto simp: issue_append_def)
      qed
    qed
  qed
qed

lemma rank_setup_zero:
  assumes "rank_setup a mt smt s0 = (Inr (Continue tgt zero), s1)"
  shows "zero = (a_tensor a \<noteq> None)"
proof (cases "length (f_arguments (a_f a)) = 2")
  case True
  then have sm: "setup_mat a mt smt (integral_types (a_f a)) s0 = (Inr (Continue tgt zero), s1)"
    using assms by (simp add: rank_setup_def)
  show ?thesis
  proof (cases "mt = ''matfree''")
    case True
    then show ?thesis using sm
      by (auto simp: setup_mat_def split: if_splits option.splits tensor.splits)
  next
    case False
    from True obtain test trial where args: "f_arguments (a_f a) = [test, trial]"
      by (cases "f_arguments (a_f a)"; cases "tl (f_arguments (a_f a))") auto
    obtain r s' where mt': "mat_target a (mt = ''nest'')
        (if mt = ''nest'' then smt = ''baij'' else mt = ''baij'') (integral_types (a_f a))
        (arg_function_space test) (arg_function_space trial) s0 = (r, s')"
      by (cases "mat_target a (mt = ''nest'')
        (if mt = ''nest'' then smt = ''baij'' else mt = ''baij'') (integral_types (a_f a))
        (arg_function_space test) (arg_function_space trial) s0")
    from sm False args mt' obtain M where r: "r = Inr (M, zero)"
      by (auto simp: setup_mat_def Let_def split: sum.splits if_splits)
    show ?thesis using mt' r
      by (auto simp: mat_target_def split: option.splits tensor.splits sum.splits if_splits)
  qed
next
  case False
  then show ?thesis using assms
    by (auto simp: rank_setup_def setup_vec_def setup_scalar_def
        split: if_splits list.splits option.splits tensor.splits)
qed

text \<open>
  C2 as stated fails: for a matrix that \<open>_assemble\<close> allocated itself, two runs of the
  stored \<open>thunk\<close> accumulate the kernel twice and never zero the tensor.
\<close>

theorem fresh_tensor_not_zeroed_counterexample:
  "fst (assemble_impl ex_env (ex_args ex_matrix_form None) [])
     = Inr (Tensor (Matrix ((new_matrix ex_space ex_space (Some []))
                       \<lparr> mat_assembly_callback := Some (Some ex_closure) \<rparr>)))
   \<and> a_tensor (ex_args ex_matrix_form None) = None
   \<and> TensorZero \<notin> set (trace (snd (thunk ex_env ex_closure (Some [])
        (snd (thunk ex_env ex_closure (Some [])
          (snd (assemble_impl ex_env (ex_args ex_matrix_form None) [])))))))
   \<and> accumulations (trace (snd (thunk ex_env ex_closure (Some [])
        (snd (thunk ex_env ex_closure (Some [])
          (snd (assemble_impl ex_env (ex_args ex_matrix_form None) []))))))) = [7, 7]"
  by code_simp

subsection \<open>Boundary conditions on a matrix\<close>

text \<open>
  C7.  When the accumulations of a matrix assembly are done and the boundary conditions
  before \<open>bc\<close> are applied, a boundary condition \<open>bc\<close> on a space of length greater
  than one (the full mixed space) makes \<open>thunk\<close> raise the \<open>RuntimeError\<close> "Cannot
  apply boundary conditions to full mixed space. Did you forget to index it?"; the state
  is the one reached before \<open>bc\<close>, so no diagonal entry is set for it.
\<close>

theorem full_mixed_space_bc_refused:
  assumes "cl_is_mat cl" and "1 < fs_len (bc_function_space bc)"
    and "for_each (kernel_step env cl (Some (pre @ bc # post))) (cl_kernels cl) (zero_step cl s)
           = (None, s0)"
    and "for_each (mat_bc cl) pre s0 = (None, s1)"
  shows "thunk env cl (Some (pre @ bc # post)) s
           = (Some (RuntimeError full_mixed_space_message), s1)"
proof -
  have "mat_bc cl bc s1 = (Some (RuntimeError full_mixed_space_message), s1)"
    using assms(2) by (simp add: mat_bc_def)
  then have "for_each (mat_bc cl) (pre @ bc # post) s0
               = (Some (RuntimeError full_mixed_space_message), s1)"
    using assms(4) by (simp add: for_each_append)
  then have "apply_bcs_mat cl (Some (pre @ bc # post)) s0
               = (Some (RuntimeError full_mixed_space_message), s1)"
    using assms(1) by (simp add: apply_bcs_mat_def)
  then show ?thesis using assms(3) by (simp add: thunk_def)
qed

theorem full_mixed_space_bc_refused_witness:
  "cl_is_mat ex_mixed_closure \<and> 1 < fs_len (bc_function_space (ex_bc ex_mixed_space))
   \<and> for_each (kernel_step ex_env ex_mixed_closure
          (Some ([ex_bc (ex_sub_space 0)] @ ex_bc ex_mixed_space # [])))
        (cl_kernels ex_mixed_closure) (zero_step ex_mixed_closure \<lparr> trace = [], loops = [] \<rparr>)
       = (None, \<lparr> trace = [TensorZero], loops = [] \<rparr>)
   \<and> for_each (mat_bc ex_mixed_closure) [ex_bc (ex_sub_space 0)] \<lparr> trace = [TensorZero], loops = [] \<rparr>
       = (None, \<lparr> trace = [TensorZero, SetLocalDiagonalEntries False 0 0 [4, 5] None],
                  loops = [Returned (SetLocalDiagonalEntries False 0 0 [4, 5] None)] \<rparr>)
   \<and> thunk ex_env ex_mixed_closure (Some ([ex_bc (ex_sub_space 0)] @ ex_bc ex_mixed_space # []))
        \<lparr> trace = [], loops = [] \<rparr>
       = (Some (RuntimeError full_mixed_space_message),
          \<lparr> trace = [TensorZero, SetLocalDiagonalEntries False 0 0 [4, 5] None],
            loops = [Returned (SetLocalDiagonalEntries False 0 0 [4, 5] None)] \<rparr>)"
proof -
  have h1: "cl_is_mat ex_mixed_closure" by (simp add: ex_mixed_closure_def)
  have h2: "1 < fs_len (bc_function_space (ex_bc ex_mixed_space))"
    by (simp add: ex_bc_def ex_mixed_space_def)
  have h3: "for_each (kernel_step ex_env ex_mixed_closure
          (Some ([ex_bc (ex_sub_space 0)] @ ex_bc ex_mixed_space # [])))
        (cl_kernels ex_mixed_closure) (zero_step ex_mixed_closure \<lparr> trace = [], loops = [] \<rparr>)
       = (None, \<lparr> trace = [TensorZero], loops = [] \<rparr>)"
    by (simp add: ex_mixed_closure_def zero_step_def issue_def)
  have h4: "for_each (mat_bc ex_mixed_closure) [ex_bc (ex_sub_space 0)]
        \<lparr> trace = [TensorZero], loops = [] \<rparr>
       = (None, \<lparr> trace = [TensorZero, SetLocalDiagonalEntries False 0 0 [4, 5] None],
                  loops = [Returned (SetLocalDiagonalEntries False 0 0 [4, 5] None)] \<rparr>)"
    by code_simp
  from full_mixed_space_bc_refused[OF h1 h2 h3 h4] h1 h2 h3 h4 show ?thesis by simp
qed

lemma bc_block_owning:
  assumes "owning_index fs = Inr (Some k)"
  shows "\<exists>new. trace (snd (bc_block collect fs nodes ij s)) = trace s @ new
           \<and> (\<forall>c \<in> set new. \<exists>idx. c = SetLocalDiagonalEntries collect k k nodes idx)"
proof (cases "fs_component fs")
  case None
  then have i: "fs_index fs = Some k" using assms by (simp add: owning_index_def)
  show ?thesis
  proof (cases "fst ij = snd ij \<and> fst ij = k")
    case True
    then have "snd (bc_block collect fs nodes ij s)
        = issue_append (SetLocalDiagonalEntries collect k k nodes None) s"
      using None i by (auto simp: bc_block_def Let_def)
    then show ?thesis
      by (intro exI[of _ "[SetLocalDiagonalEntries collect k k nodes None]"])
        (simp add: issue_append_def)
  next
    case False
    then have "snd (bc_block collect fs nodes ij s) = s"
      using None i by (auto simp: bc_block_def Let_def)
    then show ?thesis by (intro exI[of _ "[]"]) simp
  qed
next
  case (Some comp)
  then obtain p where p: "fs_parent fs = Some p" "fs_index p = Some k"
    using assms by (auto simp: owning_index_def split: option.splits)
  show ?thesis
  proof (cases "fst ij = snd ij \<and> fst ij = k")
    case True
    then have "snd (bc_block collect fs nodes ij s)
        = issue_append (SetLocalDiagonalEntries collect k k nodes (Some comp)) s"
      using Some p by (auto simp: bc_block_def Let_def)
    then show ?thesis
      by (intro exI[of _ "[SetLocalDiagonalEntries collect k k nodes (Some comp)]"])
        (simp add: issue_append_def)
  next
    case False
    then have "snd (bc_block collect fs nodes ij s) = s"
      using Some p by (auto simp: bc_block_def Let_def)
    then show ?thesis by (intro exI[of _ "[]"]) simp
  qed
qed

lemma mat_bc_owning:
  assumes "owning_index (bc_function_space bc) = Inr (Some k)"
  shows "\<exists>new. trace (snd (mat_bc cl bc s)) = trace s @ new
           \<and> (\<forall>c \<in> set new. \<exists>nodes idx.
                  c = SetLocalDiagonalEntries (cl_collect_loops cl) k k nodes idx)"
proof (cases "1 < fs_len (bc_function_space bc)")
  case True
  then show ?thesis by (intro exI[of _ "[]"]) (simp add: mat_bc_def)
next
  case False
  have "\<exists>new. trace (snd (for_each (bc_block (cl_collect_loops cl) (bc_function_space bc) (bc_nodes bc))
                  (block_pairs (cl_block_shape cl)) s)) = trace s @ new
          \<and> (\<forall>c \<in> set new. \<exists>nodes idx.
                  c = SetLocalDiagonalEntries (cl_collect_loops cl) k k nodes idx)"
  proof (rule for_each_extends)
    fix x s0 r s'
    assume b: "bc_block (cl_collect_loops cl) (bc_function_space bc) (bc_nodes bc) x s0 = (r, s')"
    from bc_block_owning[OF assms, of "cl_collect_loops cl" "bc_nodes bc" x s0] b
    show "\<exists>new. trace s' = trace s0 @ new
           \<and> (\<forall>c \<in> set new. \<exists>nodes idx.
                  c = SetLocalDiagonalEntries (cl_collect_loops cl) k k nodes idx)"
      by fastforce
  qed
  then show ?thesis using False by (simp add: mat_bc_def)
qed

text \<open>
  C3.  When every boundary condition applied belongs (directly, or through the parent
  of its component space) to the top-level index \<open>k\<close>, the boundary-condition step of
  \<open>thunk\<close> makes no call but \<open>set_local_diagonal_entries\<close> on \<open>tensor[k, k]\<close>: for
  every other block, off the diagonal or on it, the calls aimed at the block are the
  same after the step as before.
\<close>

theorem bc_writes_only_owning_block:
  assumes "\<forall>bc \<in> set bcs. owning_index (bc_function_space bc) = Inr (Some k)"
  shows "(\<exists>new. trace (snd (apply_bcs_mat cl (Some bcs) s)) = trace s @ new
            \<and> (\<forall>c \<in> set new. \<exists>nodes idx.
                   c = SetLocalDiagonalEntries (cl_collect_loops cl) k k nodes idx))
         \<and> (\<forall>b. b \<noteq> (k, k) \<longrightarrow>
               block_calls b (trace (snd (apply_bcs_mat cl (Some bcs) s)))
                 = block_calls b (trace s))"
proof -
  have ex: "\<exists>new. trace (snd (apply_bcs_mat cl (Some bcs) s)) = trace s @ new
            \<and> (\<forall>c \<in> set new. \<exists>nodes idx.
                   c = SetLocalDiagonalEntries (cl_collect_loops cl) k k nodes idx)"
  proof (cases "cl_is_mat cl")
    case False
    then show ?thesis by (intro exI[of _ "[]"]) (simp add: apply_bcs_mat_def)
  next
    case True
    have "\<exists>new. trace (snd (for_each (mat_bc cl) bcs s)) = trace s @ new
            \<and> (\<forall>c \<in> set new. \<exists>nodes idx.
                   c = SetLocalDiagonalEntries (cl_collect_loops cl) k k nodes idx)"
    proof (rule for_each_extends)
      fix x s0 r s'
      assume x: "x \<in> set bcs" and m: "mat_bc cl x s0 = (r, s')"
      from x assms have "owning_index (bc_function_space x) = Inr (Some k)" by simp
      from mat_bc_owning[OF this, of cl s0] m
      show "\<exists>new. trace s' = trace s0 @ new
            \<and> (\<forall>c \<in> set new. \<exists>nodes idx.
                   c = SetLocalDiagonalEntries (cl_collect_loops cl) k k nodes idx)"
        by simp
    qed
    then show ?thesis using True by (simp add: apply_bcs_mat_def)
  qed
  then obtain new where t: "trace (snd (apply_bcs_mat cl (Some bcs) s)) = trace s @ new"
    and q: "\<forall>c \<in> set new. \<exists>nodes idx.
              c = SetLocalDiagonalEntries (cl_collect_loops cl) k k nodes idx" by blast
  have "\<forall>b. b \<noteq> (k, k) \<longrightarrow> filter (writes_block b) new = []"
    using q by (auto simp: filter_empty_conv)
  then have "\<forall>b. b \<noteq> (k, k) \<longrightarrow>
               block_calls b (trace (snd (apply_bcs_mat cl (Some bcs) s)))
                 = block_calls b (trace s)"
    using t by (simp add: block_calls_def)
  then show ?thesis using ex by blast
qed

theorem bc_writes_only_owning_block_witness:
  "owning_index (bc_function_space (ex_bc (ex_sub_space 1))) = Inr (Some 1)
   \<and> trace (snd (apply_bcs_mat ex_mixed_closure (Some [ex_bc (ex_sub_space 1)])
               \<lparr> trace = [], loops = [] \<rparr>))
       = [SetLocalDiagonalEntries False 1 1 [4, 5] None]
   \<and> block_calls (0, 0) (trace (snd (apply_bcs_mat ex_mixed_closure
         (Some [ex_bc (ex_sub_space 1)]) \<lparr> trace = [], loops = [] \<rparr>)))
       = block_calls (0, 0) (trace \<lparr> trace = [], loops = [] \<rparr>)
   \<and> block_calls (0, 1) (trace (snd (apply_bcs_mat ex_mixed_closure
         (Some [ex_bc (ex_sub_space 1)]) \<lparr> trace = [], loops = [] \<rparr>)))
       = block_calls (0, 1) (trace \<lparr> trace = [], loops = [] \<rparr>)"
proof -
  have o: "owning_index (bc_function_space (ex_bc (ex_sub_space 1))) = Inr (Some 1)"
    by (simp add: ex_bc_def ex_sub_space_def owning_index_def)
  then have h: "\<forall>bc \<in> set [ex_bc (ex_sub_space 1)].
                  owning_index (bc_function_space bc) = Inr (Some 1)"
    by simp
  have e: "trace (snd (apply_bcs_mat ex_mixed_closure (Some [ex_bc (ex_sub_space 1)])
               \<lparr> trace = [], loops = [] \<rparr>))
       = [SetLocalDiagonalEntries False 1 1 [4, 5] None]"
    by code_simp
  have n: "(0::nat, 0::nat) \<noteq> (1, 1)" "(0::nat, 1::nat) \<noteq> (1, 1)" by simp_all
  from bc_writes_only_owning_block[OF h, of ex_mixed_closure "\<lparr> trace = [], loops = [] \<rparr>"]
  have "\<forall>b. b \<noteq> (1, 1) \<longrightarrow>
         block_calls b (trace (snd (apply_bcs_mat ex_mixed_closure (Some [ex_bc (ex_sub_space 1)])
               \<lparr> trace = [], loops = [] \<rparr>)))
           = block_calls b (trace \<lparr> trace = [], loops = [] \<rparr>)"
    by (rule conjunct2)
  then show ?thesis using o e n by blast
qed

subsection \<open>Accumulations\<close>

lemma no_accumulations:
  "\<forall>c \<in> set cs. issued_kernel c = [] \<Longrightarrow> accumulations cs = []"
  by (induction cs) (auto simp: accumulations_def)

lemma closing_no_kernel: "closing_call c \<Longrightarrow> issued_kernel c = []"
  by (cases c) auto

lemma zero_step_accumulations:
  "accumulations (trace (zero_step cl s)) = accumulations (trace s)"
  by (simp add: zero_step_def issue_def accumulations_def)

lemma thunk_accumulations:
  "\<exists>n \<le> length (cl_kernels cl).
     accumulations (trace (snd (thunk env cl bcs s)))
       = accumulations (trace s)
         @ (if cl_collect_loops cl then [] else map k_kernel (take n (cl_kernels cl)))
     \<and> (fst (thunk env cl bcs s) = None \<longrightarrow> n = length (cl_kernels cl))"
proof -
  from thunk_trace[of env cl bcs s] obtain pls closing where
    t: "trace (snd (thunk env cl bcs s))
       = trace (zero_step cl s) @ map (ParLoop (cl_collect_loops cl)) pls @ closing"
    and m: "map pl_kernel pls = map k_kernel (take (length pls) (cl_kernels cl))"
    and l: "fst (thunk env cl bcs s) = None \<longrightarrow> length pls = length (cl_kernels cl)"
    and q: "\<forall>c \<in> set closing. closing_call c" by (elim exE conjE)
  have c0: "accumulations closing = []"
    by (rule no_accumulations) (use q closing_no_kernel in blast)
  have len: "length pls \<le> length (cl_kernels cl)"
  proof -
    have "length (map pl_kernel pls) = length (map k_kernel (take (length pls) (cl_kernels cl)))"
      using m by simp
    then show ?thesis by simp
  qed
  have "accumulations (trace (snd (thunk env cl bcs s)))
       = accumulations (trace s)
         @ (if cl_collect_loops cl then [] else map k_kernel (take (length pls) (cl_kernels cl)))"
    using t m c0 by (simp add: zero_step_accumulations accumulations_par_loops)
  then show ?thesis using len l by (intro exI[of _ "length pls"]) simp
qed

lemma kernel_step_unknown:
  assumes "classify (k_integral_type k) = None"
  shows "\<exists>e. kernel_step env cl bcs k s = (Some e, s)
           \<and> (\<not> isl (kernel_prelude cl bcs k) \<longrightarrow>
                e = ValueError (''Unknown integral type '' @ sq (k_integral_type k)))"
proof (cases "kernel_prelude cl bcs k")
  case (Inl e)
  then show ?thesis by (simp add: kernel_step_def)
next
  case (Inr x)
  obtain m sdata i j tsbc trbc where x: "x = (m, sdata, i, j, tsbc, trbc)"
    using prod_cases6 by blast
  have nc: "k_integral_type k \<noteq> ''cell''" using assms by (auto simp: classify_def)
  show ?thesis using Inr x assms nc by (simp add: kernel_step_def)
qed

lemma thunk_unknown_kind:
  assumes "cl_kernels cl = pre @ k # post" and "classify (k_integral_type k) = None"
  shows "\<exists>e. fst (thunk env cl bcs s) = Some e
           \<and> snd (thunk env cl bcs s)
               = snd (for_each (kernel_step env cl bcs) pre (zero_step cl s))
           \<and> (\<exists>n \<le> length pre.
                 accumulations (trace (snd (thunk env cl bcs s)))
                   = accumulations (trace s)
                     @ (if cl_collect_loops cl then [] else map k_kernel (take n pre)))
           \<and> (fst (for_each (kernel_step env cl bcs) pre (zero_step cl s)) = None
                \<and> \<not> isl (kernel_prelude cl bcs k) \<longrightarrow>
                e = ValueError (''Unknown integral type '' @ sq (k_integral_type k)))"
proof -
  let ?z = "zero_step cl s"
  obtain r1 s1 where p: "for_each (kernel_step env cl bcs) pre ?z = (r1, s1)"
    by (cases "for_each (kernel_step env cl bcs) pre ?z")
  from kernels_loop_trace[of env cl bcs pre ?z] p obtain pls where
    t1: "trace s1 = trace ?z @ map (ParLoop (cl_collect_loops cl)) pls"
    and m: "map pl_kernel pls = map k_kernel (take (length pls) pre)"
    by auto
  have len: "length pls \<le> length pre"
  proof -
    have "length (map pl_kernel pls) = length (map k_kernel (take (length pls) pre))"
      using m by simp
    then show ?thesis by simp
  qed
  have acc: "accumulations (trace s1) = accumulations (trace s)
               @ (if cl_collect_loops cl then [] else map k_kernel (take (length pls) pre))"
    using t1 m by (simp add: zero_step_accumulations accumulations_par_loops)
  from kernel_step_unknown[OF assms(2), of env cl bcs s1] obtain e where
    ks: "kernel_step env cl bcs k s1 = (Some e, s1)"
    and nm: "\<not> isl (kernel_prelude cl bcs k) \<longrightarrow>
                e = ValueError (''Unknown integral type '' @ sq (k_integral_type k))"
    by blast
  show ?thesis
  proof (cases r1)
    case (Some e1)
    then have "for_each (kernel_step env cl bcs) (cl_kernels cl) ?z = (Some e1, s1)"
      using p assms(1) by (simp add: for_each_append)
    then have "thunk env cl bcs s = (Some e1, s1)" by (simp add: thunk_def)
    then show ?thesis using p Some acc len
      by (intro exI[of _ e1]) auto
  next
    case None
    then have "for_each (kernel_step env cl bcs) (cl_kernels cl) ?z = (Some e, s1)"
      using p assms(1) ks by (simp add: for_each_append)
    then have "thunk env cl bcs s = (Some e, s1)" by (simp add: thunk_def)
    then show ?thesis using p None acc len nm
      by (intro exI[of _ e]) auto
  qed
qed

text \<open>
  C4 as stated fails: for a form of rank 1 whose second kernel has an unknown integral
  type, \<open>_assemble\<close> raises the error only after it has issued the accumulation of the
  first kernel.
\<close>

theorem unknown_kind_after_accumulation_counterexample:
  "fst (assemble_impl ex_env (ex_args ex_bogus_form None) [])
     = Inl (ValueError (''Unknown integral type '' @ sq ''bogus''))
   \<and> accumulations (trace (snd (assemble_impl ex_env (ex_args ex_bogus_form None) []))) = [7]"
  by code_simp

subsection \<open>The intake and the setup\<close>

lemma intake_trace:
  "\<exists>new. trace (snd (intake env a s)) = trace s @ new \<and> (\<forall>c \<in> set new. intake_call c)"
proof (cases "resolve_types env a")
  case (Inl e)
  then show ?thesis by (intro exI[of _ "[]"]) (simp add: intake_def)
next
  case (Inr types)
  obtain r s1 where cm: "check_meshes (a_f a) s = (r, s1)" by (cases "check_meshes (a_f a) s")
  from check_meshes_trace[of "a_f a" s] cm obtain inits where
    t1: "trace s1 = trace s @ map MeshInit inits" by auto
  show ?thesis
  proof (cases r)
    case (Some e)
    then show ?thesis using Inr cm t1
      by (intro exI[of _ "map MeshInit inits"]) (auto simp: intake_def)
  next
    case None
    have "trace (snd (intake env a s))
            = trace s @ map MeshInit inits @ [Compile (f_is_slate (a_f a)) (a_inverse a)]"
      using Inr cm None t1 by (simp add: intake_def Let_def issue_def)
    then show ?thesis
      by (intro exI[of _ "map MeshInit inits @ [Compile (f_is_slate (a_f a)) (a_inverse a)]"]) auto
  qed
qed

lemma intake_ok:
  assumes "intake env a s = (Inr (mt, smt), s')"
  shows "mt = mat_type_of env a \<and> smt = sub_mat_type_of env a
         \<and> (a_inverse a \<longrightarrow> length (f_arguments (a_f a)) = 2)"
proof -
  from assms obtain types where r: "resolve_types env a = Inr types"
    by (cases "resolve_types env a") (auto simp: intake_def)
  then have ty: "types = (mat_type_of env a, sub_mat_type_of env a)"
    by (auto simp: resolve_types_def split: if_splits)
  obtain r1 s1 where cm: "check_meshes (a_f a) s = (r1, s1)" by (cases "check_meshes (a_f a) s")
  show ?thesis using assms r ty cm
    by (cases r1) (auto simp: intake_def Let_def split: if_splits)
qed

lemma intake_accumulations:
  "accumulations (trace (snd (intake env a s))) = accumulations (trace s)"
proof -
  from intake_trace[of env a s] obtain new where
    t: "trace (snd (intake env a s)) = trace s @ new" and q: "\<forall>c \<in> set new. intake_call c"
    by (elim exE conjE)
  have "\<forall>c \<in> set new. issued_kernel c = []"
  proof
    fix c assume "c \<in> set new"
    then have "intake_call c" using q by simp
    then show "issued_kernel c = []" by (cases c) auto
  qed
  then have "accumulations new = []" by (rule no_accumulations)
  then show ?thesis using t by simp
qed

lemma mat_target_trace:
  "\<exists>new. trace (snd (mat_target a nest baij its test_space trial_space s)) = trace s @ new
     \<and> (\<forall>c \<in> set new. setup_call c)"
proof (cases "a_tensor a")
  case None
  show ?thesis
  proof (cases "sparsity_domains its ([], [], [])")
    case (Inl e)
    then show ?thesis using None by (intro exI[of _ "[]"]) (simp add: mat_target_def)
  next
    case (Inr d)
    show ?thesis
    proof (cases "sparsity_format_error (fs_dof_dset test_space) (fs_dof_dset trial_space) baij")
      case True
      then show ?thesis using None Inr by (intro exI[of _ "[]"]) (simp add: mat_target_def)
    next
      case False
      then show ?thesis using None Inr
        by (intro exI[of _ "[NewSparsity (map_pairs d) nest baij, NewMatrix]"])
          (simp add: mat_target_def issue_def)
    qed
  qed
next
  case (Some t)
  show ?thesis
  proof (cases t)
    case (Matrix M)
    then show ?thesis using Some
      by (intro exI[of _ "[MatrixSetBcs (a_bcs a)]"]) (simp add: mat_target_def issue_def)
  next
    case (ImplicitMatrix b)
    then show ?thesis using Some by (intro exI[of _ "[]"]) (simp add: mat_target_def)
  next
    case (Function fs)
    then show ?thesis using Some by (intro exI[of _ "[]"]) (simp add: mat_target_def)
  qed
qed

lemma setup_mat_trace:
  "\<exists>new. trace (snd (setup_mat a mt smt its s)) = trace s @ new \<and> (\<forall>c \<in> set new. setup_call c)"
proof (cases "mt = ''matfree''")
  case True
  show ?thesis
  proof (cases "a_inverse a \<or> a_collect_loops a")
    case True
    then show ?thesis using \<open>mt = ''matfree''\<close>
      by (intro exI[of _ "[]"]) (auto simp: setup_mat_def)
  next
    case False
    show ?thesis
    proof (cases "a_tensor a")
      case None
      then show ?thesis using False \<open>mt = ''matfree''\<close>
        by (intro exI[of _ "[NewImplicitMatrix]"]) (simp add: setup_mat_def issue_def)
    next
      case (Some t)
      show ?thesis
      proof (cases t)
        case (ImplicitMatrix b)
        then show ?thesis using Some False \<open>mt = ''matfree''\<close>
          by (intro exI[of _ "[ImplicitAssemble]"]) (simp add: setup_mat_def issue_def)
      next
        case (Matrix M)
        then show ?thesis using Some False \<open>mt = ''matfree''\<close>
          by (intro exI[of _ "[]"]) (simp add: setup_mat_def)
      next
        case (Function fs)
        then show ?thesis using Some False \<open>mt = ''matfree''\<close>
          by (intro exI[of _ "[]"]) (simp add: setup_mat_def)
      qed
    qed
  qed
next
  case False
  show ?thesis
  proof (cases "\<exists>test trial. f_arguments (a_f a) = [test, trial]")
    case True
    then obtain test trial where args: "f_arguments (a_f a) = [test, trial]" by blast
    let ?mt = "mat_target a (mt = ''nest'')
        (if mt = ''nest'' then smt = ''baij'' else mt = ''baij'') its
        (arg_function_space test) (arg_function_space trial) s"
    from mat_target_trace obtain new where
      t: "trace (snd ?mt) = trace s @ new" and q: "\<forall>c \<in> set new. setup_call c" by blast
    have "snd (setup_mat a mt smt its s) = snd ?mt"
      using False args
      by (auto simp: setup_mat_def Let_def split: prod.splits sum.splits)
    then show ?thesis using t q by (intro exI[of _ new]) simp
  next
    case nargs: False
    then have "snd (setup_mat a mt smt its s) = s"
      using False by (auto simp: setup_mat_def Let_def split: list.splits)
    then show ?thesis by (intro exI[of _ "[]"]) simp
  qed
qed

lemma rank_setup_trace:
  "\<exists>new. trace (snd (rank_setup a mt smt s)) = trace s @ new \<and> (\<forall>c \<in> set new. setup_call c)"
proof (cases "length (f_arguments (a_f a)) = 2")
  case True
  then show ?thesis using setup_mat_trace by (simp add: rank_setup_def)
next
  case False
  show ?thesis
  proof (cases "length (f_arguments (a_f a)) = 1")
    case True
    then obtain test where args: "f_arguments (a_f a) = [test]"
      by (cases "f_arguments (a_f a)") auto
    have rs: "rank_setup a mt smt s = setup_vec a s" using True by (simp add: rank_setup_def)
    show ?thesis
    proof (cases "a_tensor a")
      case None
      then show ?thesis using rs args
        by (intro exI[of _ "[NewFunction]"]) (simp add: setup_vec_def issue_def)
    next
      case (Some t)
      then show ?thesis using rs args
        by (intro exI[of _ "[]"]) (cases t; simp add: setup_vec_def)
    qed
  next
    case f1: False
    have rs: "rank_setup a mt smt s = setup_scalar a s"
      using False f1 by (simp add: rank_setup_def)
    show ?thesis
    proof (cases "a_tensor a")
      case None
      then show ?thesis using rs
        by (intro exI[of _ "[NewGlobal]"]) (simp add: setup_scalar_def issue_def)
    next
      case (Some t)
      then show ?thesis using rs by (intro exI[of _ "[]"]) (simp add: setup_scalar_def)
    qed
  qed
qed

lemma rank_setup_accumulations:
  "accumulations (trace (snd (rank_setup a mt smt s))) = accumulations (trace s)"
proof -
  from rank_setup_trace[of a mt smt s] obtain new where
    t: "trace (snd (rank_setup a mt smt s)) = trace s @ new" and q: "\<forall>c \<in> set new. setup_call c"
    by (elim exE conjE)
  have "\<forall>c \<in> set new. issued_kernel c = []"
  proof
    fix c assume "c \<in> set new"
    then have "setup_call c" using q by simp
    then show "issued_kernel c = []" by (cases c) auto
  qed
  then have "accumulations new = []" by (rule no_accumulations)
  then show ?thesis using t by simp
qed

lemma assemble_impl_intake_fail:
  assumes "intake env a \<lparr> trace = tr, loops = [] \<rparr> = (Inl e, s)"
  shows "assemble_impl env a tr = (Inl e, s)"
  using assms by (simp add: assemble_impl_def)

lemma assemble_impl_intake_ok:
  assumes "intake env a \<lparr> trace = tr, loops = [] \<rparr> = (Inr (mt, smt), s)"
  shows "assemble_impl env a tr = assemble_rank env a mt smt s"
  using assms by (simp add: assemble_impl_def)

text \<open>
  C9 (as amended).  With \<open>inverse\<close> set, a form whose rank is not 2, or a request for
  a matrix-free matrix, makes \<open>_assemble\<close> fail; the calls made by then are those of
  the intake only, so nothing is allocated and nothing accumulated.
\<close>

theorem inverse_restrictions:
  assumes "a_inverse a"
    and "length (f_arguments (a_f a)) \<noteq> 2 \<or> mat_type_of env a = ''matfree''"
  shows "\<exists>e new. fst (assemble_impl env a tr) = Inl e
           \<and> trace (snd (assemble_impl env a tr)) = tr @ new
           \<and> (\<forall>c \<in> set new. intake_call c)"
proof -
  let ?s0 = "\<lparr> trace = tr, loops = [] \<rparr>"
  obtain r s where i: "intake env a ?s0 = (r, s)" by (cases "intake env a ?s0")
  from intake_trace[of env a ?s0] i obtain new where
    t: "trace s = tr @ new" and q: "\<forall>c \<in> set new. intake_call c" by auto
  show ?thesis
  proof (cases r)
    case (Inl e)
    then have "assemble_impl env a tr = (Inl e, s)"
      using i by (simp add: assemble_impl_intake_fail)
    then show ?thesis using t q by (intro exI[of _ e] exI[of _ new]) simp
  next
    case (Inr types)
    obtain mt smt where ty: "types = (mt, smt)" by (cases types)
    note i' = i[unfolded Inr ty]
    from intake_ok[OF i'] assms have mt: "mt = ''matfree''"
      and rk: "length (f_arguments (a_f a)) = 2" by auto
    have "setup_mat a mt smt (integral_types (a_f a)) s
            = (Inl (NotImplementedError ''Inverse not implemented with matfree''), s)"
      using mt assms(1) by (simp add: setup_mat_def)
    then have "assemble_rank env a mt smt s
            = (Inl (NotImplementedError ''Inverse not implemented with matfree''), s)"
      using rk by (simp add: assemble_rank_def rank_setup_def)
    then have "assemble_impl env a tr
            = (Inl (NotImplementedError ''Inverse not implemented with matfree''), s)"
      using assemble_impl_intake_ok[OF i'] by simp
    then show ?thesis using t q
      by (intro exI[of _ "NotImplementedError ''Inverse not implemented with matfree''"]
            exI[of _ new]) simp
  qed
qed

lemma classify_known:
  "classify t \<noteq> None \<longleftrightarrow>
     t \<in> set [''cell'', ''exterior_facet'', ''interior_facet'', ''exterior_facet_bottom'',
              ''exterior_facet_top'', ''exterior_facet_vert'', ''interior_facet_horiz'',
              ''interior_facet_vert'']"
  by (auto simp: classify_def)

lemma sparsity_domains_ok:
  "\<forall>t \<in> set ts. classify t \<noteq> None \<Longrightarrow> \<exists>d. sparsity_domains ts (c, e, i) = Inr d"
proof (induction ts arbitrary: c e i)
  case Nil
  then show ?case by simp
next
  case (Cons t ts)
  have k: "t \<in> set [''cell'', ''exterior_facet'', ''interior_facet'', ''exterior_facet_bottom'',
              ''exterior_facet_top'', ''exterior_facet_vert'', ''interior_facet_horiz'',
              ''interior_facet_vert'']"
    using Cons.prems classify_known[of t] by simp
  have rest: "\<And>c1 e1 i1. \<exists>d. sparsity_domains ts (c1, e1, i1) = Inr d"
    using Cons.IH Cons.prems by simp
  show ?case using k rest by auto
qed

text \<open>
  C6 (as amended).  For a form of rank 2 with no tensor supplied, a block-sparse request
  (\<open>baij\<close>, or \<open>nest\<close> with sub-type \<open>baij\<close>) and a \<open>GlobalDataSet\<close> among the blocks
  of the test or the trial space: once the intake has passed and every integral type is
  a recognised one, \<open>_assemble\<close> fails with the \<open>ValueError\<close> on R-space blocks, in the
  state the intake left, so neither a sparsity nor a matrix was created.
\<close>

theorem block_sparse_refused:
  assumes "intake env a \<lparr> trace = tr, loops = [] \<rparr> = (Inr (mt, smt), s)"
    and "f_arguments (a_f a) = [test, trial]"
    and "a_tensor a = None"
    and "mt = ''baij'' \<or> (mt = ''nest'' \<and> smt = ''baij'')"
    and "\<forall>t \<in> set (integral_types (a_f a)). classify t \<noteq> None"
    and "GlobalDataSet \<in> set (fs_dof_dset (arg_function_space test))
                         \<union> set (fs_dof_dset (arg_function_space trial))"
  shows "assemble_impl env a tr = (Inl (ValueError r_space_message), s)
         \<and> (\<exists>new. trace s = tr @ new \<and> (\<forall>c \<in> set new. intake_call c))"
proof -
  from intake_trace[of env a "\<lparr> trace = tr, loops = [] \<rparr>"] assms(1)
  have tr: "\<exists>new. trace s = tr @ new \<and> (\<forall>c \<in> set new. intake_call c)" by auto
  have nm: "mt \<noteq> ''matfree''" using assms(4) by auto
  have baij: "(if mt = ''nest'' then smt = ''baij'' else mt = ''baij'')" using assms(4) by auto
  from sparsity_domains_ok[OF assms(5), where c="[]" and e="[]" and i="[]"] obtain d where
    d: "sparsity_domains (integral_types (a_f a)) ([], [], []) = Inr d" by blast
  have sfe: "sparsity_format_error (fs_dof_dset (arg_function_space test))
               (fs_dof_dset (arg_function_space trial)) True"
    using assms(6) by (simp add: sparsity_format_error_def)
  have "mat_target a (mt = ''nest'') (if mt = ''nest'' then smt = ''baij'' else mt = ''baij'')
          (integral_types (a_f a)) (arg_function_space test) (arg_function_space trial) s
        = (Inl (ValueError r_space_message), s)"
    using assms(3) d sfe baij by (simp add: mat_target_def r_space_message_def)
  then have "setup_mat a mt smt (integral_types (a_f a)) s = (Inl (ValueError r_space_message), s)"
    using nm assms(2) by (simp add: setup_mat_def Let_def)
  then have "assemble_rank env a mt smt s = (Inl (ValueError r_space_message), s)"
    using assms(2) by (simp add: assemble_rank_def rank_setup_def)
  then show ?thesis using assemble_impl_intake_ok[OF assms(1)] tr by simp
qed

text \<open>
  C9 as stated fails: \<open>inverse\<close> together with \<open>collect_loops\<close> is accepted.
\<close>

theorem inverse_with_collect_loops_counterexample:
  "a_inverse ((ex_args ex_matrix_form None) \<lparr> a_inverse := True, a_collect_loops := True \<rparr>)
   \<and> a_collect_loops ((ex_args ex_matrix_form None) \<lparr> a_inverse := True, a_collect_loops := True \<rparr>)
   \<and> \<not> isl (fst (assemble_impl ex_env
        ((ex_args ex_matrix_form None) \<lparr> a_inverse := True, a_collect_loops := True \<rparr>) []))"
  by code_simp

theorem inverse_restrictions_witness:
  "a_inverse ((ex_args (ex_form 1 [] []) None) \<lparr> a_inverse := True \<rparr>)
   \<and> length (f_arguments (a_f ((ex_args (ex_form 1 [] []) None) \<lparr> a_inverse := True \<rparr>))) \<noteq> 2
   \<and> (\<exists>e new. fst (assemble_impl ex_env ((ex_args (ex_form 1 [] []) None) \<lparr> a_inverse := True \<rparr>) [])
                 = Inl e
          \<and> trace (snd (assemble_impl ex_env
                 ((ex_args (ex_form 1 [] []) None) \<lparr> a_inverse := True \<rparr>) [])) = [] @ new
          \<and> (\<forall>c \<in> set new. intake_call c))"
proof -
  let ?a = "(ex_args (ex_form 1 [] []) None) \<lparr> a_inverse := True \<rparr>"
  have h1: "a_inverse ?a" by (simp add: ex_args_def)
  have h2: "length (f_arguments (a_f ?a)) \<noteq> 2 \<or> mat_type_of ex_env ?a = ''matfree''"
    by (simp add: ex_args_def ex_form_def)
  have h2': "length (f_arguments (a_f ?a)) \<noteq> 2" by (simp add: ex_args_def ex_form_def)
  from inverse_restrictions[OF h1 h2, of "[]"] h1 h2' show ?thesis by blast
qed

text \<open>
  C6 as stated fails: with a supplied matrix no sparsity is built, and the block-sparse
  request on R-type spaces returns without an error.
\<close>

theorem block_sparse_supplied_tensor_counterexample:
  "a_mat_type (ex_nest_baij (ex_args ex_r_form (Some (Matrix (ex_supplied (1, 1)))))) = Some ''nest''
   \<and> a_sub_mat_type (ex_nest_baij (ex_args ex_r_form (Some (Matrix (ex_supplied (1, 1))))))
       = Some ''baij''
   \<and> GlobalDataSet \<in> set (fs_dof_dset ex_r_space)
   \<and> map arg_function_space (f_arguments ex_r_form) = [ex_r_space, ex_r_space]
   \<and> \<not> isl (fst (assemble_impl ex_env
        (ex_nest_baij (ex_args ex_r_form (Some (Matrix (ex_supplied (1, 1)))))) []))"
  by code_simp

theorem block_sparse_refused_witness:
  "intake ex_env (ex_nest_baij (ex_args ex_r_form None)) \<lparr> trace = [], loops = [] \<rparr>
     = (Inr (''nest'', ''baij''), \<lparr> trace = [MeshInit ''m'', Compile False False], loops = [] \<rparr>)
   \<and> f_arguments (a_f (ex_nest_baij (ex_args ex_r_form None)))
       = [\<lparr> arg_function_space = ex_r_space, arg_ufl_domain = Some ex_mesh \<rparr>,
          \<lparr> arg_function_space = ex_r_space, arg_ufl_domain = Some ex_mesh \<rparr>]
   \<and> a_tensor (ex_nest_baij (ex_args ex_r_form None)) = None
   \<and> integral_types (a_f (ex_nest_baij (ex_args ex_r_form None))) = [''cell'']
   \<and> classify ''cell'' \<noteq> None
   \<and> GlobalDataSet \<in> set (fs_dof_dset ex_r_space)
   \<and> assemble_impl ex_env (ex_nest_baij (ex_args ex_r_form None)) []
       = (Inl (ValueError r_space_message),
          \<lparr> trace = [MeshInit ''m'', Compile False False], loops = [] \<rparr>)"
proof -
  let ?a = "ex_nest_baij (ex_args ex_r_form None)"
  let ?arg = "\<lparr> arg_function_space = ex_r_space, arg_ufl_domain = Some ex_mesh \<rparr>"
  have h1: "intake ex_env ?a \<lparr> trace = [], loops = [] \<rparr>
     = (Inr (''nest'', ''baij''), \<lparr> trace = [MeshInit ''m'', Compile False False], loops = [] \<rparr>)"
    by code_simp
  have h2: "f_arguments (a_f ?a) = [?arg, ?arg]"
    by (simp add: ex_nest_baij_def ex_args_def ex_r_form_def numeral_2_eq_2)
  have h3: "a_tensor ?a = None" by (simp add: ex_nest_baij_def ex_args_def)
  have h4: "''nest'' = ''baij'' \<or> (''nest'' = ''nest'' \<and> ''baij'' = ''baij'')" by simp
  have h5: "\<forall>t \<in> set (integral_types (a_f ?a)). classify t \<noteq> None"
    by (simp add: ex_nest_baij_def ex_args_def ex_r_form_def ex_matrix_form_def ex_form_def
        integral_types_def ex_kernel_def classify_def)
  have g: "GlobalDataSet \<in> set (fs_dof_dset ex_r_space)" by (simp add: ex_r_space_def)
  have h6: "GlobalDataSet \<in> set (fs_dof_dset (arg_function_space ?arg))
                         \<union> set (fs_dof_dset (arg_function_space ?arg))"
    using g by simp
  have h5a: "integral_types (a_f ?a) = [''cell'']"
    by (simp add: ex_nest_baij_def ex_args_def ex_r_form_def ex_matrix_form_def ex_form_def
        integral_types_def ex_kernel_def)
  have h5b: "classify ''cell'' \<noteq> None" by (simp add: classify_def)
  from block_sparse_refused[OF h1 h2 h3 h4 h5 h6] h1 h2 h3 h5a h5b g show ?thesis by simp
qed

text \<open>
  C8 as stated fails: a supplied matrix of block shape (3, 2) is accepted for a form whose
  two spaces have one block each.
\<close>

theorem supplied_matrix_shape_unchecked_counterexample:
  "(fs_len ex_space, fs_len ex_space) \<noteq> mat_block_shape (ex_supplied (3, 2))
   \<and> map arg_function_space (f_arguments ex_matrix_form) = [ex_space, ex_space]
   \<and> \<not> isl (fst (assemble_impl ex_env
        (ex_args ex_matrix_form (Some (Matrix (ex_supplied (3, 2))))) []))"
  by code_simp

subsection \<open>What \<open>assemble\<close> has done when it returns\<close>

lemma setup_mat_result:
  assumes "setup_mat a mt smt its s = (Inr r, s')"
  shows "(\<forall>v M. r = Return v \<and> v = Tensor (Matrix M) \<longrightarrow> a_allocate_only a)
         \<and> (\<forall>tgt zero. r = Continue tgt zero \<longrightarrow> (\<exists>M. tgt = TargetMatrix M))"
proof (cases "mt = ''matfree''")
  case True
  then show ?thesis using assms
    by (auto simp: setup_mat_def split: if_splits option.splits tensor.splits)
next
  case False
  show ?thesis
  proof (cases "\<exists>test trial. f_arguments (a_f a) = [test, trial]")
    case True
    then obtain test trial where args: "f_arguments (a_f a) = [test, trial]" by blast
    obtain r1 s1 where mt: "mat_target a (mt = ''nest'')
        (if mt = ''nest'' then smt = ''baij'' else mt = ''baij'') its
        (arg_function_space test) (arg_function_space trial) s = (r1, s1)"
      by (cases "mat_target a (mt = ''nest'')
        (if mt = ''nest'' then smt = ''baij'' else mt = ''baij'') its
        (arg_function_space test) (arg_function_space trial) s")
    show ?thesis using assms False args mt
      by (cases r1) (auto simp: setup_mat_def Let_def split: if_splits)
  next
    case nargs: False
    then have "isl (fst (setup_mat a mt smt its s))"
      using False by (auto simp: setup_mat_def Let_def split: list.splits)
    then show ?thesis using assms by simp
  qed
qed

lemma rank_setup_result:
  assumes "rank_setup a mt smt s = (Inr r, s')"
  shows "(\<forall>v. r = Return v \<longrightarrow> length (f_arguments (a_f a)) = 2
                 \<and> (\<forall>M. v = Tensor (Matrix M) \<longrightarrow> a_allocate_only a))
         \<and> (\<forall>tgt zero. r = Continue tgt zero \<and> length (f_arguments (a_f a)) = 2
                \<longrightarrow> (\<exists>M. tgt = TargetMatrix M))"
proof (cases "length (f_arguments (a_f a)) = 2")
  case True
  then have "setup_mat a mt smt (integral_types (a_f a)) s = (Inr r, s')"
    using assms by (simp add: rank_setup_def)
  from setup_mat_result[OF this] True show ?thesis by blast
next
  case False
  have "\<forall>v. r \<noteq> Return v"
    using assms False
    by (auto simp: rank_setup_def setup_vec_def setup_scalar_def
        split: if_splits list.splits option.splits tensor.splits)
  then show ?thesis using False by simp
qed

lemma assemble_impl_accumulations:
  assumes "assemble_impl env a tr = (Inr v, s)" and "\<not> a_collect_loops a"
  shows "(length (f_arguments (a_f a)) \<noteq> 2 \<longrightarrow>
            accumulations (trace s) = accumulations tr @ map k_kernel (f_kernels (a_f a)))
         \<and> (length (f_arguments (a_f a)) = 2 \<longrightarrow> accumulations (trace s) = accumulations tr)
         \<and> (\<forall>M. length (f_arguments (a_f a)) = 2 \<and> v = Tensor (Matrix M) \<and> \<not> a_allocate_only a
               \<longrightarrow> (\<exists>cl. mat_assembly_callback M = Some (Some cl)
                         \<and> cl_kernels cl = f_kernels (a_f a)))"
proof -
  let ?s0 = "\<lparr> trace = tr, loops = [] \<rparr>"
  obtain r1 s1 where i: "intake env a ?s0 = (r1, s1)" by (cases "intake env a ?s0")
  have "\<not> isl r1" using assms(1) i by (cases r1) (auto simp: assemble_impl_def)
  then obtain mt smt where r1: "r1 = Inr (mt, smt)" by (cases r1) auto
  note i' = i[unfolded r1]
  have a1: "accumulations (trace s1) = accumulations tr"
    using intake_accumulations[of env a ?s0] i by simp
  have ar: "assemble_rank env a mt smt s1 = (Inr v, s)"
    using assemble_impl_intake_ok[OF i'] assms(1) by simp
  obtain r2 s2 where rs: "rank_setup a mt smt s1 = (r2, s2)" by (cases "rank_setup a mt smt s1")
  have a2: "accumulations (trace s2) = accumulations tr"
    using rank_setup_accumulations[of a mt smt s1] rs a1 by simp
  have "\<not> isl r2" using ar rs by (cases r2) (auto simp: assemble_rank_def)
  then obtain r where r2: "r2 = Inr r" by (cases r2) auto
  note rs' = rs[unfolded r2]
  show ?thesis
  proof (cases r)
    case (Return v')
    then have vs: "v' = v" "s2 = s" using ar rs' by (auto simp: assemble_rank_def)
    from rank_setup_result[OF rs'] Return vs
    have "length (f_arguments (a_f a)) = 2"
      and "\<forall>M. v = Tensor (Matrix M) \<longrightarrow> a_allocate_only a" by auto
    then show ?thesis using a2 vs by auto
  next
    case (Continue tgt zero)
    obtain ids where ids: "all_integer_subdomain_ids (f_kernels (a_f a)) = Inr ids"
      using ar rs' Continue
      by (cases "all_integer_subdomain_ids (f_kernels (a_f a))") (auto simp: assemble_rank_def)
    let ?cl = "make_closure a tgt zero ids"
    have fin: "finish env ?cl tgt (a_bcs a) s2 = (Inr v, s)"
      using ar rs' Continue ids by (simp add: assemble_rank_def)
    have cl: "cl_collect_loops ?cl = False" "cl_kernels ?cl = f_kernels (a_f a)"
      "cl_is_mat ?cl = (length (f_arguments (a_f a)) = 2)"
      using assms(2) by (simp_all add: make_closure_def)
    show ?thesis
    proof (cases "length (f_arguments (a_f a)) = 2")
      case True
      from rank_setup_result[OF rs'] Continue True obtain M' where tgt: "tgt = TargetMatrix M'"
        by blast
      have "v = Tensor (Matrix (M'\<lparr> mat_assembly_callback := Some (Some ?cl) \<rparr>))" "s = s2"
        using fin cl True tgt by (auto simp: finish_def)
      then show ?thesis using a2 True cl(2) by auto
    next
      case False
      obtain r3 s3 where th: "thunk env ?cl (a_bcs a) s2 = (r3, s3)"
        by (cases "thunk env ?cl (a_bcs a) s2")
      have ok: "r3 = None" "s3 = s"
        using fin cl False th by (cases r3; auto simp: finish_def)+
      from thunk_accumulations[of ?cl env "a_bcs a" s2] th ok cl
      have "accumulations (trace s) = accumulations (trace s2) @ map k_kernel (f_kernels (a_f a))"
        by auto
      then show ?thesis using a2 False by simp
    qed
  qed
qed

text \<open>
  C1 as stated fails: for a form of rank 2 \<open>assemble\<close> returns a matrix and has not
  accumulated the kernel of the form.
\<close>

theorem assemble_matrix_deferred_counterexample:
  "\<not> isl (fst (assemble ex_env (Form ex_matrix_form) None None False None None ex_kwargs []))
   \<and> map k_kernel (f_kernels ex_matrix_form) = [7]
   \<and> accumulations (trace (snd (assemble ex_env (Form ex_matrix_form) None None False None None
        ex_kwargs []))) = []"
  by code_simp

subsection \<open>Iteration sets\<close>

lemma map_filter_length: "length (List.map_filter f xs) \<le> length xs"
  by (induction xs) (auto split: option.splits)

lemma all_tags:
  "length (List.map_filter tag_value v) = length v \<Longrightarrow> map Tag (List.map_filter tag_value v) = v"
proof (induction v)
  case Nil
  then show ?case by simp
next
  case (Cons x xs)
  show ?case
  proof (cases x)
    case (Tag n)
    then show ?thesis using Cons by simp
  next
    case Otherwise
    then have "length (List.map_filter tag_value xs) = Suc (length xs)" using Cons.prems by simp
    then show ?thesis using map_filter_length[of tag_value xs] by simp
  next
    case Everywhere
    then have "length (List.map_filter tag_value xs) = Suc (length xs)" using Cons.prems by simp
    then show ?thesis using map_filter_length[of tag_value xs] by simp
  qed
qed

lemma py_sorted_set:
  assumes "py_sorted v = Inr v'"
  shows "set v' = set v"
proof (cases "List.map_filter tag_value v = []")
  case True
  then show ?thesis using assms by (simp add: py_sorted_def)
next
  case False
  then have l: "length (List.map_filter tag_value v) = length v"
    and v': "v' = map Tag (sort (List.map_filter tag_value v))"
    using assms by (auto simp: py_sorted_def Let_def split: if_splits)
  have "set v' = Tag ` set (List.map_filter tag_value v)" using v' by simp
  also have "\<dots> = set (map Tag (List.map_filter tag_value v))" by simp
  also have "\<dots> = set v" using all_tags[OF l] by simp
  finally show ?thesis .
qed

lemma sort_values_declared:
  "sort_values kvs = Inr r \<Longrightarrow> set (declared_ids r t) = set (declared_ids kvs t)"
proof (induction kvs arbitrary: r)
  case Nil
  then show ?case by simp
next
  case (Cons kv kvs)
  obtain t0 v0 where kv: "kv = (t0, v0)" by (cases kv)
  from Cons.prems kv obtain v0' rest where
    p: "py_sorted v0 = Inr v0'" and sv: "sort_values kvs = Inr rest" and r: "r = (t0, v0') # rest"
    by (auto split: sum.splits)
  have ih: "set (declared_ids rest t) = set (declared_ids kvs t)" using Cons.IH[OF sv] .
  show ?case
  proof (cases "t = t0")
    case True
    then show ?thesis using r kv py_sorted_set[OF p] by (simp add: declared_ids_def)
  next
    case False
    then show ?thesis using r kv ih by (simp add: declared_ids_def)
  qed
qed

lemma declared_ids_keys:
  "declared_ids (map (\<lambda>t. (t, g t)) keys) t = (if t \<in> set keys then g t else [])"
  by (induction keys) (auto simp: declared_ids_def)

lemma all_integer_subdomain_ids_tags:
  assumes "all_integer_subdomain_ids kernels = Inr ids"
  shows "Tag n \<in> set (declared_ids ids t)
           \<longleftrightarrow> (\<exists>k \<in> set kernels. k_integral_type k = t \<and> k_subdomain_id k = Tag n)"
proof -
  let ?declared = "filter (\<lambda>k. k_subdomain_id k \<noteq> Otherwise) kernels"
  let ?keys = "rev (remdups (rev (map k_integral_type ?declared)))"
  let ?g = "\<lambda>t. map k_subdomain_id (filter (\<lambda>k. k_integral_type k = t) ?declared)"
  have sv: "sort_values (map (\<lambda>t. (t, ?g t)) ?keys) = Inr ids"
    using assms by (simp add: all_integer_subdomain_ids_def Let_def)
  have "set (declared_ids ids t) = set (declared_ids (map (\<lambda>t. (t, ?g t)) ?keys) t)"
    by (rule sort_values_declared[OF sv])
  also have "\<dots> = set (if t \<in> set ?keys then ?g t else [])"
    by (simp only: declared_ids_keys)
  also have "\<dots> = set (?g t)" by auto
  finally have eq: "set (declared_ids ids t) = set (?g t)" .
  show ?thesis
  proof
    assume "Tag n \<in> set (declared_ids ids t)"
    then have "Tag n \<in> set (?g t)" using eq by simp
    then show "\<exists>k \<in> set kernels. k_integral_type k = t \<and> k_subdomain_id k = Tag n"
      by auto
  next
    assume "\<exists>k \<in> set kernels. k_integral_type k = t \<and> k_subdomain_id k = Tag n"
    then obtain k where k: "k \<in> set kernels" "k_integral_type k = t" "k_subdomain_id k = Tag n"
      by blast
    then have "k \<in> set (filter (\<lambda>k. k_integral_type k = t) ?declared)" by simp
    then have "k_subdomain_id k
        \<in> k_subdomain_id ` set (filter (\<lambda>k. k_integral_type k = t) ?declared)"
      by (rule imageI)
    then have "k_subdomain_id k \<in> set (?g t)" by simp
    then show "Tag n \<in> set (declared_ids ids t)" using eq k(3) by simp
  qed
qed

lemma measure_set_otherwise:
  assumes "all_integer_subdomain_ids kernels = Inr ids"
  shows "measure_set m t Otherwise ids
           = map fst (filter (\<lambda>e. \<forall>k \<in> set kernels.
                                 k_integral_type k = t \<longrightarrow> k_subdomain_id k \<noteq> Tag (snd e))
                        (kind_entities m t))"
proof -
  have eq: "(\<lambda>e. Tag (snd e) \<notin> set (declared_ids ids t))
          = (\<lambda>e. \<forall>k \<in> set kernels. k_integral_type k = t \<longrightarrow> k_subdomain_id k \<noteq> Tag (snd e))"
  proof (rule ext)
    fix e :: "'a \<times> int"
    show "(Tag (snd e) \<notin> set (declared_ids ids t))
          = (\<forall>k \<in> set kernels. k_integral_type k = t \<longrightarrow> k_subdomain_id k \<noteq> Tag (snd e))"
      using all_integer_subdomain_ids_tags[OF assms, of "snd e" t] by blast
  qed
  show ?thesis by (simp only: measure_set_def subdomain_id.case eq)
qed

text \<open>
  C5 (as amended).  Let \<open>all_integer_subdomain_ids\<close> be computed from the kernels of the
  closure, and let the step for kernel \<open>k\<close> succeed.  Then one parallel loop is issued.
  For a cell integral whose measure carries subdomain data that is true in Python, its
  iteration set is that subdomain data.  Otherwise, for the tag "otherwise" it consists
  of the entities whose tag no kernel of the same integral type declares, and for an
  integer tag of the entities that carry the tag.
\<close>

theorem iteration_set:
  assumes "all_integer_subdomain_ids (cl_kernels cl) = Inr (cl_ids cl)"
    and "kernel_step env cl bcs k s = (None, s')"
    and "kernel_prelude cl bcs k = Inr (m, sdata, i, j, tsbc, trbc)"
  shows "\<exists>pl. trace s' = trace s @ [ParLoop (cl_collect_loops cl) pl]
           \<and> (\<forall>d. k_integral_type k = ''cell'' \<and> sdata = Some d \<and> sd_truthy d
                  \<longrightarrow> pl_itspace pl = sd_entities d)
           \<and> (\<not> (k_integral_type k = ''cell'' \<and> (\<exists>d. sdata = Some d \<and> sd_truthy d)) \<longrightarrow>
                (k_subdomain_id k = Otherwise \<longrightarrow>
                   pl_itspace pl
                     = map fst (filter (\<lambda>e. \<forall>k' \<in> set (cl_kernels cl).
                                    k_integral_type k' = k_integral_type k
                                      \<longrightarrow> k_subdomain_id k' \<noteq> Tag (snd e))
                                  (kind_entities m (k_integral_type k))))
                \<and> (\<forall>n. k_subdomain_id k = Tag n \<longrightarrow>
                      pl_itspace pl
                        = map fst (filter (\<lambda>e. snd e = n) (kind_entities m (k_integral_type k)))))"
proof -
  from kernel_step_cases[of env cl bcs k s] assms(2,3) obtain pl where
    st: "s' = issue_append (ParLoop (cl_collect_loops cl) pl) s"
    and it: "pl_itspace pl = iteration_space cl k m sdata"
    by auto
  have t: "trace s' = trace s @ [ParLoop (cl_collect_loops cl) pl]"
    using st by (simp add: issue_append_def)
  have a: "\<forall>d. k_integral_type k = ''cell'' \<and> sdata = Some d \<and> sd_truthy d
             \<longrightarrow> pl_itspace pl = sd_entities d"
    using it by (simp add: iteration_space_def)
  have b: "\<not> (k_integral_type k = ''cell'' \<and> (\<exists>d. sdata = Some d \<and> sd_truthy d)) \<Longrightarrow>
             pl_itspace pl = measure_set m (k_integral_type k) (k_subdomain_id k) (cl_ids cl)"
    using it by (auto simp: iteration_space_def Let_def split: option.splits)
  have o: "k_subdomain_id k = Otherwise \<Longrightarrow>
             measure_set m (k_integral_type k) (k_subdomain_id k) (cl_ids cl)
               = map fst (filter (\<lambda>e. \<forall>k' \<in> set (cl_kernels cl).
                                    k_integral_type k' = k_integral_type k
                                      \<longrightarrow> k_subdomain_id k' \<noteq> Tag (snd e))
                                  (kind_entities m (k_integral_type k)))"
    using measure_set_otherwise[OF assms(1)] by simp
  have g: "\<And>n. k_subdomain_id k = Tag n \<Longrightarrow>
             measure_set m (k_integral_type k) (k_subdomain_id k) (cl_ids cl)
               = map fst (filter (\<lambda>e. snd e = n) (kind_entities m (k_integral_type k)))"
    by (simp add: measure_set_def)
  show ?thesis using t a b o g by (intro exI[of _ pl]) simp
qed

text \<open>
  C5 as stated fails: a cell kernel tagged "otherwise" whose measure carries subdomain
  data iterates over the subdomain data, not over the entities with undeclared tags.
\<close>

theorem subdomain_data_overrides_counterexample:
  "map k_subdomain_id (f_kernels ex_sdata_form) = [Otherwise]
   \<and> all_integer_subdomain_ids (f_kernels ex_sdata_form) = Inr []
   \<and> measure_set ex_mesh ''cell'' Otherwise [] = [0, 1, 2]
   \<and> iteration_sets (trace (snd (assemble_impl ex_env (ex_args ex_sdata_form None) [])))
       = [[42]]"
  by code_simp

theorem iteration_set_witness:
  "all_integer_subdomain_ids (cl_kernels ex_tagged_closure) = Inr (cl_ids ex_tagged_closure)
   \<and> kernel_prelude ex_tagged_closure (Some []) (ex_kernel [0] 7 ''cell'' Otherwise)
       = Inr (ex_mesh, None, 0, 0, None, None)
   \<and> fst (kernel_step ex_env ex_tagged_closure (Some []) (ex_kernel [0] 7 ''cell'' Otherwise)
            \<lparr> trace = [], loops = [] \<rparr>) = None
   \<and> (\<exists>pl. trace (snd (kernel_step ex_env ex_tagged_closure (Some [])
                 (ex_kernel [0] 7 ''cell'' Otherwise) \<lparr> trace = [], loops = [] \<rparr>))
              = [] @ [ParLoop False pl]
          \<and> pl_itspace pl = [0, 2])"
proof -
  let ?k = "ex_kernel [0] 7 ''cell'' Otherwise"
  let ?s0 = "\<lparr> trace = [], loops = [] \<rparr>"
  have h1: "all_integer_subdomain_ids (cl_kernels ex_tagged_closure)
              = Inr (cl_ids ex_tagged_closure)"
    by code_simp
  have h3: "kernel_prelude ex_tagged_closure (Some []) ?k = Inr (ex_mesh, None, 0, 0, None, None)"
    by code_simp
  have h2': "fst (kernel_step ex_env ex_tagged_closure (Some []) ?k ?s0) = None"
    by code_simp
  then have h2: "kernel_step ex_env ex_tagged_closure (Some []) ?k ?s0
              = (None, snd (kernel_step ex_env ex_tagged_closure (Some []) ?k ?s0))"
    by (simp add: prod_eq_iff)
  have c: "\<not> cl_collect_loops ex_tagged_closure"
    by (simp add: ex_tagged_closure_def make_closure_def ex_args_def)
  have o: "k_subdomain_id ?k = Otherwise" "k_integral_type ?k = ''cell''"
    by (simp_all add: ex_kernel_def)
  have e: "map fst (filter (\<lambda>e. \<forall>k' \<in> set (cl_kernels ex_tagged_closure).
                                    k_integral_type k' = ''cell''
                                      \<longrightarrow> k_subdomain_id k' \<noteq> Tag (snd e))
                                  (kind_entities ex_mesh ''cell'')) = [0, 2]"
    by (simp add: ex_tagged_closure_def make_closure_def ex_args_def ex_tagged_form_def
        ex_form_def ex_kernel_def kind_entities_def ex_mesh_def)
  from iteration_set[OF h1 h2 h3] obtain pl where
    t: "trace (snd (kernel_step ex_env ex_tagged_closure (Some []) ?k ?s0))
          = trace ?s0 @ [ParLoop (cl_collect_loops ex_tagged_closure) pl]"
    and i: "pl_itspace pl = [0, 2]"
    using o e by auto
  show ?thesis using h1 h3 h2' t i c by auto
qed

subsection \<open>The closure that \<open>_assemble\<close> builds\<close>

lemma for_each_loops:
  assumes "\<And>x s r s'. x \<in> set xs \<Longrightarrow> body x s = (r, s') \<Longrightarrow>
             \<exists>new. loops s' = loops s @ map Returned new"
  shows "\<exists>new. loops (snd (for_each body xs s)) = loops s @ map Returned new"
proof -
  have "(\<lambda>s'. \<exists>new. loops s' = loops s @ map Returned new) (snd (for_each body xs s))"
  proof (rule for_each_invariant)
    fix x s1 r s2
    assume x: "x \<in> set xs" and p: "\<exists>new. loops s1 = loops s @ map Returned new"
      and b: "body x s1 = (r, s2)"
    from p obtain n1 where n1: "loops s1 = loops s @ map Returned n1" by blast
    from assms[OF x b] obtain n2 where n2: "loops s2 = loops s1 @ map Returned n2" by blast
    show "\<exists>new. loops s2 = loops s @ map Returned new"
      using n1 n2 by (intro exI[of _ "n1 @ n2"]) simp
  next
    show "\<exists>new. loops s = loops s @ map Returned new"
      by (intro exI[of _ "[]"]) simp
  qed
  then show ?thesis .
qed

lemma kernels_loop_loops:
  "\<exists>new. loops (snd (for_each (kernel_step env cl bcs) ks s)) = loops s @ map Returned new"
proof (rule for_each_loops)
  fix k s0 r s'
  assume st: "kernel_step env cl bcs k s0 = (r, s')"
  from kernel_step_cases[of env cl bcs k s0] show "\<exists>new. loops s' = loops s0 @ map Returned new"
  proof
    assume "\<exists>e. kernel_step env cl bcs k s0 = (Some e, s0)"
    then have "s' = s0" using st by auto
    then show ?thesis by (intro exI[of _ "[]"]) simp
  next
    assume "\<exists>pl m sdata i j tsbc trbc.
         kernel_step env cl bcs k s0 = (None, issue_append (ParLoop (cl_collect_loops cl) pl) s0)
         \<and> kernel_prelude cl bcs k = Inr (m, sdata, i, j, tsbc, trbc)
         \<and> classify (k_integral_type k) \<noteq> None
         \<and> pl_kernel pl = k_kernel k
         \<and> pl_itspace pl = iteration_space cl k m sdata"
    then obtain pl where
      "kernel_step env cl bcs k s0 = (None, issue_append (ParLoop (cl_collect_loops cl) pl) s0)"
      by auto
    then have "s' = issue_append (ParLoop (cl_collect_loops cl) pl) s0" using st by simp
    then show ?thesis
      by (intro exI[of _ "[ParLoop (cl_collect_loops cl) pl]"]) (simp add: issue_append_def)
  qed
qed

lemma mat_bc_loops:
  "\<exists>new. loops (snd (mat_bc cl bc s)) = loops s @ map Returned new"
proof (cases "1 < fs_len (bc_function_space bc)")
  case True
  then show ?thesis by (intro exI[of _ "[]"]) (simp add: mat_bc_def)
next
  case False
  have "\<exists>new. loops (snd (for_each (bc_block (cl_collect_loops cl) (bc_function_space bc) (bc_nodes bc))
                  (block_pairs (cl_block_shape cl)) s)) = loops s @ map Returned new"
  proof (rule for_each_loops)
    fix x s0 r s'
    assume b: "bc_block (cl_collect_loops cl) (bc_function_space bc) (bc_nodes bc) x s0 = (r, s')"
    from bc_block_cases[of "cl_collect_loops cl" "bc_function_space bc" "bc_nodes bc" x s0] b
    show "\<exists>new. loops s' = loops s0 @ map Returned new"
    proof (elim disjE conjE exE)
      assume "snd (bc_block (cl_collect_loops cl) (bc_function_space bc) (bc_nodes bc) x s0) = s0"
      then show ?thesis using b by (intro exI[of _ "[]"]) simp
    next
      fix idx
      assume "snd (bc_block (cl_collect_loops cl) (bc_function_space bc) (bc_nodes bc) x s0)
          = issue_append (SetLocalDiagonalEntries (cl_collect_loops cl) (fst x) (fst x) (bc_nodes bc) idx) s0"
      then show ?thesis using b
        by (intro exI[of _ "[SetLocalDiagonalEntries (cl_collect_loops cl) (fst x) (fst x) (bc_nodes bc) idx]"])
          (simp add: issue_append_def)
    qed
  qed
  then show ?thesis using False by (simp add: mat_bc_def)
qed

lemma apply_bcs_mat_loops:
  "\<exists>new. loops (snd (apply_bcs_mat cl bcs s)) = loops s @ map Returned new"
proof (cases bcs)
  case None
  then show ?thesis by (intro exI[of _ "[]"]) (simp add: apply_bcs_mat_def)
next
  case (Some bs)
  show ?thesis
  proof (cases "cl_is_mat cl")
    case False
    then show ?thesis using Some by (intro exI[of _ "[]"]) (simp add: apply_bcs_mat_def)
  next
    case True
    have "\<exists>new. loops (snd (for_each (mat_bc cl) bs s)) = loops s @ map Returned new"
    proof (rule for_each_loops)
      fix x s0 r s'
      assume "mat_bc cl x s0 = (r, s')"
      then show "\<exists>new. loops s' = loops s0 @ map Returned new"
        using mat_bc_loops[of cl x s0] by simp
    qed
    then show ?thesis using Some True by (simp add: apply_bcs_mat_def)
  qed
qed

lemma bc_apply_loop:
  "for_each (\<lambda>bc s. (None, issue (BCApply bc) s)) bs s
     = (None, s\<lparr> trace := trace s @ map BCApply bs \<rparr>)"
  by (induction bs arbitrary: s) (simp_all add: issue_def)

lemma apply_bcs_vec_loops: "loops (snd (apply_bcs_vec cl bcs s)) = loops s"
  by (cases bcs) (simp_all add: apply_bcs_vec_def bc_apply_loop)

text \<open>What one run of \<open>thunk\<close> adds to \<open>loops\<close>.\<close>

lemma thunk_loops:
  "\<exists>new. loops (snd (thunk env cl bcs s)) = loops (zero_step cl s) @ map Returned new"
proof -
  let ?z = "zero_step cl s"
  obtain r1 s1 where k: "for_each (kernel_step env cl bcs) (cl_kernels cl) ?z = (r1, s1)"
    by (cases "for_each (kernel_step env cl bcs) (cl_kernels cl) ?z")
  from kernels_loop_loops[of env cl bcs "cl_kernels cl" ?z] k obtain n1 where
    l1: "loops s1 = loops ?z @ map Returned n1" by auto
  obtain r2 s2 where b2: "apply_bcs_mat cl bcs s1 = (r2, s2)" by (cases "apply_bcs_mat cl bcs s1")
  from apply_bcs_mat_loops[of cl bcs s1] b2 obtain n2 where
    l2: "loops s2 = loops s1 @ map Returned n2" by auto
  obtain r3 s3 where b3: "apply_bcs_vec cl bcs s2 = (r3, s3)" by (cases "apply_bcs_vec cl bcs s2")
  have l3: "loops s3 = loops s2" using apply_bcs_vec_loops[of cl bcs s2] b3 by simp
  show ?thesis
  proof (cases r1)
    case (Some e)
    then have "thunk env cl bcs s = (Some e, s1)" using k by (simp add: thunk_def)
    then show ?thesis using l1 by (intro exI[of _ n1]) simp
  next
    case None
    show ?thesis
    proof (cases r2)
      case (Some e)
      then have "thunk env cl bcs s = (Some e, s2)" using k None b2 by (simp add: thunk_def)
      then show ?thesis using l1 l2 by (intro exI[of _ "n1 @ n2"]) simp
    next
      case n2: None
      show ?thesis
      proof (cases r3)
        case (Some e)
        then have "thunk env cl bcs s = (Some e, s3)" using k None b2 n2 b3
          by (simp add: thunk_def)
        then show ?thesis using l1 l2 l3 by (intro exI[of _ "n1 @ n2"]) simp
      next
        case n3: None
        have th: "thunk env cl bcs s
                    = (None, if cl_is_mat cl then issue_append TensorAssemble s3 else s3)"
          using k None b2 n2 b3 n3 by (simp add: thunk_def)
        show ?thesis using th l1 l2 l3
          by (intro exI[of _ "n1 @ n2 @ (if cl_is_mat cl then [TensorAssemble] else [])"])
            (auto simp: issue_append_def)
      qed
    qed
  qed
qed

lemma assemble_rank_closure:
  assumes "rank_setup a mt smt s0 = (Inr (Continue tgt zero), s1)"
    and "all_integer_subdomain_ids (f_kernels (a_f a)) = Inr ids"
  shows "assemble_rank env a mt smt s0 = finish env (make_closure a tgt zero ids) tgt (a_bcs a) s1"
  using assms by (simp add: assemble_rank_def)

text \<open>
  C2 (as amended).  \<open>_assemble\<close> hands to \<open>finish\<close> the closure \<open>make_closure a tgt zero ids\<close>,
  whose \<open>zero_tensor\<close> is \<open>tensor.zero\<close> exactly when the caller supplied the tensor and the
  no-op otherwise. Every run of \<open>thunk\<close> on that closure, from any state and with any
  boundary conditions, uses \<open>zero_tensor\<close> exactly once and before the first kernel: when
  loops are not collected the trace of the run is the one call of \<open>tensor.zero\<close> (none for
  the no-op), then one par_loop per kernel reached, in kernel order, then calls that are
  neither a zeroing nor an accumulation; when loops are collected nothing is zeroed and
  \<open>zero_tensor\<close> is the first entry the run appends to \<open>loops\<close>, every later entry being the
  value returned by a call.
\<close>

theorem thunk_zeroes_once:
  assumes "rank_setup a mt smt s0 = (Inr (Continue tgt zero), s1)"
    and "all_integer_subdomain_ids (f_kernels (a_f a)) = Inr ids"
  shows "assemble_rank env a mt smt s0 = finish env (make_closure a tgt zero ids) tgt (a_bcs a) s1
         \<and> cl_zero_tensor (make_closure a tgt zero ids) = (a_tensor a \<noteq> None)
         \<and> (\<exists>pls closing new.
               trace (snd (thunk env (make_closure a tgt zero ids) bcs s))
                 = trace s
                   @ (if \<not> a_collect_loops a \<and> a_tensor a \<noteq> None then [TensorZero] else [])
                   @ map (ParLoop (a_collect_loops a)) pls @ closing
               \<and> loops (snd (thunk env (make_closure a tgt zero ids) bcs s))
                 = loops s
                   @ (if a_collect_loops a
                      then [if a_tensor a \<noteq> None then ZeroCallable else NoopCallable] else [])
                   @ map Returned new
               \<and> map pl_kernel pls = map k_kernel (take (length pls) (f_kernels (a_f a)))
               \<and> (fst (thunk env (make_closure a tgt zero ids) bcs s) = None
                    \<longrightarrow> length pls = length (f_kernels (a_f a)))
               \<and> (\<forall>c \<in> set closing. closing_call c))"
proof -
  let ?cl = "make_closure a tgt zero ids"
  have z: "zero = (a_tensor a \<noteq> None)" using assms(1) by (rule rank_setup_zero)
  have cl: "cl_zero_tensor ?cl = (a_tensor a \<noteq> None)" "cl_collect_loops ?cl = a_collect_loops a"
    "cl_kernels ?cl = f_kernels (a_f a)"
    using z by (simp_all add: make_closure_def)
  from thunk_trace[of env ?cl bcs s] obtain pls closing where
    t: "trace (snd (thunk env ?cl bcs s))
       = trace (zero_step ?cl s) @ map (ParLoop (cl_collect_loops ?cl)) pls @ closing"
    and m: "map pl_kernel pls = map k_kernel (take (length pls) (cl_kernels ?cl))"
    and l: "fst (thunk env ?cl bcs s) = None \<longrightarrow> length pls = length (cl_kernels ?cl)"
    and q: "\<forall>c \<in> set closing. closing_call c" by (elim exE conjE)
  from thunk_loops[of env ?cl bcs s] obtain new where
    lo: "loops (snd (thunk env ?cl bcs s)) = loops (zero_step ?cl s) @ map Returned new" by blast
  have zt: "trace (zero_step ?cl s)
              = trace s @ (if \<not> a_collect_loops a \<and> a_tensor a \<noteq> None then [TensorZero] else [])"
    using cl by (simp add: zero_step_def issue_def)
  have zl: "loops (zero_step ?cl s)
              = loops s @ (if a_collect_loops a
                      then [if a_tensor a \<noteq> None then ZeroCallable else NoopCallable] else [])"
    using cl by (simp add: zero_step_def issue_def)
  have "\<exists>pls closing new.
               trace (snd (thunk env ?cl bcs s))
                 = trace s
                   @ (if \<not> a_collect_loops a \<and> a_tensor a \<noteq> None then [TensorZero] else [])
                   @ map (ParLoop (a_collect_loops a)) pls @ closing
               \<and> loops (snd (thunk env ?cl bcs s))
                 = loops s
                   @ (if a_collect_loops a
                      then [if a_tensor a \<noteq> None then ZeroCallable else NoopCallable] else [])
                   @ map Returned new
               \<and> map pl_kernel pls = map k_kernel (take (length pls) (f_kernels (a_f a)))
               \<and> (fst (thunk env ?cl bcs s) = None
                    \<longrightarrow> length pls = length (f_kernels (a_f a)))
               \<and> (\<forall>c \<in> set closing. closing_call c)"
    using t lo m l q zt zl cl
    by (intro exI[of _ pls] exI[of _ closing] exI[of _ new]) simp
  then show ?thesis using assemble_rank_closure[OF assms] cl(1) by blast
qed

theorem thunk_zeroes_once_witness:
  "rank_setup (ex_args ex_vector_form (Some (Function ex_space))) ''aij'' ''baij''
       \<lparr> trace = [], loops = [] \<rparr>
     = (Inr (Continue (TargetFunction ex_space) True), \<lparr> trace = [], loops = [] \<rparr>)
   \<and> all_integer_subdomain_ids (f_kernels (a_f (ex_args ex_vector_form (Some (Function ex_space)))))
       = Inr []
   \<and> a_tensor (ex_args ex_vector_form (Some (Function ex_space))) \<noteq> None
   \<and> \<not> a_collect_loops (ex_args ex_vector_form (Some (Function ex_space)))
   \<and> fst (thunk ex_env
        (make_closure (ex_args ex_vector_form (Some (Function ex_space)))
           (TargetFunction ex_space) True [])
        (Some []) \<lparr> trace = [], loops = [] \<rparr>) = None
   \<and> (\<exists>pls closing.
         trace (snd (thunk ex_env
             (make_closure (ex_args ex_vector_form (Some (Function ex_space)))
                (TargetFunction ex_space) True [])
             (Some []) \<lparr> trace = [], loops = [] \<rparr>))
           = [] @ [TensorZero] @ map (ParLoop False) pls @ closing
         \<and> map pl_kernel pls = [7])"
proof -
  let ?a = "ex_args ex_vector_form (Some (Function ex_space))"
  let ?cl = "make_closure ?a (TargetFunction ex_space) True []"
  let ?s = "\<lparr> trace = [], loops = [] \<rparr>"
  have h1: "rank_setup ?a ''aij'' ''baij'' ?s = (Inr (Continue (TargetFunction ex_space) True), ?s)"
    by code_simp
  have h2: "all_integer_subdomain_ids (f_kernels (a_f ?a)) = Inr []" by code_simp
  have h3: "a_tensor ?a \<noteq> None" "\<not> a_collect_loops ?a" by (simp_all add: ex_args_def)
  have h4: "fst (thunk ex_env ?cl (Some []) ?s) = None" by code_simp
  have k: "f_kernels (a_f ?a) = [ex_kernel [0] 7 ''cell'' Otherwise]"
    by (simp add: ex_args_def ex_vector_form_def ex_form_def)
  from thunk_zeroes_once[OF h1 h2, of ex_env "Some []" ?s] obtain pls closing where
    t: "trace (snd (thunk ex_env ?cl (Some []) ?s))
          = trace ?s @ (if \<not> a_collect_loops ?a \<and> a_tensor ?a \<noteq> None then [TensorZero] else [])
            @ map (ParLoop (a_collect_loops ?a)) pls @ closing"
    and m: "map pl_kernel pls = map k_kernel (take (length pls) (f_kernels (a_f ?a)))"
    and l: "fst (thunk ex_env ?cl (Some []) ?s) = None \<longrightarrow> length pls = length (f_kernels (a_f ?a))"
    by (elim exE conjE)
  have len: "length pls = 1" using l h4 k by simp
  have m7: "map pl_kernel pls = [7]" using m len k by (simp add: ex_kernel_def)
  have t': "trace (snd (thunk ex_env ?cl (Some []) ?s))
              = [] @ [TensorZero] @ map (ParLoop False) pls @ closing"
    using t h3 by simp
  show ?thesis
    apply (intro conjI)
    using h1 apply simp
    using h2 apply simp
    using h3 apply simp
    using h3 apply simp
    using h4 apply simp
    using t' m7 by (intro exI[of _ pls] exI[of _ closing] conjI)
qed

subsection \<open>The trace of a call that returns\<close>

text \<open>A run of \<open>thunk\<close> that succeeds on a function or a scalar, loops not collected:
  the zeroing, one par_loop per kernel, and for a function one \<open>bc.apply\<close> per boundary
  condition.\<close>

lemma thunk_success_trace:
  assumes "thunk env cl bcs s = (None, s')" and "\<not> cl_is_mat cl" and "\<not> cl_collect_loops cl"
  shows "\<exists>pls. trace s'
           = trace s @ (if cl_zero_tensor cl then [TensorZero] else [])
             @ map (ParLoop False) pls
             @ (if cl_is_vec cl then map BCApply (case bcs of None \<Rightarrow> [] | Some bs \<Rightarrow> bs)
                else [])
         \<and> map pl_kernel pls = map k_kernel (cl_kernels cl)"
proof -
  let ?z = "zero_step cl s"
  obtain r1 s1 where k: "for_each (kernel_step env cl bcs) (cl_kernels cl) ?z = (r1, s1)"
    by (cases "for_each (kernel_step env cl bcs) (cl_kernels cl) ?z")
  have r1: "r1 = None" using assms(1) k by (cases r1) (auto simp: thunk_def)
  from kernels_loop_trace[of env cl bcs "cl_kernels cl" ?z] k r1 assms(3) obtain pls where
    t1: "trace s1 = trace ?z @ map (ParLoop False) pls"
    and m: "map pl_kernel pls = map k_kernel (take (length pls) (cl_kernels cl))"
    and l: "length pls = length (cl_kernels cl)" by auto
  have m': "map pl_kernel pls = map k_kernel (cl_kernels cl)" using m l by simp
  have zt: "trace ?z = trace s @ (if cl_zero_tensor cl then [TensorZero] else [])"
    using assms(3) by (simp add: zero_step_def issue_def)
  have b2: "apply_bcs_mat cl bcs s1 = (None, s1)"
    using assms(2) by (cases bcs) (simp_all add: apply_bcs_mat_def)
  have b3: "apply_bcs_vec cl bcs s1
              = (None, s1\<lparr> trace := trace s1
                   @ (if cl_is_vec cl then map BCApply (case bcs of None \<Rightarrow> [] | Some bs \<Rightarrow> bs)
                      else []) \<rparr>)"
    using assms(3) by (cases bcs) (simp_all add: apply_bcs_vec_def bc_apply_loop)
  have "s' = s1\<lparr> trace := trace s1
                   @ (if cl_is_vec cl then map BCApply (case bcs of None \<Rightarrow> [] | Some bs \<Rightarrow> bs)
                      else []) \<rparr>"
    using assms(1,2) k r1 b2 b3 by (simp add: thunk_def)
  then have "trace s' = trace s @ (if cl_zero_tensor cl then [TensorZero] else [])
             @ map (ParLoop False) pls
             @ (if cl_is_vec cl then map BCApply (case bcs of None \<Rightarrow> [] | Some bs \<Rightarrow> bs)
                else [])"
    using t1 zt by simp
  then show ?thesis using m' by (intro exI[of _ pls] conjI)
qed

lemma assemble_impl_trace:
  assumes "assemble_impl env a tr = (Inr v, s)" and "\<not> a_collect_loops a"
  shows "\<exists>pre. (\<forall>c \<in> set pre. intake_call c \<or> setup_call c)
           \<and> (length (f_arguments (a_f a)) = 2 \<longrightarrow> trace s = tr @ pre)
           \<and> (length (f_arguments (a_f a)) \<noteq> 2 \<longrightarrow>
                (\<exists>pls. trace s
                    = tr @ pre @ (if a_tensor a \<noteq> None then [TensorZero] else [])
                      @ map (ParLoop False) pls
                      @ (if length (f_arguments (a_f a)) = 1
                         then map BCApply (case a_bcs a of None \<Rightarrow> [] | Some bs \<Rightarrow> bs)
                         else [])
                  \<and> map pl_kernel pls = map k_kernel (f_kernels (a_f a))))"
proof -
  let ?s0 = "\<lparr> trace = tr, loops = [] \<rparr>"
  obtain r1 s1 where i: "intake env a ?s0 = (r1, s1)" by (cases "intake env a ?s0")
  have "\<not> isl r1" using assms(1) i by (cases r1) (auto simp: assemble_impl_def)
  then obtain mt smt where r1: "r1 = Inr (mt, smt)" by (cases r1) auto
  note i' = i[unfolded r1]
  from intake_trace[of env a ?s0] i obtain n1 where
    t1: "trace s1 = tr @ n1" and q1: "\<forall>c \<in> set n1. intake_call c" by auto
  have ar: "assemble_rank env a mt smt s1 = (Inr v, s)"
    using assemble_impl_intake_ok[OF i'] assms(1) by simp
  obtain r2 s2 where rs: "rank_setup a mt smt s1 = (r2, s2)" by (cases "rank_setup a mt smt s1")
  from rank_setup_trace[of a mt smt s1] rs obtain n2 where
    t2: "trace s2 = trace s1 @ n2" and q2: "\<forall>c \<in> set n2. setup_call c" by auto
  have t12: "trace s2 = tr @ (n1 @ n2)" using t1 t2 by simp
  have q12: "\<forall>c \<in> set (n1 @ n2). intake_call c \<or> setup_call c" using q1 q2 by auto
  have "\<not> isl r2" using ar rs by (cases r2) (auto simp: assemble_rank_def)
  then obtain r where r2: "r2 = Inr r" by (cases r2) auto
  note rs' = rs[unfolded r2]
  show ?thesis
  proof (cases r)
    case (Return v')
    then have vs: "v' = v" "s2 = s" using ar rs' by (auto simp: assemble_rank_def)
    from rank_setup_result[OF rs'] Return vs
    have "length (f_arguments (a_f a)) = 2" by auto
    then show ?thesis using t12 q12 vs by (intro exI[of _ "n1 @ n2"]) simp
  next
    case (Continue tgt zero)
    obtain ids where ids: "all_integer_subdomain_ids (f_kernels (a_f a)) = Inr ids"
      using ar rs' Continue
      by (cases "all_integer_subdomain_ids (f_kernels (a_f a))") (auto simp: assemble_rank_def)
    let ?cl = "make_closure a tgt zero ids"
    have z: "zero = (a_tensor a \<noteq> None)" using rs' Continue by (auto dest: rank_setup_zero)
    have fin: "finish env ?cl tgt (a_bcs a) s2 = (Inr v, s)"
      using ar rs' Continue ids by (simp add: assemble_rank_def)
    have cl: "cl_collect_loops ?cl = False" "cl_kernels ?cl = f_kernels (a_f a)"
      "cl_is_mat ?cl = (length (f_arguments (a_f a)) = 2)"
      "cl_is_vec ?cl = (length (f_arguments (a_f a)) = 1)"
      "cl_zero_tensor ?cl = (a_tensor a \<noteq> None)"
      using assms(2) z by (simp_all add: make_closure_def)
    show ?thesis
    proof (cases "length (f_arguments (a_f a)) = 2")
      case True
      from rank_setup_result[OF rs'] Continue True obtain M' where tgt: "tgt = TargetMatrix M'"
        by blast
      have "s = s2" using fin cl True tgt by (auto simp: finish_def)
      then show ?thesis using t12 q12 True by (intro exI[of _ "n1 @ n2"]) simp
    next
      case False
      obtain r3 s3 where th: "thunk env ?cl (a_bcs a) s2 = (r3, s3)"
        by (cases "thunk env ?cl (a_bcs a) s2")
      have ok: "r3 = None" "s3 = s"
        using fin cl False th by (cases r3; auto simp: finish_def)+
      have th': "thunk env ?cl (a_bcs a) s2 = (None, s)" using th ok by simp
      have nm: "\<not> cl_is_mat ?cl" "\<not> cl_collect_loops ?cl" using cl False by simp_all
      from thunk_success_trace[OF th' nm] obtain pls where
        t3: "trace s = trace s2 @ (if cl_zero_tensor ?cl then [TensorZero] else [])
             @ map (ParLoop False) pls
             @ (if cl_is_vec ?cl
                then map BCApply (case a_bcs a of None \<Rightarrow> [] | Some bs \<Rightarrow> bs) else [])"
        and m: "map pl_kernel pls = map k_kernel (cl_kernels ?cl)" by (elim exE conjE)
      have t3': "trace s = tr @ (n1 @ n2) @ (if a_tensor a \<noteq> None then [TensorZero] else [])
                      @ map (ParLoop False) pls
                      @ (if length (f_arguments (a_f a)) = 1
                         then map BCApply (case a_bcs a of None \<Rightarrow> [] | Some bs \<Rightarrow> bs)
                         else [])"
        using t3 t12 cl by simp
      have m': "map pl_kernel pls = map k_kernel (f_kernels (a_f a))" using m cl by simp
      show ?thesis
        apply (intro exI[of _ "n1 @ n2"] conjI)
        using q12 apply simp
        using False apply simp
        using t3' m' by blast
    qed
  qed
qed

text \<open>
  C1 (as amended).  A call to \<open>assemble\<close> on a form, without loop collection, that returns.
  The calls it has made are those of the intake and of the setup for the rank, followed
  for a form of rank 0 or 1 by one run of the pipeline: the zeroing of a supplied tensor,
  one par_loop per kernel of the form in kernel order, and for rank 1 one \<open>bc.apply\<close> per
  boundary condition, in order. So every kernel has been accumulated exactly once. For a
  form of rank 2 nothing follows the intake and the setup: no kernel has been accumulated,
  and a matrix that is returned (not allocate-only) carries \<open>thunk\<close>, closed over the
  kernels of the form, as its assembly callback.
\<close>

theorem assemble_runs_thunk_once:
  assumes "assemble env (Form f) tensor bcs invert mt smt kw tr = (Inr v, s)"
    and "kw_collect_loops kw \<noteq> Some True"
  shows "(\<exists>pre. (\<forall>c \<in> set pre. intake_call c \<or> setup_call c)
           \<and> (length (f_arguments f) = 2 \<longrightarrow> trace s = tr @ pre)
           \<and> (length (f_arguments f) \<noteq> 2 \<longrightarrow>
                (\<exists>pls. trace s
                    = tr @ pre @ (if tensor \<noteq> None then [TensorZero] else [])
                      @ map (ParLoop False) pls
                      @ (if length (f_arguments f) = 1
                         then map BCApply
                                (case extract_bcs env bcs of None \<Rightarrow> [] | Some bs \<Rightarrow> bs)
                         else [])
                  \<and> map pl_kernel pls = map k_kernel (f_kernels f))))
         \<and> (length (f_arguments f) \<noteq> 2 \<longrightarrow>
            accumulations (trace s) = accumulations tr @ map k_kernel (f_kernels f))
         \<and> (length (f_arguments f) = 2 \<longrightarrow> accumulations (trace s) = accumulations tr)
         \<and> (\<forall>M. length (f_arguments f) = 2 \<and> v = Tensor (Matrix M)
                 \<and> kw_allocate_only kw \<noteq> Some True
               \<longrightarrow> (\<exists>cl. mat_assembly_callback M = Some (Some cl)
                         \<and> cl_kernels cl = f_kernels f))"
proof -
  define a where "a = \<lparr> a_f = f, a_tensor = tensor, a_bcs = extract_bcs env bcs,
      a_inverse = invert,
      a_mat_type = (case kw_nest kw of
                         Some (Some nest) \<Rightarrow> Some (if nest then ''nest'' else ''aij'')
                       | _ \<Rightarrow> mt),
      a_sub_mat_type = smt,
      a_collect_loops = (case kw_collect_loops kw of None \<Rightarrow> False | Some b \<Rightarrow> b),
      a_allocate_only = (case kw_allocate_only kw of None \<Rightarrow> False | Some b \<Rightarrow> b) \<rparr>"
  have o: "\<not> 0 < length (kw_others kw)"
    using assms(1) by (auto simp: assemble_def Let_def split: if_splits)
  have ai: "assemble_impl env a tr = (Inr v, s)"
    using assms(1) o by (simp add: assemble_def Let_def a_def)
  have nc: "\<not> a_collect_loops a" using assms(2) by (auto simp: a_def split: option.splits)
  have f: "a_f a = f" "a_tensor a = tensor" "a_bcs a = extract_bcs env bcs" by (simp_all add: a_def)
  have ao: "a_allocate_only a \<longrightarrow> kw_allocate_only kw = Some True"
    by (auto simp: a_def split: option.splits)
  have p1: "\<exists>pre. (\<forall>c \<in> set pre. intake_call c \<or> setup_call c)
           \<and> (length (f_arguments f) = 2 \<longrightarrow> trace s = tr @ pre)
           \<and> (length (f_arguments f) \<noteq> 2 \<longrightarrow>
                (\<exists>pls. trace s
                    = tr @ pre @ (if tensor \<noteq> None then [TensorZero] else [])
                      @ map (ParLoop False) pls
                      @ (if length (f_arguments f) = 1
                         then map BCApply
                                (case extract_bcs env bcs of None \<Rightarrow> [] | Some bs \<Rightarrow> bs)
                         else [])
                  \<and> map pl_kernel pls = map k_kernel (f_kernels f)))"
    using assemble_impl_trace[OF ai nc] unfolding f .
  have p2: "(length (f_arguments f) \<noteq> 2 \<longrightarrow>
            accumulations (trace s) = accumulations tr @ map k_kernel (f_kernels f))
         \<and> (length (f_arguments f) = 2 \<longrightarrow> accumulations (trace s) = accumulations tr)
         \<and> (\<forall>M. length (f_arguments f) = 2 \<and> v = Tensor (Matrix M)
                 \<and> kw_allocate_only kw \<noteq> Some True
               \<longrightarrow> (\<exists>cl. mat_assembly_callback M = Some (Some cl)
                         \<and> cl_kernels cl = f_kernels f))"
    using assemble_impl_accumulations[OF ai nc] f ao by auto
  show ?thesis using p1 p2 by (intro conjI) simp_all
qed

theorem assemble_runs_thunk_once_witness:
  "assemble ex_env (Form ex_vector_form) (Some (Function ex_space)) (Some [ex_bc ex_space]) False
       None None ex_kwargs []
     = (Inr (Tensor (Function ex_space)),
        snd (assemble ex_env (Form ex_vector_form) (Some (Function ex_space))
               (Some [ex_bc ex_space]) False None None ex_kwargs []))
   \<and> kw_collect_loops ex_kwargs \<noteq> Some True
   \<and> length (f_arguments ex_vector_form) = 1
   \<and> (\<exists>pls. trace (snd (assemble ex_env (Form ex_vector_form) (Some (Function ex_space))
               (Some [ex_bc ex_space]) False None None ex_kwargs []))
         = [MeshInit ''m'', Compile False False, TensorZero] @ map (ParLoop False) pls
           @ [BCApply (ex_bc ex_space)]
       \<and> map pl_kernel pls = [7])
   \<and> accumulations (trace (snd (assemble ex_env (Form ex_vector_form) (Some (Function ex_space))
               (Some [ex_bc ex_space]) False None None ex_kwargs []))) = [7]"
proof -
  let ?r = "assemble ex_env (Form ex_vector_form) (Some (Function ex_space))
               (Some [ex_bc ex_space]) False None None ex_kwargs []"
  have h1: "?r = (Inr (Tensor (Function ex_space)), snd ?r)" by code_simp
  have h2: "kw_collect_loops ex_kwargs \<noteq> Some True" by (simp add: ex_kwargs_def)
  have h3: "length (f_arguments ex_vector_form) = 1" by (simp add: ex_vector_form_def ex_form_def)
  have k: "map k_kernel (f_kernels ex_vector_form) = [7]"
    by (simp add: ex_vector_form_def ex_form_def ex_kernel_def)
  have b: "extract_bcs ex_env (Some [ex_bc ex_space]) = Some [ex_bc ex_space]"
    by (simp add: ex_env_def)
  have tk: "take 2 (trace (snd ?r)) = [MeshInit ''m'', Compile False False]" by code_simp
  note th = assemble_runs_thunk_once[OF h1 h2]
  from th[THEN conjunct1] obtain pre where
    q: "\<forall>c \<in> set pre. intake_call c \<or> setup_call c"
    and imp: "length (f_arguments ex_vector_form) \<noteq> 2 \<longrightarrow>
                (\<exists>pls. trace (snd ?r)
                    = [] @ pre @ (if Some (Function ex_space) \<noteq> None then [TensorZero] else [])
                      @ map (ParLoop False) pls
                      @ (if length (f_arguments ex_vector_form) = 1
                         then map BCApply
                                (case extract_bcs ex_env (Some [ex_bc ex_space]) of
                                   None \<Rightarrow> [] | Some bs \<Rightarrow> bs)
                         else [])
                  \<and> map pl_kernel pls = map k_kernel (f_kernels ex_vector_form))"
    by (elim exE conjE)
  from imp h3 obtain pls where
    t0: "trace (snd ?r)
                    = [] @ pre @ (if Some (Function ex_space) \<noteq> None then [TensorZero] else [])
                      @ map (ParLoop False) pls
                      @ (if length (f_arguments ex_vector_form) = 1
                         then map BCApply
                                (case extract_bcs ex_env (Some [ex_bc ex_space]) of
                                   None \<Rightarrow> [] | Some bs \<Rightarrow> bs)
                         else [])"
    and m0: "map pl_kernel pls = map k_kernel (f_kernels ex_vector_form)" by auto
  have t: "trace (snd ?r) = [] @ pre @ [TensorZero] @ map (ParLoop False) pls
               @ [BCApply (ex_bc ex_space)]"
    using t0 h3 b by simp
  have m: "map pl_kernel pls = [7]" using m0 k by simp
  have acc: "accumulations (trace (snd ?r)) = accumulations [] @ [7]"
    using th[THEN conjunct2, THEN conjunct1] h3 k by simp
  have lt: "length (trace (snd ?r)) = 5" by code_simp
  have "length (map pl_kernel pls) = 1" using m by simp
  then have lp: "length pls = 1" by simp
  have "length (trace (snd ?r)) = length pre + 2 + length pls" using t by simp
  then have "length pre = 2" using lt lp by simp
  then have pre: "pre = [MeshInit ''m'', Compile False False]" using tk t by simp
  have t': "trace (snd ?r) = [MeshInit ''m'', Compile False False, TensorZero]
              @ map (ParLoop False) pls @ [BCApply (ex_bc ex_space)]"
    using t pre by simp
  have acc': "accumulations (trace (snd ?r)) = [7]" using acc by (simp add: accumulations_def)
  have e: "\<exists>pls. trace (snd ?r)
         = [MeshInit ''m'', Compile False False, TensorZero] @ map (ParLoop False) pls
           @ [BCApply (ex_bc ex_space)]
       \<and> map pl_kernel pls = [7]"
    using t' m by (intro exI[of _ pls] conjI)
  show ?thesis by (intro conjI h1 h2 h3 e acc')
qed

subsection \<open>An unknown integral type\<close>

lemma sparsity_domains_unknown:
  assumes "\<forall>u \<in> set ts. classify u \<noteq> None" and "classify t = None"
  shows "sparsity_domains (ts @ t # ts') (c, e, i)
           = Inl (ValueError (''Unknown integral type '' @ dq t))"
  using assms(1)
proof (induction ts arbitrary: c e i)
  case Nil
  have "t \<notin> set [''cell'', ''exterior_facet'', ''interior_facet'', ''exterior_facet_bottom'',
              ''exterior_facet_top'', ''exterior_facet_vert'', ''interior_facet_horiz'',
              ''interior_facet_vert'']"
    using assms(2) classify_known[of t] by simp
  then show ?case by simp
next
  case (Cons u ts)
  have k: "u \<in> set [''cell'', ''exterior_facet'', ''interior_facet'', ''exterior_facet_bottom'',
              ''exterior_facet_top'', ''exterior_facet_vert'', ''interior_facet_horiz'',
              ''interior_facet_vert'']"
    using Cons.prems classify_known[of u] by simp
  have rest: "\<And>c1 e1 i1. sparsity_domains (ts @ t # ts') (c1, e1, i1)
                = Inl (ValueError (''Unknown integral type '' @ dq t))"
    using Cons.IH Cons.prems by simp
  show ?case using k rest by auto
qed

text \<open>The path that builds a new sparsity (lines 264 to 282): the first unknown type
  stops \<open>_assemble\<close> in the state the intake left.\<close>

lemma unknown_kind_new_matrix:
  assumes "intake env a \<lparr> trace = tr, loops = [] \<rparr> = (Inr (mt, smt), s1)"
    and "length (f_arguments (a_f a)) = 2" and "a_tensor a = None" and "mt \<noteq> ''matfree''"
    and "integral_types (a_f a) = ts @ t # ts'"
    and "\<forall>u \<in> set ts. classify u \<noteq> None" and "classify t = None"
  shows "assemble_impl env a tr = (Inl (ValueError (''Unknown integral type '' @ dq t)), s1)
         \<and> (\<exists>new. trace s1 = tr @ new \<and> (\<forall>c \<in> set new. intake_call c))"
proof -
  obtain test trial where args: "f_arguments (a_f a) = [test, trial]"
    using assms(2) by (cases "f_arguments (a_f a)"; simp) (metis length_0_conv length_Suc_conv Suc_inject)
  have sd: "sparsity_domains (integral_types (a_f a)) ([], [], [])
              = Inl (ValueError (''Unknown integral type '' @ dq t))"
    unfolding assms(5) using assms(6,7) by (rule sparsity_domains_unknown)
  have mt: "\<And>nest baij. mat_target a nest baij (integral_types (a_f a))
              (arg_function_space test) (arg_function_space trial) s1
            = (Inl (ValueError (''Unknown integral type '' @ dq t)), s1)"
    using assms(3) sd by (simp add: mat_target_def)
  have sm: "setup_mat a mt smt (integral_types (a_f a)) s1
              = (Inl (ValueError (''Unknown integral type '' @ dq t)), s1)"
    using assms(4) args mt by (simp add: setup_mat_def Let_def)
  have rs: "rank_setup a mt smt s1 = (Inl (ValueError (''Unknown integral type '' @ dq t)), s1)"
    using assms(2) sm by (simp add: rank_setup_def)
  have ar: "assemble_rank env a mt smt s1
              = (Inl (ValueError (''Unknown integral type '' @ dq t)), s1)"
    using rs by (simp add: assemble_rank_def)
  have "assemble_impl env a tr = (Inl (ValueError (''Unknown integral type '' @ dq t)), s1)"
    using assemble_impl_intake_ok[OF assms(1)] ar by simp
  moreover have "\<exists>new. trace s1 = tr @ new \<and> (\<forall>c \<in> set new. intake_call c)"
    using intake_trace[of env a "\<lparr> trace = tr, loops = [] \<rparr>"] assms(1) by simp
  ultimately show ?thesis by (rule conjI)
qed

text \<open>A form of rank 0 or 1: \<open>_assemble\<close> fails, with at most the kernels before the
  unknown one accumulated.\<close>

lemma unknown_kind_assemble_impl:
  assumes "length (f_arguments (a_f a)) \<noteq> 2" and "f_kernels (a_f a) = pre @ k # post"
    and "classify (k_integral_type k) = None"
  shows "\<exists>e n. fst (assemble_impl env a tr) = Inl e \<and> n \<le> length pre
           \<and> accumulations (trace (snd (assemble_impl env a tr)))
               = accumulations tr @ (if a_collect_loops a then [] else map k_kernel (take n pre))"
proof -
  let ?s0 = "\<lparr> trace = tr, loops = [] \<rparr>"
  obtain r1 s1 where i: "intake env a ?s0 = (r1, s1)" by (cases "intake env a ?s0")
  have a1: "accumulations (trace s1) = accumulations tr"
    using intake_accumulations[of env a ?s0] i by simp
  show ?thesis
  proof (cases r1)
    case (Inl e)
    then have "assemble_impl env a tr = (Inl e, s1)" using i by (simp add: assemble_impl_def)
    then show ?thesis using a1 by (intro exI[of _ e] exI[of _ 0]) simp
  next
    case (Inr types)
    obtain mt smt where ty: "types = (mt, smt)" by (cases types)
    note i' = i[unfolded Inr ty]
    have ai: "assemble_impl env a tr = assemble_rank env a mt smt s1"
      using assemble_impl_intake_ok[OF i'] .
    obtain r2 s2 where rs: "rank_setup a mt smt s1 = (r2, s2)" by (cases "rank_setup a mt smt s1")
    have a2: "accumulations (trace s2) = accumulations tr"
      using rank_setup_accumulations[of a mt smt s1] rs a1 by simp
    show ?thesis
    proof (cases r2)
      case (Inl e)
      then have "assemble_impl env a tr = (Inl e, s2)" using ai rs by (simp add: assemble_rank_def)
      then show ?thesis using a2 by (intro exI[of _ e] exI[of _ 0]) simp
    next
      case r2: (Inr r)
      note rs' = rs[unfolded r2]
      show ?thesis
      proof (cases r)
        case (Return v)
        from rank_setup_result[OF rs'] Return have "length (f_arguments (a_f a)) = 2" by auto
        then show ?thesis using assms(1) by simp
      next
        case (Continue tgt zero)
        show ?thesis
        proof (cases "all_integer_subdomain_ids (f_kernels (a_f a))")
          case (Inl e)
          then have "assemble_impl env a tr = (Inl e, s2)"
            using ai rs' Continue by (simp add: assemble_rank_def)
          then show ?thesis using a2 by (intro exI[of _ e] exI[of _ 0]) simp
        next
          case (Inr ids)
          let ?cl = "make_closure a tgt zero ids"
          have cl: "cl_collect_loops ?cl = a_collect_loops a" "cl_kernels ?cl = pre @ k # post"
            "\<not> cl_is_mat ?cl"
            using assms(1,2) by (simp_all add: make_closure_def)
          have ai': "assemble_impl env a tr = finish env ?cl tgt (a_bcs a) s2"
            using ai rs' Continue Inr by (simp add: assemble_rank_def)
          from thunk_unknown_kind[OF cl(2) assms(3), of env "a_bcs a" s2] obtain e n where
            f: "fst (thunk env ?cl (a_bcs a) s2) = Some e" and n: "n \<le> length pre"
            and acc: "accumulations (trace (snd (thunk env ?cl (a_bcs a) s2)))
                   = accumulations (trace s2)
                     @ (if cl_collect_loops ?cl then [] else map k_kernel (take n pre))"
            by (elim exE conjE)
          obtain s3 where th: "thunk env ?cl (a_bcs a) s2 = (Some e, s3)"
            using f by (cases "thunk env ?cl (a_bcs a) s2") simp
          have "finish env ?cl tgt (a_bcs a) s2 = (Inl e, s3)"
            using th cl(3) by (simp add: finish_def)
          then have "assemble_impl env a tr = (Inl e, s3)" using ai' by simp
          then show ?thesis using acc th a2 n cl(1)
            by (intro exI[of _ e] exI[of _ n]) simp
        qed
      qed
    qed
  qed
qed

text \<open>The same, when the intake, the setup and the kernels before the unknown one
  succeed and the steps of the unknown kernel that come before its classification
  pass.\<close>

lemma unknown_kind_named:
  assumes "intake env a \<lparr> trace = tr, loops = [] \<rparr> = (Inr (mt, smt), s1)"
    and "rank_setup a mt smt s1 = (Inr (Continue tgt zero), s2)"
    and "all_integer_subdomain_ids (f_kernels (a_f a)) = Inr ids"
    and "length (f_arguments (a_f a)) \<noteq> 2" and "f_kernels (a_f a) = pre @ k # post"
    and "classify (k_integral_type k) = None"
    and "fst (for_each (kernel_step env (make_closure a tgt zero ids) (a_bcs a)) pre
           (zero_step (make_closure a tgt zero ids) s2)) = None"
    and "\<not> isl (kernel_prelude (make_closure a tgt zero ids) (a_bcs a) k)"
  shows "fst (assemble_impl env a tr)
           = Inl (ValueError (''Unknown integral type '' @ sq (k_integral_type k)))
         \<and> accumulations (trace (snd (assemble_impl env a tr)))
             = accumulations tr @ (if a_collect_loops a then [] else map k_kernel pre)"
proof -
  let ?cl = "make_closure a tgt zero ids"
  let ?s0 = "\<lparr> trace = tr, loops = [] \<rparr>"
  have cl: "cl_collect_loops ?cl = a_collect_loops a" "cl_kernels ?cl = pre @ k # post"
    "\<not> cl_is_mat ?cl"
    using assms(4,5) by (simp_all add: make_closure_def)
  have a1: "accumulations (trace s1) = accumulations tr"
    using intake_accumulations[of env a ?s0] assms(1) by simp
  have a2: "accumulations (trace s2) = accumulations tr"
    using rank_setup_accumulations[of a mt smt s1] assms(2) a1 by simp
  have ai: "assemble_impl env a tr = finish env ?cl tgt (a_bcs a) s2"
    using assemble_impl_intake_ok[OF assms(1)] assemble_rank_closure[OF assms(2,3)] by simp
  obtain s3 where p: "for_each (kernel_step env ?cl (a_bcs a)) pre (zero_step ?cl s2) = (None, s3)"
    using assms(7) by (cases "for_each (kernel_step env ?cl (a_bcs a)) pre (zero_step ?cl s2)") simp
  have a3: "accumulations (trace s3)
              = accumulations tr @ (if a_collect_loops a then [] else map k_kernel pre)"
    using kernels_loop_accumulations[OF p] cl(1) a2 by (simp add: zero_step_accumulations)
  from thunk_unknown_kind[OF cl(2) assms(6), of env "a_bcs a" s2] obtain e where
    f: "fst (thunk env ?cl (a_bcs a) s2) = Some e"
    and s: "snd (thunk env ?cl (a_bcs a) s2)
              = snd (for_each (kernel_step env ?cl (a_bcs a)) pre (zero_step ?cl s2))"
    and nm: "fst (for_each (kernel_step env ?cl (a_bcs a)) pre (zero_step ?cl s2)) = None
                \<and> \<not> isl (kernel_prelude ?cl (a_bcs a) k) \<longrightarrow>
                e = ValueError (''Unknown integral type '' @ sq (k_integral_type k))"
    by (elim exE conjE)
  have e: "e = ValueError (''Unknown integral type '' @ sq (k_integral_type k))"
    using nm assms(7,8) by simp
  have th: "thunk env ?cl (a_bcs a) s2 = (Some e, s3)"
    using f s p by (cases "thunk env ?cl (a_bcs a) s2") simp
  have "finish env ?cl tgt (a_bcs a) s2 = (Inl e, s3)"
    using th cl(3) by (simp add: finish_def)
  then have "assemble_impl env a tr = (Inl e, s3)" using ai by simp
  then show ?thesis using e a3 by simp
qed

text \<open>
  C4 (as amended).  Let \<open>t\<close> be an integral type that is not one of the recognized kinds.

  \<^item> A form of rank 2 assembled into a new matrix (no supplied tensor, not matrix-free),
    the intake having passed: if \<open>t\<close> is the first unknown type of the form, \<open>_assemble\<close>
    fails with the ValueError "Unknown integral type" naming \<open>t\<close>, in the state the intake
    left: nothing was allocated and no kernel accumulated.
  \<^item> A form of rank 0 or 1 with a kernel of type \<open>t\<close>: \<open>_assemble\<close> fails, and the kernels
    it has accumulated are a prefix of those listed before that kernel. When the
    intake, the setup, those kernels and the steps of the kernel that come before its
    classification all succeed, all of them have been accumulated and the error is the
    ValueError "Unknown integral type" naming \<open>t\<close>.
  \<^item> Any run of \<open>thunk\<close>, that stored on a matrix included, on a closure with a kernel of
    type \<open>t\<close>: the run fails in the state reached by the loop over the kernels listed
    before it, so no accumulation is issued for that kernel or a later one.
\<close>

theorem unknown_kind_fails:
  assumes "classify t = None"
  shows "(intake env a \<lparr> trace = tr, loops = [] \<rparr> = (Inr (mt, smt), s1)
            \<and> length (f_arguments (a_f a)) = 2 \<and> a_tensor a = None \<and> mt \<noteq> ''matfree''
            \<and> integral_types (a_f a) = ts @ t # ts' \<and> (\<forall>u \<in> set ts. classify u \<noteq> None)
          \<longrightarrow> assemble_impl env a tr
                = (Inl (ValueError (''Unknown integral type '' @ dq t)), s1)
              \<and> (\<exists>new. trace s1 = tr @ new \<and> (\<forall>c \<in> set new. intake_call c)))
       \<and> (length (f_arguments (a_f b)) \<noteq> 2 \<and> f_kernels (a_f b) = pre @ k # post
            \<and> k_integral_type k = t
          \<longrightarrow> (\<exists>e n. fst (assemble_impl env b tr) = Inl e \<and> n \<le> length pre
                  \<and> accumulations (trace (snd (assemble_impl env b tr)))
                      = accumulations tr
                        @ (if a_collect_loops b then [] else map k_kernel (take n pre))))
       \<and> (length (f_arguments (a_f b)) \<noteq> 2 \<and> f_kernels (a_f b) = pre @ k # post
            \<and> k_integral_type k = t
            \<and> intake env b \<lparr> trace = tr, loops = [] \<rparr> = (Inr (mt', smt'), s1')
            \<and> rank_setup b mt' smt' s1' = (Inr (Continue tgt zero), s2)
            \<and> all_integer_subdomain_ids (f_kernels (a_f b)) = Inr ids
            \<and> fst (for_each (kernel_step env (make_closure b tgt zero ids) (a_bcs b)) pre
                     (zero_step (make_closure b tgt zero ids) s2)) = None
            \<and> \<not> isl (kernel_prelude (make_closure b tgt zero ids) (a_bcs b) k)
          \<longrightarrow> fst (assemble_impl env b tr)
                = Inl (ValueError (''Unknown integral type '' @ sq t))
              \<and> accumulations (trace (snd (assemble_impl env b tr)))
                  = accumulations tr @ (if a_collect_loops b then [] else map k_kernel pre))
       \<and> (cl_kernels cl = cpre @ ck # cpost \<and> k_integral_type ck = t
          \<longrightarrow> (\<exists>e. fst (thunk env cl bcs s) = Some e
                  \<and> snd (thunk env cl bcs s)
                      = snd (for_each (kernel_step env cl bcs) cpre (zero_step cl s))
                  \<and> (\<exists>n \<le> length cpre.
                        accumulations (trace (snd (thunk env cl bcs s)))
                          = accumulations (trace s)
                            @ (if cl_collect_loops cl then [] else map k_kernel (take n cpre)))
                  \<and> (fst (for_each (kernel_step env cl bcs) cpre (zero_step cl s)) = None
                       \<and> \<not> isl (kernel_prelude cl bcs ck) \<longrightarrow>
                       e = ValueError (''Unknown integral type '' @ sq t))))"
proof (intro conjI impI)
  assume h: "intake env a \<lparr> trace = tr, loops = [] \<rparr> = (Inr (mt, smt), s1)
            \<and> length (f_arguments (a_f a)) = 2 \<and> a_tensor a = None \<and> mt \<noteq> ''matfree''
            \<and> integral_types (a_f a) = ts @ t # ts' \<and> (\<forall>u \<in> set ts. classify u \<noteq> None)"
  have r: "assemble_impl env a tr = (Inl (ValueError (''Unknown integral type '' @ dq t)), s1)
         \<and> (\<exists>new. trace s1 = tr @ new \<and> (\<forall>c \<in> set new. intake_call c))"
    by (rule unknown_kind_new_matrix[OF h[THEN conjunct1] h[THEN conjunct2, THEN conjunct1]
          h[THEN conjunct2, THEN conjunct2, THEN conjunct1]
          h[THEN conjunct2, THEN conjunct2, THEN conjunct2, THEN conjunct1]
          h[THEN conjunct2, THEN conjunct2, THEN conjunct2, THEN conjunct2, THEN conjunct1]
          h[THEN conjunct2, THEN conjunct2, THEN conjunct2, THEN conjunct2, THEN conjunct2]
          assms])
  show "assemble_impl env a tr = (Inl (ValueError (''Unknown integral type '' @ dq t)), s1)"
    using r by (rule conjunct1)
  show "\<exists>new. trace s1 = tr @ new \<and> (\<forall>c \<in> set new. intake_call c)"
    using r by (rule conjunct2)
next
  assume h: "length (f_arguments (a_f b)) \<noteq> 2 \<and> f_kernels (a_f b) = pre @ k # post
            \<and> k_integral_type k = t"
  then have c: "classify (k_integral_type k) = None" using assms by simp
  show "\<exists>e n. fst (assemble_impl env b tr) = Inl e \<and> n \<le> length pre
                  \<and> accumulations (trace (snd (assemble_impl env b tr)))
                      = accumulations tr
                        @ (if a_collect_loops b then [] else map k_kernel (take n pre))"
    by (rule unknown_kind_assemble_impl[OF h[THEN conjunct1] h[THEN conjunct2, THEN conjunct1] c])
next
  assume h: "length (f_arguments (a_f b)) \<noteq> 2 \<and> f_kernels (a_f b) = pre @ k # post
            \<and> k_integral_type k = t
            \<and> intake env b \<lparr> trace = tr, loops = [] \<rparr> = (Inr (mt', smt'), s1')
            \<and> rank_setup b mt' smt' s1' = (Inr (Continue tgt zero), s2)
            \<and> all_integer_subdomain_ids (f_kernels (a_f b)) = Inr ids
            \<and> fst (for_each (kernel_step env (make_closure b tgt zero ids) (a_bcs b)) pre
                     (zero_step (make_closure b tgt zero ids) s2)) = None
            \<and> \<not> isl (kernel_prelude (make_closure b tgt zero ids) (a_bcs b) k)"
  then have c: "classify (k_integral_type k) = None" and kt: "k_integral_type k = t"
    using assms by simp_all
  have r: "fst (assemble_impl env b tr)
           = Inl (ValueError (''Unknown integral type '' @ sq (k_integral_type k)))
         \<and> accumulations (trace (snd (assemble_impl env b tr)))
             = accumulations tr @ (if a_collect_loops b then [] else map k_kernel pre)"
    by (rule unknown_kind_named[OF
          h[THEN conjunct2, THEN conjunct2, THEN conjunct2, THEN conjunct1]
          h[THEN conjunct2, THEN conjunct2, THEN conjunct2, THEN conjunct2, THEN conjunct1]
          h[THEN conjunct2, THEN conjunct2, THEN conjunct2, THEN conjunct2, THEN conjunct2,
            THEN conjunct1]
          h[THEN conjunct1] h[THEN conjunct2, THEN conjunct1] c
          h[THEN conjunct2, THEN conjunct2, THEN conjunct2, THEN conjunct2, THEN conjunct2,
            THEN conjunct2, THEN conjunct1]
          h[THEN conjunct2, THEN conjunct2, THEN conjunct2, THEN conjunct2, THEN conjunct2,
            THEN conjunct2, THEN conjunct2]])
  show "fst (assemble_impl env b tr) = Inl (ValueError (''Unknown integral type '' @ sq t))"
    using r kt by simp
  show "accumulations (trace (snd (assemble_impl env b tr)))
             = accumulations tr @ (if a_collect_loops b then [] else map k_kernel pre)"
    using r by (rule conjunct2)
next
  assume h: "cl_kernels cl = cpre @ ck # cpost \<and> k_integral_type ck = t"
  then have k: "cl_kernels cl = cpre @ ck # cpost" and c: "classify (k_integral_type ck) = None"
    and kt: "k_integral_type ck = t"
    using assms by simp_all
  show "\<exists>e. fst (thunk env cl bcs s) = Some e
                  \<and> snd (thunk env cl bcs s)
                      = snd (for_each (kernel_step env cl bcs) cpre (zero_step cl s))
                  \<and> (\<exists>n \<le> length cpre.
                        accumulations (trace (snd (thunk env cl bcs s)))
                          = accumulations (trace s)
                            @ (if cl_collect_loops cl then [] else map k_kernel (take n cpre)))
                  \<and> (fst (for_each (kernel_step env cl bcs) cpre (zero_step cl s)) = None
                       \<and> \<not> isl (kernel_prelude cl bcs ck) \<longrightarrow>
                       e = ValueError (''Unknown integral type '' @ sq t))"
    using thunk_unknown_kind[OF k c, of env bcs s] unfolding kt .
qed

theorem unknown_kind_fails_witness:
  "classify ''bogus'' = None
   \<and> intake ex_env (ex_args ex_bogus_matrix_form None) \<lparr> trace = [], loops = [] \<rparr>
       = (Inr (''aij'', ''baij''), \<lparr> trace = [MeshInit ''m'', Compile False False], loops = [] \<rparr>)
   \<and> length (f_arguments (a_f (ex_args ex_bogus_matrix_form None))) = 2
   \<and> a_tensor (ex_args ex_bogus_matrix_form None) = None
   \<and> integral_types (a_f (ex_args ex_bogus_matrix_form None)) = [''cell''] @ ''bogus'' # []
   \<and> classify ''cell'' \<noteq> None
   \<and> assemble_impl ex_env (ex_args ex_bogus_matrix_form None) []
       = (Inl (ValueError (''Unknown integral type '' @ dq ''bogus'')),
          \<lparr> trace = [MeshInit ''m'', Compile False False], loops = [] \<rparr>)
   \<and> length (f_arguments (a_f (ex_args ex_bogus_form None))) = 1
   \<and> f_kernels (a_f (ex_args ex_bogus_form None))
       = [ex_kernel [0] 7 ''cell'' Otherwise] @ ex_kernel [0] 8 ''bogus'' Otherwise # []
   \<and> intake ex_env (ex_args ex_bogus_form None) \<lparr> trace = [], loops = [] \<rparr>
       = (Inr (''aij'', ''baij''), \<lparr> trace = [MeshInit ''m'', Compile False False], loops = [] \<rparr>)
   \<and> rank_setup (ex_args ex_bogus_form None) ''aij'' ''baij''
         \<lparr> trace = [MeshInit ''m'', Compile False False], loops = [] \<rparr>
       = (Inr (Continue (TargetFunction ex_space) False),
          \<lparr> trace = [MeshInit ''m'', Compile False False, NewFunction], loops = [] \<rparr>)
   \<and> all_integer_subdomain_ids (f_kernels (a_f (ex_args ex_bogus_form None))) = Inr []
   \<and> fst (assemble_impl ex_env (ex_args ex_bogus_form None) [])
       = Inl (ValueError (''Unknown integral type '' @ sq ''bogus''))
   \<and> accumulations (trace (snd (assemble_impl ex_env (ex_args ex_bogus_form None) []))) = [7]
   \<and> cl_kernels ex_bogus_closure
       = [ex_kernel [0] 7 ''cell'' Otherwise] @ ex_kernel [0] 8 ''bogus'' Otherwise # []
   \<and> fst (thunk ex_env ex_bogus_closure (Some []) \<lparr> trace = [], loops = [] \<rparr>)
       = Some (ValueError (''Unknown integral type '' @ sq ''bogus''))
   \<and> snd (thunk ex_env ex_bogus_closure (Some []) \<lparr> trace = [], loops = [] \<rparr>)
       = snd (for_each (kernel_step ex_env ex_bogus_closure (Some []))
                [ex_kernel [0] 7 ''cell'' Otherwise]
                (zero_step ex_bogus_closure \<lparr> trace = [], loops = [] \<rparr>))"
proof -
  let ?A = "ex_args ex_bogus_matrix_form None"
  let ?B = "ex_args ex_bogus_form None"
  let ?k7 = "ex_kernel [0] 7 ''cell'' Otherwise"
  let ?k8 = "ex_kernel [0] 8 ''bogus'' Otherwise"
  let ?s0 = "\<lparr> trace = [], loops = [] \<rparr>"
  let ?s1 = "\<lparr> trace = [MeshInit ''m'', Compile False False], loops = [] \<rparr>"
  let ?s2 = "\<lparr> trace = [MeshInit ''m'', Compile False False, NewFunction], loops = [] \<rparr>"
  let ?cl = "make_closure ?B (TargetFunction ex_space) False []"
  have c: "classify ''bogus'' = None" by (simp add: classify_def)
  have a1: "intake ex_env ?A ?s0 = (Inr (''aij'', ''baij''), ?s1)" by code_simp
  have a2: "length (f_arguments (a_f ?A)) = 2"
    by (simp add: ex_args_def ex_bogus_matrix_form_def ex_form_def)
  have a3: "a_tensor ?A = None" by (simp add: ex_args_def)
  have a4: "''aij'' \<noteq> ''matfree''" by simp
  have a5: "integral_types (a_f ?A) = [''cell''] @ ''bogus'' # []"
    by (simp add: ex_args_def ex_bogus_matrix_form_def ex_form_def integral_types_def ex_kernel_def)
  have a6: "classify ''cell'' \<noteq> None" by (simp add: classify_def)
  have a6': "\<forall>u \<in> set [''cell'']. classify u \<noteq> None" using a6 by simp
  have b1: "length (f_arguments (a_f ?B)) = 1"
    by (simp add: ex_args_def ex_bogus_form_def ex_form_def)
  have b1': "length (f_arguments (a_f ?B)) \<noteq> 2" using b1 by simp
  have b2: "f_kernels (a_f ?B) = [?k7] @ ?k8 # []"
    by (simp add: ex_args_def ex_bogus_form_def ex_form_def)
  have b3: "k_integral_type ?k8 = ''bogus''" by (simp add: ex_kernel_def)
  have b4: "intake ex_env ?B ?s0 = (Inr (''aij'', ''baij''), ?s1)" by code_simp
  have b5: "rank_setup ?B ''aij'' ''baij'' ?s1 = (Inr (Continue (TargetFunction ex_space) False), ?s2)"
    by code_simp
  have b6: "all_integer_subdomain_ids (f_kernels (a_f ?B)) = Inr []" by code_simp
  have b7: "fst (for_each (kernel_step ex_env ?cl (a_bcs ?B)) [?k7] (zero_step ?cl ?s2)) = None"
    by code_simp
  have b8: "\<not> isl (kernel_prelude ?cl (a_bcs ?B) ?k8)" by code_simp
  have d1: "cl_kernels ex_bogus_closure = [?k7] @ ?k8 # []"
    by (simp add: ex_bogus_closure_def make_closure_def ex_args_def ex_bogus_form_def ex_form_def)
  have d2: "fst (for_each (kernel_step ex_env ex_bogus_closure (Some [])) [?k7]
              (zero_step ex_bogus_closure ?s0)) = None" by code_simp
  have d3: "\<not> isl (kernel_prelude ex_bogus_closure (Some []) ?k8)" by code_simp
  note T = unknown_kind_fails[OF c, where env = ex_env and tr = "[]" and a = ?A and mt = "''aij''"
      and smt = "''baij''" and ?s1.0 = ?s1 and ts = "[''cell'']" and ts' = "[]"
      and b = ?B and pre = "[?k7]" and k = ?k8 and post = "[]" and mt' = "''aij''"
      and smt' = "''baij''" and s1' = ?s1 and tgt = "TargetFunction ex_space" and zero = False
      and ?s2.0 = ?s2 and ids = "[]"
      and cl = ex_bogus_closure and cpre = "[?k7]" and ck = ?k8 and cpost = "[]"
      and bcs = "Some []" and s = ?s0]
  have ra: "assemble_impl ex_env ?A []
       = (Inl (ValueError (''Unknown integral type '' @ dq ''bogus'')), ?s1)"
    using T[THEN conjunct1, THEN mp, OF conjI[OF a1 conjI[OF a2 conjI[OF a3 conjI[OF a4
              conjI[OF a5 a6']]]]]]
    by (rule conjunct1)
  have rb: "fst (assemble_impl ex_env ?B [])
           = Inl (ValueError (''Unknown integral type '' @ sq ''bogus''))
         \<and> accumulations (trace (snd (assemble_impl ex_env ?B [])))
             = accumulations [] @ (if a_collect_loops ?B then [] else map k_kernel [?k7])"
    by (rule T[THEN conjunct2, THEN conjunct2, THEN conjunct1, THEN mp,
          OF conjI[OF b1' conjI[OF b2 conjI[OF b3 conjI[OF b4 conjI[OF b5 conjI[OF b6
                conjI[OF b7 b8]]]]]]]])
  have rb1: "fst (assemble_impl ex_env ?B [])
           = Inl (ValueError (''Unknown integral type '' @ sq ''bogus''))"
    using rb by (rule conjunct1)
  have rb2: "accumulations (trace (snd (assemble_impl ex_env ?B []))) = [7]"
    using rb[THEN conjunct2] by (simp add: ex_args_def ex_kernel_def accumulations_def)
  from T[THEN conjunct2, THEN conjunct2, THEN conjunct2, THEN mp, OF conjI[OF d1 b3]]
  obtain e where
    e1: "fst (thunk ex_env ex_bogus_closure (Some []) ?s0) = Some e"
    and e2: "snd (thunk ex_env ex_bogus_closure (Some []) ?s0)
               = snd (for_each (kernel_step ex_env ex_bogus_closure (Some [])) [?k7]
                        (zero_step ex_bogus_closure ?s0))"
    and e3: "fst (for_each (kernel_step ex_env ex_bogus_closure (Some [])) [?k7]
                (zero_step ex_bogus_closure ?s0)) = None
             \<and> \<not> isl (kernel_prelude ex_bogus_closure (Some []) ?k8) \<longrightarrow>
             e = ValueError (''Unknown integral type '' @ sq ''bogus'')"
    by (elim exE conjE)
  have e4: "e = ValueError (''Unknown integral type '' @ sq ''bogus'')"
    by (rule mp[OF e3 conjI[OF d2 d3]])
  have rc: "fst (thunk ex_env ex_bogus_closure (Some []) ?s0)
       = Some (ValueError (''Unknown integral type '' @ sq ''bogus''))"
    using e1 unfolding e4 .
  show ?thesis by (intro conjI c a1 a2 a3 a5 a6 ra b1 b2 b4 b5 b6 rb1 rb2 d1 rc e2)
qed

subsection \<open>A supplied matrix\<close>

lemma check_meshes_loops: "loops (snd (check_meshes f s)) = loops s"
proof (cases "f_ufl_domains f")
  case Nil
  then show ?thesis by (simp add: check_meshes_def)
next
  case (Cons m0 ms)
  have "(\<lambda>s'. loops s' = loops s)
          (snd (for_each (init_domain (mesh_topology m0)) (f_ufl_domains f) s))"
  proof (rule for_each_invariant)
    fix x s1 r s2
    assume "loops s1 = loops s" and "init_domain (mesh_topology m0) x s1 = (r, s2)"
    then show "loops s2 = loops s"
      by (auto simp: init_domain_def issue_def split: if_splits)
  qed simp
  then show ?thesis using Cons
    by (auto simp: check_meshes_def split: prod.splits option.splits)
qed

lemma intake_loops: "loops (snd (intake env a s)) = loops s"
proof (cases "resolve_types env a")
  case (Inl e)
  then show ?thesis by (simp add: intake_def)
next
  case (Inr types)
  obtain r s1 where cm: "check_meshes (a_f a) s = (r, s1)" by (cases "check_meshes (a_f a) s")
  have l: "loops s1 = loops s" using check_meshes_loops[of "a_f a" s] cm by simp
  show ?thesis using Inr cm l
    by (cases r) (auto simp: intake_def Let_def issue_def)
qed

text \<open>
  C8 (as amended).  A call of \<open>_assemble\<close> on a form of rank 2 with a supplied matrix \<open>M\<close>, not
  matrix-free, whose intake has passed. The first thing the call does after the intake is
  to replace the boundary conditions of \<open>M\<close> by those of the call; it builds no sparsity
  and creates no tensor, with or without loop collection, and it does not compare the
  block shape or the sparsity of \<open>M\<close> with the form. When loops are not collected, or
  only an allocation is asked for, it does nothing more. When the call returns:

  \<^item> allocate-only: the value is \<open>M\<close> with the new boundary conditions and no assembly
    callback;
  \<^item> otherwise, loops not collected: the value is \<open>M\<close> with the new boundary conditions and
    with, as assembly callback, \<open>thunk\<close> closed over the kernels of the form, the block
    shape of \<open>M\<close> and \<open>zero_tensor = tensor.zero\<close>;
  \<^item> otherwise, loops collected: the call has run \<open>thunk\<close> on that closure with the
    boundary conditions of the call, every call of that run being a collected par_loop,
    the setting of diagonal entries or \<open>tensor.assemble()\<close>; the value is the list
    \<open>loops\<close>, which begins with \<open>tensor.zero\<close>.
\<close>

theorem supplied_matrix_reused:
  assumes "intake env a \<lparr> trace = tr, loops = [] \<rparr> = (Inr (mt, smt), s)"
    and "length (f_arguments (a_f a)) = 2"
    and "a_tensor a = Some (Matrix M)"
    and "mt \<noteq> ''matfree''"
  shows "(\<exists>new. trace s = tr @ new \<and> (\<forall>c \<in> set new. intake_call c))
         \<and> (\<exists>rest. trace (snd (assemble_impl env a tr))
                      = trace s @ MatrixSetBcs (a_bcs a) # rest
               \<and> (\<forall>c \<in> set rest. (\<exists>pl. c = ParLoop True pl) \<or> closing_call c)
               \<and> (\<not> a_collect_loops a \<or> a_allocate_only a \<longrightarrow> rest = []))
         \<and> (\<forall>v. fst (assemble_impl env a tr) = Inr v \<longrightarrow>
               (a_allocate_only a \<longrightarrow>
                  v = Tensor (Matrix (M\<lparr> mat_bcs := a_bcs a,
                                          mat_assembly_callback := Some None \<rparr>)))
               \<and> (\<not> a_allocate_only a \<longrightarrow>
                    (\<exists>ids cl. all_integer_subdomain_ids (f_kernels (a_f a)) = Inr ids
                       \<and> cl = make_closure a (TargetMatrix (M\<lparr> mat_bcs := a_bcs a \<rparr>)) True ids
                       \<and> cl_zero_tensor cl \<and> cl_block_shape cl = mat_block_shape M
                       \<and> cl_kernels cl = f_kernels (a_f a)
                       \<and> (\<not> a_collect_loops a \<longrightarrow>
                            v = Tensor (Matrix (M\<lparr> mat_bcs := a_bcs a,
                                                    mat_assembly_callback := Some (Some cl) \<rparr>)))
                       \<and> (a_collect_loops a \<longrightarrow>
                            thunk env cl (a_bcs a) (issue (MatrixSetBcs (a_bcs a)) s)
                              = (None, snd (assemble_impl env a tr))
                            \<and> (\<exists>ls. v = Loops (ZeroCallable # map Returned ls))))))"
proof -
  let ?s2 = "issue (MatrixSetBcs (a_bcs a)) s"
  let ?M = "M\<lparr> mat_bcs := a_bcs a \<rparr>"
  from intake_trace[of env a "\<lparr> trace = tr, loops = [] \<rparr>"] assms(1)
  have tr: "\<exists>new. trace s = tr @ new \<and> (\<forall>c \<in> set new. intake_call c)" by auto
  have ls: "loops s = []" using intake_loops[of env a "\<lparr> trace = tr, loops = [] \<rparr>"] assms(1) by simp
  have t2: "trace ?s2 = trace s @ [MatrixSetBcs (a_bcs a)]" and l2: "loops ?s2 = []"
    using ls by (simp_all add: issue_def)
  from assms(2) obtain test trial where args: "f_arguments (a_f a) = [test, trial]"
    by (cases "f_arguments (a_f a)"; cases "tl (f_arguments (a_f a))") auto
  have mt: "mat_target a (mt = ''nest'') (if mt = ''nest'' then smt = ''baij'' else mt = ''baij'')
          (integral_types (a_f a)) (arg_function_space test) (arg_function_space trial) s
        = (Inr (?M, True), ?s2)"
    using assms(3) by (simp add: mat_target_def)
  have ar: "assemble_impl env a tr = assemble_rank env a mt smt s"
    by (rule assemble_impl_intake_ok[OF assms(1)])
  have short: "\<And>r. assemble_impl env a tr = (r, ?s2) \<Longrightarrow>
      \<exists>rest. trace (snd (assemble_impl env a tr)) = trace s @ MatrixSetBcs (a_bcs a) # rest
               \<and> (\<forall>c \<in> set rest. (\<exists>pl. c = ParLoop True pl) \<or> closing_call c)
               \<and> (\<not> a_collect_loops a \<or> a_allocate_only a \<longrightarrow> rest = [])"
    using t2 by (intro exI[of _ "[]"]) simp
  show ?thesis
  proof (cases "mat_block_shape M \<noteq> (1, 1) \<and> mt = ''baij''")
    case True
    then have "setup_mat a mt smt (integral_types (a_f a)) s
                 = (Inl (ValueError (''BAIJ matrix type makes no sense for mixed spaces, use ''
                               @ sq ''aij'')), ?s2)"
      using assms(4) args mt by (simp add: setup_mat_def Let_def)
    then have r: "assemble_impl env a tr
                 = (Inl (ValueError (''BAIJ matrix type makes no sense for mixed spaces, use ''
                               @ sq ''aij'')), ?s2)"
      using assms(2) ar by (simp add: assemble_rank_def rank_setup_def)
    have "\<forall>v. fst (assemble_impl env a tr) \<noteq> Inr v" using r by simp
    then show ?thesis using tr short[OF r] by (intro conjI) simp_all
  next
    case nb: False
    show ?thesis
    proof (cases "a_allocate_only a")
      case True
      have "setup_mat a mt smt (integral_types (a_f a)) s
              = (Inr (Return (Tensor (Matrix (?M\<lparr> mat_assembly_callback := Some None \<rparr>)))), ?s2)"
        using assms(4) args mt nb True by (auto simp: setup_mat_def Let_def)
      then have r: "assemble_impl env a tr
              = (Inr (Tensor (Matrix (?M\<lparr> mat_assembly_callback := Some None \<rparr>))), ?s2)"
        using assms(2) ar by (simp add: assemble_rank_def rank_setup_def)
      show ?thesis
      proof (intro conjI)
        show "\<exists>new. trace s = tr @ new \<and> (\<forall>c \<in> set new. intake_call c)" by (rule tr)
        show "\<exists>rest. trace (snd (assemble_impl env a tr)) = trace s @ MatrixSetBcs (a_bcs a) # rest
               \<and> (\<forall>c \<in> set rest. (\<exists>pl. c = ParLoop True pl) \<or> closing_call c)
               \<and> (\<not> a_collect_loops a \<or> a_allocate_only a \<longrightarrow> rest = [])"
          by (rule short[OF r])
        show "\<forall>v. fst (assemble_impl env a tr) = Inr v \<longrightarrow>
               (a_allocate_only a \<longrightarrow>
                  v = Tensor (Matrix (M\<lparr> mat_bcs := a_bcs a,
                                          mat_assembly_callback := Some None \<rparr>)))
               \<and> (\<not> a_allocate_only a \<longrightarrow>
                    (\<exists>ids cl. all_integer_subdomain_ids (f_kernels (a_f a)) = Inr ids
                       \<and> cl = make_closure a (TargetMatrix (M\<lparr> mat_bcs := a_bcs a \<rparr>)) True ids
                       \<and> cl_zero_tensor cl \<and> cl_block_shape cl = mat_block_shape M
                       \<and> cl_kernels cl = f_kernels (a_f a)
                       \<and> (\<not> a_collect_loops a \<longrightarrow>
                            v = Tensor (Matrix (M\<lparr> mat_bcs := a_bcs a,
                                                    mat_assembly_callback := Some (Some cl) \<rparr>)))
                       \<and> (a_collect_loops a \<longrightarrow>
                            thunk env cl (a_bcs a) (issue (MatrixSetBcs (a_bcs a)) s)
                              = (None, snd (assemble_impl env a tr))
                            \<and> (\<exists>ls. v = Loops (ZeroCallable # map Returned ls)))))"
          using r True by simp
      qed
    next
      case False
      have sm: "setup_mat a mt smt (integral_types (a_f a)) s
              = (Inr (Continue (TargetMatrix ?M) True), ?s2)"
        using assms(4) args mt nb False by (auto simp: setup_mat_def Let_def)
      then have rs: "rank_setup a mt smt s = (Inr (Continue (TargetMatrix ?M) True), ?s2)"
        using assms(2) by (simp add: rank_setup_def)
      show ?thesis
      proof (cases "all_integer_subdomain_ids (f_kernels (a_f a))")
        case (Inl e)
        then have r: "assemble_impl env a tr = (Inl e, ?s2)"
          using rs ar by (simp add: assemble_rank_def)
        have "\<forall>v. fst (assemble_impl env a tr) \<noteq> Inr v" using r by simp
        then show ?thesis using tr short[OF r] by (intro conjI) simp_all
      next
        case (Inr ids)
        let ?cl = "make_closure a (TargetMatrix ?M) True ids"
        have cl: "cl_zero_tensor ?cl" "cl_block_shape ?cl = mat_block_shape M"
          "cl_kernels ?cl = f_kernels (a_f a)" "cl_collect_loops ?cl = a_collect_loops a"
          "cl_is_mat ?cl"
          using assms(2) by (simp_all add: make_closure_def)
        have fin: "assemble_impl env a tr = finish env ?cl (TargetMatrix ?M) (a_bcs a) ?s2"
          using ar assemble_rank_closure[OF rs Inr] by simp
        show ?thesis
        proof (cases "a_collect_loops a")
          case nc: False
          have r: "assemble_impl env a tr
                = (Inr (Tensor (Matrix (?M\<lparr> mat_assembly_callback := Some (Some ?cl) \<rparr>))), ?s2)"
            using fin cl(4,5) nc by (simp add: finish_def)
          show ?thesis
          proof (intro conjI)
            show "\<exists>new. trace s = tr @ new \<and> (\<forall>c \<in> set new. intake_call c)" by (rule tr)
            show "\<exists>rest. trace (snd (assemble_impl env a tr)) = trace s @ MatrixSetBcs (a_bcs a) # rest
               \<and> (\<forall>c \<in> set rest. (\<exists>pl. c = ParLoop True pl) \<or> closing_call c)
               \<and> (\<not> a_collect_loops a \<or> a_allocate_only a \<longrightarrow> rest = [])"
              by (rule short[OF r])
            show "\<forall>v. fst (assemble_impl env a tr) = Inr v \<longrightarrow>
               (a_allocate_only a \<longrightarrow>
                  v = Tensor (Matrix (M\<lparr> mat_bcs := a_bcs a,
                                          mat_assembly_callback := Some None \<rparr>)))
               \<and> (\<not> a_allocate_only a \<longrightarrow>
                    (\<exists>ids cl. all_integer_subdomain_ids (f_kernels (a_f a)) = Inr ids
                       \<and> cl = make_closure a (TargetMatrix (M\<lparr> mat_bcs := a_bcs a \<rparr>)) True ids
                       \<and> cl_zero_tensor cl \<and> cl_block_shape cl = mat_block_shape M
                       \<and> cl_kernels cl = f_kernels (a_f a)
                       \<and> (\<not> a_collect_loops a \<longrightarrow>
                            v = Tensor (Matrix (M\<lparr> mat_bcs := a_bcs a,
                                                    mat_assembly_callback := Some (Some cl) \<rparr>)))
                       \<and> (a_collect_loops a \<longrightarrow>
                            thunk env cl (a_bcs a) (issue (MatrixSetBcs (a_bcs a)) s)
                              = (None, snd (assemble_impl env a tr))
                            \<and> (\<exists>ls. v = Loops (ZeroCallable # map Returned ls)))))"
              using r False nc Inr cl(1,2,3) by simp
          qed
        next
          case c: True
          obtain r3 s3 where th: "thunk env ?cl (a_bcs a) ?s2 = (r3, s3)"
            by (cases "thunk env ?cl (a_bcs a) ?s2")
          have sn: "snd (assemble_impl env a tr) = s3"
            using fin th cl(4) c by (cases r3) (simp_all add: finish_def)
          have zt: "trace (zero_step ?cl ?s2) = trace ?s2"
            and zl: "loops (zero_step ?cl ?s2) = [ZeroCallable]"
            using cl(1,4) c l2 by (simp_all add: zero_step_def)
          from thunk_trace[of env ?cl "a_bcs a" ?s2] th zt cl(4) c obtain pls closing where
            t3: "trace s3 = trace ?s2 @ map (ParLoop True) pls @ closing"
            and q: "\<forall>c \<in> set closing. closing_call c" by auto
          from thunk_loops[of env ?cl "a_bcs a" ?s2] th zl obtain new where
            l3: "loops s3 = ZeroCallable # map Returned new" by auto
          have p2: "\<exists>rest. trace (snd (assemble_impl env a tr))
                      = trace s @ MatrixSetBcs (a_bcs a) # rest
               \<and> (\<forall>c \<in> set rest. (\<exists>pl. c = ParLoop True pl) \<or> closing_call c)
               \<and> (\<not> a_collect_loops a \<or> a_allocate_only a \<longrightarrow> rest = [])"
            using sn t3 t2 q c False
            by (intro exI[of _ "map (ParLoop True) pls @ closing"]) auto
          have p3: "\<forall>v. fst (assemble_impl env a tr) = Inr v \<longrightarrow>
               (a_allocate_only a \<longrightarrow>
                  v = Tensor (Matrix (M\<lparr> mat_bcs := a_bcs a,
                                          mat_assembly_callback := Some None \<rparr>)))
               \<and> (\<not> a_allocate_only a \<longrightarrow>
                    (\<exists>ids cl. all_integer_subdomain_ids (f_kernels (a_f a)) = Inr ids
                       \<and> cl = make_closure a (TargetMatrix (M\<lparr> mat_bcs := a_bcs a \<rparr>)) True ids
                       \<and> cl_zero_tensor cl \<and> cl_block_shape cl = mat_block_shape M
                       \<and> cl_kernels cl = f_kernels (a_f a)
                       \<and> (\<not> a_collect_loops a \<longrightarrow>
                            v = Tensor (Matrix (M\<lparr> mat_bcs := a_bcs a,
                                                    mat_assembly_callback := Some (Some cl) \<rparr>)))
                       \<and> (a_collect_loops a \<longrightarrow>
                            thunk env cl (a_bcs a) (issue (MatrixSetBcs (a_bcs a)) s)
                              = (None, snd (assemble_impl env a tr))
                            \<and> (\<exists>ls. v = Loops (ZeroCallable # map Returned ls)))))"
          proof (intro allI impI)
            fix v assume ok: "fst (assemble_impl env a tr) = Inr v"
            have r3: "r3 = None" using ok fin th cl(4) c by (cases r3) (simp_all add: finish_def)
            have v: "v = Loops (loops s3)" using ok fin th cl(4) c r3 by (simp add: finish_def)
            have th': "thunk env ?cl (a_bcs a) ?s2 = (None, snd (assemble_impl env a tr))"
              using th r3 sn by simp
            have vl: "\<exists>ls. v = Loops (ZeroCallable # map Returned ls)"
              using v l3 by (intro exI[of _ new]) simp
            show "(a_allocate_only a \<longrightarrow>
                  v = Tensor (Matrix (M\<lparr> mat_bcs := a_bcs a,
                                          mat_assembly_callback := Some None \<rparr>)))
               \<and> (\<not> a_allocate_only a \<longrightarrow>
                    (\<exists>ids cl. all_integer_subdomain_ids (f_kernels (a_f a)) = Inr ids
                       \<and> cl = make_closure a (TargetMatrix (M\<lparr> mat_bcs := a_bcs a \<rparr>)) True ids
                       \<and> cl_zero_tensor cl \<and> cl_block_shape cl = mat_block_shape M
                       \<and> cl_kernels cl = f_kernels (a_f a)
                       \<and> (\<not> a_collect_loops a \<longrightarrow>
                            v = Tensor (Matrix (M\<lparr> mat_bcs := a_bcs a,
                                                    mat_assembly_callback := Some (Some cl) \<rparr>)))
                       \<and> (a_collect_loops a \<longrightarrow>
                            thunk env cl (a_bcs a) (issue (MatrixSetBcs (a_bcs a)) s)
                              = (None, snd (assemble_impl env a tr))
                            \<and> (\<exists>ls. v = Loops (ZeroCallable # map Returned ls)))))"
              using False c Inr cl(1,2,3) th' vl
              by (intro conjI impI exI[of _ ids] exI[of _ ?cl]) simp_all
          qed
          show ?thesis using tr p2 p3 by (intro conjI)
        qed
      qed
    qed
  qed
qed

theorem supplied_matrix_reused_witness:
  "intake ex_env ex_reassemble \<lparr> trace = [], loops = [] \<rparr>
     = (Inr (''aij'', ''baij''), \<lparr> trace = [MeshInit ''m'', Compile False False], loops = [] \<rparr>)
   \<and> length (f_arguments (a_f ex_reassemble)) = 2
   \<and> a_tensor ex_reassemble = Some (Matrix (ex_supplied (1, 1)))
   \<and> \<not> a_collect_loops ex_reassemble
   \<and> \<not> a_allocate_only ex_reassemble
   \<and> trace (snd (assemble_impl ex_env ex_reassemble []))
       = [MeshInit ''m'', Compile False False, MatrixSetBcs (Some [ex_bc ex_space])]
   \<and> (\<exists>cl. fst (assemble_impl ex_env ex_reassemble [])
               = Inr (Tensor (Matrix ((ex_supplied (1, 1))
                    \<lparr> mat_bcs := Some [ex_bc ex_space],
                      mat_assembly_callback := Some (Some cl) \<rparr>)))
            \<and> cl_zero_tensor cl)
   \<and> intake ex_env (ex_collect ex_reassemble) \<lparr> trace = [], loops = [] \<rparr>
     = (Inr (''aij'', ''baij''), \<lparr> trace = [MeshInit ''m'', Compile False False], loops = [] \<rparr>)
   \<and> a_collect_loops (ex_collect ex_reassemble)
   \<and> (\<exists>rest. trace (snd (assemble_impl ex_env (ex_collect ex_reassemble) []))
                 = [MeshInit ''m'', Compile False False]
                   @ MatrixSetBcs (Some [ex_bc ex_space]) # rest
              \<and> length rest = 3)
   \<and> (\<exists>ls. fst (assemble_impl ex_env (ex_collect ex_reassemble) [])
               = Inr (Loops (ZeroCallable # map Returned ls)))"
proof -
  let ?a = "ex_reassemble"
  let ?c = "ex_collect ex_reassemble"
  let ?s0 = "\<lparr> trace = [], loops = [] \<rparr>"
  let ?s1 = "\<lparr> trace = [MeshInit ''m'', Compile False False], loops = [] \<rparr>"
  have h1: "intake ex_env ?a ?s0 = (Inr (''aij'', ''baij''), ?s1)" by code_simp
  have h2: "length (f_arguments (a_f ?a)) = 2"
    by (simp add: ex_reassemble_def ex_args_def ex_matrix_form_def ex_form_def)
  have h3: "a_tensor ?a = Some (Matrix (ex_supplied (1, 1)))"
    by (simp add: ex_reassemble_def ex_args_def)
  have h4: "''aij'' \<noteq> ''matfree''" by simp
  have h5: "\<not> a_collect_loops ?a" "\<not> a_allocate_only ?a" "a_bcs ?a = Some [ex_bc ex_space]"
    by (simp_all add: ex_reassemble_def ex_args_def)
  have h6: "\<not> isl (fst (assemble_impl ex_env ?a []))" by code_simp
  obtain v where v: "fst (assemble_impl ex_env ?a []) = Inr v"
    using h6 by (cases "fst (assemble_impl ex_env ?a [])") simp_all
  note T = supplied_matrix_reused[OF h1 h2 h3 h4]
  from T[THEN conjunct2, THEN conjunct1] obtain rest where
    t: "trace (snd (assemble_impl ex_env ?a [])) = trace ?s1 @ MatrixSetBcs (a_bcs ?a) # rest"
    and e: "\<not> a_collect_loops ?a \<or> a_allocate_only ?a \<longrightarrow> rest = []"
    by (elim exE conjE)
  have r1: "trace (snd (assemble_impl ex_env ?a []))
       = [MeshInit ''m'', Compile False False, MatrixSetBcs (Some [ex_bc ex_space])]"
    using t e h5 by simp
  from T[THEN conjunct2, THEN conjunct2, THEN spec, THEN mp, OF v, THEN conjunct2, THEN mp,
      OF h5(2)]
  obtain ids cl where
    z: "cl_zero_tensor cl"
    and nc: "\<not> a_collect_loops ?a \<longrightarrow>
               v = Tensor (Matrix ((ex_supplied (1, 1))\<lparr> mat_bcs := a_bcs ?a,
                                     mat_assembly_callback := Some (Some cl) \<rparr>))"
    by (elim exE conjE)
  have r2: "\<exists>cl. fst (assemble_impl ex_env ?a [])
               = Inr (Tensor (Matrix ((ex_supplied (1, 1))
                    \<lparr> mat_bcs := Some [ex_bc ex_space],
                      mat_assembly_callback := Some (Some cl) \<rparr>)))
            \<and> cl_zero_tensor cl"
    using v nc h5 z by (intro exI[of _ cl]) simp
  have g1: "intake ex_env ?c ?s0 = (Inr (''aij'', ''baij''), ?s1)" by code_simp
  have g2: "length (f_arguments (a_f ?c)) = 2"
    by (simp add: ex_collect_def ex_reassemble_def ex_args_def ex_matrix_form_def ex_form_def)
  have g3: "a_tensor ?c = Some (Matrix (ex_supplied (1, 1)))"
    by (simp add: ex_collect_def ex_reassemble_def ex_args_def)
  have g5: "a_collect_loops ?c" "\<not> a_allocate_only ?c" "a_bcs ?c = Some [ex_bc ex_space]"
    by (simp_all add: ex_collect_def ex_reassemble_def ex_args_def)
  have g6: "\<not> isl (fst (assemble_impl ex_env ?c []))" by code_simp
  have g7: "length (trace (snd (assemble_impl ex_env ?c []))) = 6" by code_simp
  obtain w where w: "fst (assemble_impl ex_env ?c []) = Inr w"
    using g6 by (cases "fst (assemble_impl ex_env ?c [])") simp_all
  note U = supplied_matrix_reused[OF g1 g2 g3 h4]
  from U[THEN conjunct2, THEN conjunct1] obtain rest' where
    t': "trace (snd (assemble_impl ex_env ?c [])) = trace ?s1 @ MatrixSetBcs (a_bcs ?c) # rest'"
    by (elim exE conjE)
  have "length (trace (snd (assemble_impl ex_env ?c []))) = 3 + length rest'"
    using t' by simp
  then have lr: "length rest' = 3" using g7 by simp
  have r3: "\<exists>rest. trace (snd (assemble_impl ex_env ?c []))
                 = [MeshInit ''m'', Compile False False]
                   @ MatrixSetBcs (Some [ex_bc ex_space]) # rest
              \<and> length rest = 3"
    using t' lr g5 by (intro exI[of _ rest']) simp
  from U[THEN conjunct2, THEN conjunct2, THEN spec, THEN mp, OF w, THEN conjunct2, THEN mp,
      OF g5(2)]
  obtain ids' cl' where
    c: "a_collect_loops ?c \<longrightarrow>
          thunk ex_env cl' (a_bcs ?c) (issue (MatrixSetBcs (a_bcs ?c)) ?s1)
            = (None, snd (assemble_impl ex_env ?c []))
          \<and> (\<exists>ls. w = Loops (ZeroCallable # map Returned ls))"
    by (elim exE conjE)
  from c g5(1) obtain ls where "w = Loops (ZeroCallable # map Returned ls)" by auto
  then have r4: "\<exists>ls. fst (assemble_impl ex_env ?c [])
               = Inr (Loops (ZeroCallable # map Returned ls))"
    using w by (intro exI[of _ ls]) simp
  show ?thesis by (intro conjI h1 h2 h3 h5(1) h5(2) r1 r2 g1 g5(1) r3 r4)
qed

end
